(* ===== verification/Prelude.thy ===== *)
theory Prelude
  imports Complex_Main "HOL-Library.AList" "HOL-Library.Sublist"
begin

text \<open>
  What every component of the development shares: the collections of facts that its proofs
  use, fallible computations (a thrown value on the left of a sum), a JavaScript
  \<^verbatim>\<open>Map\<close> as an association list in insertion order, and a few generic facts on lists
  and decimal numerals.
\<close>

named_theorems js_simps \<open>evaluation of the JavaScript primitives\<close>
named_theorems rbac_simps \<open>unfolding of the role checks\<close>
named_theorems route_simps \<open>unfolding of the route handlers\<close>
named_theorems store_simps \<open>reads after writes in the in-memory stores\<close>

section \<open>Fallible computations\<close>

text \<open>\<open>Inl\<close> is the thrown value, \<open>Inr\<close> the result.\<close>

definition then_do :: "'e + 'a \<Rightarrow> ('a \<Rightarrow> 'e + 'b) \<Rightarrow> 'e + 'b" where
  "then_do x f = (case x of Inl e \<Rightarrow> Inl e | Inr a \<Rightarrow> f a)"

lemma then_do_simps [simp]:
  "then_do (Inl e) f = Inl e"
  "then_do (Inr a) f = f a"
  by (simp_all add: then_do_def)

lemma then_do_eq_Inr:
  "then_do x f = Inr b \<longleftrightarrow> (\<exists>a. x = Inr a \<and> f a = Inr b)"
  by (cases x) auto

lemma then_do_eq_Inl:
  "then_do x f = Inl e \<longleftrightarrow> x = Inl e \<or> (\<exists>a. x = Inr a \<and> f a = Inl e)"
  by (cases x) auto

text \<open>A traversal that stops at the first thrown value, as \<^verbatim>\<open>Array.map\<close> does.\<close>

fun map_throw :: "('a \<Rightarrow> 'e + 'b) \<Rightarrow> 'a list \<Rightarrow> 'e + 'b list" where
  "map_throw f [] = Inr []"
| "map_throw f (x # xs) =
     then_do (f x) (\<lambda>y. then_do (map_throw f xs) (\<lambda>ys. Inr (y # ys)))"

lemma map_throw_cong [fundef_cong]:
  "xs = ys \<Longrightarrow> (\<And>x. x \<in> set ys \<Longrightarrow> f x = g x) \<Longrightarrow> map_throw f xs = map_throw g ys"
  by (induction xs arbitrary: ys) auto

lemma map_throw_Inr: "map_throw (\<lambda>x. Inr (g x)) xs = Inr (map g xs)"
  by (induction xs) auto

lemma map_throw_length: "map_throw f xs = Inr ys \<Longrightarrow> length ys = length xs"
  by (induction xs arbitrary: ys) (auto simp: then_do_eq_Inr)

lemma map_throw_nth:
  "map_throw f xs = Inr ys \<Longrightarrow> i < length xs \<Longrightarrow> f (xs ! i) = Inr (ys ! i)"
  by (induction xs arbitrary: ys i) (auto simp: then_do_eq_Inr nth_Cons split: nat.splits)

section \<open>Insertion-ordered maps\<close>

text \<open>
  A JavaScript \<^verbatim>\<open>Map\<close> enumerates its entries in insertion order, and setting an
  existing key keeps the key's place. \<open>AList.update\<close> does the same on an association list.
\<close>

type_synonym ('k, 'v) jsmap = "('k \<times> 'v) list"

abbreviation map_get :: "('k, 'v) jsmap \<Rightarrow> 'k \<Rightarrow> 'v option" where
  "map_get \<equiv> map_of"

abbreviation map_set :: "'k \<Rightarrow> 'v \<Rightarrow> ('k, 'v) jsmap \<Rightarrow> ('k, 'v) jsmap" where
  "map_set \<equiv> AList.update"

abbreviation map_delete :: "'k \<Rightarrow> ('k, 'v) jsmap \<Rightarrow> ('k, 'v) jsmap" where
  "map_delete \<equiv> AList.delete"

abbreviation map_wf :: "('k, 'v) jsmap \<Rightarrow> bool" where
  "map_wf m \<equiv> distinct (map fst m)"

lemma map_get_set [simp, store_simps]:
  "map_get (map_set k v m) k' = (if k' = k then Some v else map_get m k')"
  by (simp add: update_conv')

lemma map_get_delete [simp, store_simps]:
  "map_get (map_delete k m) k' = (if k' = k then None else map_get m k')"
  by (simp add: delete_conv')

lemma map_wf_set [simp, intro]: "map_wf m \<Longrightarrow> map_wf (map_set k v m)"
  by (rule distinct_update)

lemma map_wf_delete [simp, intro]: "map_wf m \<Longrightarrow> map_wf (map_delete k m)"
  by (rule distinct_delete)

lemma map_set_fresh: "map_get m k = None \<Longrightarrow> map_set k v m = m @ [(k, v)]"
  by (induction m) (auto split: if_splits)

lemma map_set_keys: "map_get m k = Some w \<Longrightarrow> map fst (map_set k v m) = map fst m"
  by (induction m) (auto split: if_splits)

lemma in_values_iff:
  "map_wf m \<Longrightarrow> v \<in> snd ` set m \<longleftrightarrow> (\<exists>k. map_get m k = Some v)"
  by (force simp: map_of_eq_Some_iff)

section \<open>Lists\<close>

lemma filter_snoc: "filter P (xs @ [x]) = filter P xs @ (if P x then [x] else [])"
  by simp

lemma last_map_upt: "0 < n \<Longrightarrow> last (map f [0..<n]) = f (n - 1)"
  by (cases n) auto

section \<open>Integer division\<close>

lemma div_bounds: "0 < k \<Longrightarrow> k * (a div k) \<le> a \<and> a < k * (a div k) + (k :: int)"
  using pos_mod_bound [of k a] pos_mod_sign [of k a] mult_div_mod_eq [of k a] by linarith

lemma div_succ:
  assumes "0 < (k :: int)"
  shows "(a + 1) div k = a div k + (if (a + 1) mod k = 0 then 1 else 0)"
proof -
  have a: "a + 1 = k * (a div k) + (a mod k + 1)" "0 \<le> a mod k" "a mod k < k"
    using assms mult_div_mod_eq [of k a] by (linarith, simp_all)
  show ?thesis
  proof (cases "a mod k + 1 = k")
    case True
    then have "a + 1 = k * (a div k + 1)" using a(1) by (simp add: distrib_left)
    then show ?thesis using assms by simp
  next
    case False
    then have r: "0 \<le> a mod k + 1" "a mod k + 1 < k" using a by linarith+
    have "(a + 1) div k = a div k" "(a + 1) mod k = a mod k + 1"
      using int_div_pos_eq [OF a(1) r] int_mod_pos_eq [OF a(1) r] by simp_all
    then show ?thesis using a(2) by simp
  qed
qed

section \<open>Decimal numerals\<close>

definition digit_char :: "int \<Rightarrow> char" where
  "digit_char d = ''0123456789'' ! nat (d mod 10)"

text \<open>The decimal digits of a number that is not negative.\<close>

function nat_str :: "int \<Rightarrow> string" where
  "nat_str n =
     (if n < 10 then [digit_char n] else nat_str (n div 10) @ [digit_char (n mod 10)])"
  by pat_completeness auto
termination
  by (relation "measure nat") auto

declare nat_str.simps [simp del]

definition int_str :: "int \<Rightarrow> string" where
  "int_str i = (if i < 0 then ''-'' @ nat_str (- i) else nat_str i)"

lemma nat_str_nonempty [simp]: "nat_str n \<noteq> []"
  by (subst nat_str.simps) simp

lemma nat_str_eval [simp]:
  "n < 10 \<Longrightarrow> nat_str n = [digit_char n]"
  "10 \<le> n \<Longrightarrow> nat_str n = nat_str (n div 10) @ [digit_char (n mod 10)]"
  by (simp_all add: nat_str.simps [of n])

end
