(* ===== verification/Js_Values.thy ===== *)
theory Js_Values
  imports Prelude
begin

text \<open>
  The part of JavaScript the program relies on where it handles untyped data: JSON-like values,
  numbers as IEEE doubles, the conversions \<^verbatim>\<open>Number(x)\<close> and \<^verbatim>\<open>String(x)\<close>, truthiness,
  nullish coalescing and property access. A thrown value is on the left of a sum.

  Strings are lists of Latin-1 code units. The finite doubles are rationals, so that \<open>-0\<close> and
  \<open>0\<close> are one number: no code here tells them apart. Functions do not occur as values, because
  every value comes from JSON, from a query string or from a protobuf message.
\<close>

section \<open>Values and thrown errors\<close>

datatype jsnum = NaN | Infinity bool \<comment> \<open>\<open>Infinity True\<close> is negative\<close> | Fin rat

datatype jsv =
    JUndefined
  | JNull
  | JBool bool
  | JNum jsnum
  | JStr string
  | JArr "jsv list"
  | JObj "(string \<times> jsv) list"

text \<open>
  What a handler can throw: an \<^verbatim>\<open>RpcError\<close> with its HTTP status, message and gRPC code, or any
  other \<^verbatim>\<open>Error\<close> with its message.
\<close>

datatype js_error = RpcError nat string "int option" | OtherError string

type_synonym 'a js = "js_error + 'a"

section \<open>Truthiness and property access\<close>

fun num_truthy :: "jsnum \<Rightarrow> bool" where
  "num_truthy NaN = False"
| "num_truthy (Infinity _) = True"
| "num_truthy (Fin q) = (q \<noteq> 0)"

fun truthy :: "jsv \<Rightarrow> bool" where
  "truthy JUndefined = False"
| "truthy JNull = False"
| "truthy (JBool b) = b"
| "truthy (JNum n) = num_truthy n"
| "truthy (JStr s) = (s \<noteq> [])"
| "truthy (JArr _) = True"
| "truthy (JObj _) = True"

definition nullish :: "jsv \<Rightarrow> bool" where
  "nullish x \<longleftrightarrow> x = JUndefined \<or> x = JNull"

definition or_default :: "jsv \<Rightarrow> jsv \<Rightarrow> jsv" where
  \<comment> \<open>\<^verbatim>\<open>x ?? d\<close>\<close>
  "or_default x d = (if nullish x then d else x)"

definition own :: "(string \<times> jsv) list \<Rightarrow> string \<Rightarrow> jsv" where
  "own ob k = (case map_of ob k of None \<Rightarrow> JUndefined | Some v \<Rightarrow> v)"

definition prop_opt :: "jsv \<Rightarrow> string \<Rightarrow> jsv" where
  \<comment> \<open>\<^verbatim>\<open>x?.k\<close> for a name \<^verbatim>\<open>k\<close> no prototype defines\<close>
  "prop_opt x k = (case x of JObj ob \<Rightarrow> own ob k | _ \<Rightarrow> JUndefined)"

definition get_prop :: "jsv \<Rightarrow> string \<Rightarrow> jsv js" where
  \<comment> \<open>\<^verbatim>\<open>x.k\<close>\<close>
  "get_prop x k =
     (case x of
        JUndefined \<Rightarrow> Inl (OtherError (''Cannot read properties of undefined (reading '' @ k @ '')''))
      | JNull \<Rightarrow> Inl (OtherError (''Cannot read properties of null (reading '' @ k @ '')''))
      | _ \<Rightarrow> Inr (prop_opt x k))"

lemma get_prop_simps [simp, js_simps]:
  "prop_opt (JObj ob) k = own ob k"
  "get_prop (JObj ob) k = Inr (own ob k)"
  "own [] k = JUndefined"
  "own ((k', v) # ob) k = (if k = k' then v else own ob k)"
  by (simp_all add: get_prop_def prop_opt_def own_def)

lemma get_prop_Inr: "get_prop x k = Inr v \<longleftrightarrow> \<not> nullish x \<and> v = prop_opt x k"
  by (cases x) (auto simp: get_prop_def prop_opt_def nullish_def)

section \<open>Doubles\<close>

definition pow2 :: "int \<Rightarrow> rat" where
  "pow2 e = (if 0 \<le> e then 2 ^ nat e else 1 / 2 ^ nat (- e))"

definition pow10 :: "int \<Rightarrow> rat" where
  "pow10 e = (if 0 \<le> e then 10 ^ nat e else 1 / 10 ^ nat (- e))"

function bit_count :: "int \<Rightarrow> int" where
  "bit_count n = (if n \<le> 0 then 0 else 1 + bit_count (n div 2))"
  by pat_completeness auto
termination
  by (relation "measure nat") auto

declare bit_count.simps [simp del]

definition floor_log2 :: "rat \<Rightarrow> int" where
  \<comment> \<open>for a positive argument\<close>
  "floor_log2 x =
     (let p = fst (quotient_of x); q = snd (quotient_of x); k = bit_count p - bit_count q
      in if pow2 k \<le> x then k else k - 1)"

definition round_half_even :: "rat \<Rightarrow> int" where
  "round_half_even x =
     (let f = \<lfloor>x\<rfloor>; d = x - of_int f
      in if d < 1 / 2 then f else if 1 / 2 < d then f + 1 else if even f then f else f + 1)"

text \<open>
  The double nearest to a rational, ties to even: 53 significant bits, the smallest exponent
  \<open>-1074\<close>, and infinity from \<open>2 ^ 1024\<close> on.
\<close>

definition to_double :: "rat \<Rightarrow> jsnum" where
  "to_double x =
     (if x = 0 then Fin 0
      else let a = \<bar>x\<bar>;
               e = max (floor_log2 a - 52) (- 1074);
               v = of_int (round_half_even (a / pow2 e)) * pow2 e
           in if pow2 1024 \<le> v then Infinity (x < 0) else Fin (if x < 0 then - v else v))"

definition num_isFinite :: "jsnum \<Rightarrow> bool" where
  "num_isFinite n = (case n of Fin _ \<Rightarrow> True | _ \<Rightarrow> False)"

definition num_isInteger :: "jsnum \<Rightarrow> bool" where
  "num_isInteger n = (case n of Fin q \<Rightarrow> of_int \<lfloor>q\<rfloor> = q | _ \<Rightarrow> False)"

fun num_less :: "jsnum \<Rightarrow> jsnum \<Rightarrow> bool" where
  "num_less NaN _ = False"
| "num_less _ NaN = False"
| "num_less (Infinity s) (Infinity t) = (s \<and> \<not> t)"
| "num_less (Infinity s) (Fin _) = s"
| "num_less (Fin _) (Infinity t) = (\<not> t)"
| "num_less (Fin p) (Fin q) = (p < q)"

fun num_le :: "jsnum \<Rightarrow> jsnum \<Rightarrow> bool" where
  "num_le NaN _ = False"
| "num_le _ NaN = False"
| "num_le (Infinity s) (Infinity t) = (s \<or> \<not> t)"
| "num_le (Infinity s) (Fin _) = s"
| "num_le (Fin _) (Infinity t) = (\<not> t)"
| "num_le (Fin p) (Fin q) = (p \<le> q)"

abbreviation num_of_int :: "int \<Rightarrow> jsnum" where
  "num_of_int i \<equiv> Fin (of_int i)"

text \<open>The integer a number denotes, for a number that denotes one.\<close>

definition int_of_num :: "jsnum \<Rightarrow> int option" where
  "int_of_num n = (case n of Fin q \<Rightarrow> if of_int \<lfloor>q\<rfloor> = q then Some \<lfloor>q\<rfloor> else None | _ \<Rightarrow> None)"

lemma int_of_num_of_int [simp]: "int_of_num (num_of_int i) = Some i"
  by (simp add: int_of_num_def)

lemma int_of_num_Some: "int_of_num n = Some i \<longleftrightarrow> n = num_of_int i"
  by (cases n) (auto simp: int_of_num_def)

lemma num_isInteger_iff: "num_isInteger n \<longleftrightarrow> (\<exists>i. n = num_of_int i)"
  by (cases n) (auto simp: num_isInteger_def intro: sym)

lemma num_isInteger_isFinite: "num_isInteger n \<Longrightarrow> num_isFinite n"
  by (auto simp: num_isInteger_iff num_isFinite_def)

lemma num_isInteger_Fin [simp, js_simps]: "num_isInteger (num_of_int i)"
  by (simp add: num_isInteger_def)

lemma num_isFinite_Fin [simp, js_simps]: "num_isFinite (Fin q)"
  by (simp add: num_isFinite_def)

section \<open>Numbers as text\<close>

text \<open>
  \<^verbatim>\<open>Number(s)\<close> for a string (ECMAScript's StringToNumber): white space at both ends is
  dropped, the empty text is 0, and what remains is \<^verbatim>\<open>Infinity\<close> with an optional sign, a
  binary, octal or hexadecimal integer with its prefix, or a decimal literal.
\<close>

definition is_space :: "char \<Rightarrow> bool" where
  "is_space c \<longleftrightarrow> of_char c \<in> {9, 10, 11, 12, 13, 32, 160 :: int}"

definition trim :: "string \<Rightarrow> string" where
  "trim s = rev (dropWhile is_space (rev (dropWhile is_space s)))"

definition digit_val :: "char \<Rightarrow> int option" where
  "digit_val c =
     (let n = of_char c :: int
      in if 48 \<le> n \<and> n \<le> 57 then Some (n - 48)
         else if 65 \<le> n \<and> n \<le> 90 then Some (n - 55)
         else if 97 \<le> n \<and> n \<le> 122 then Some (n - 87)
         else None)"

definition is_digit_of :: "int \<Rightarrow> char \<Rightarrow> bool" where
  "is_digit_of b c = (case digit_val c of None \<Rightarrow> False | Some d \<Rightarrow> d < b)"

abbreviation is_digit :: "char \<Rightarrow> bool" where
  "is_digit \<equiv> is_digit_of 10"

definition digits_value :: "int \<Rightarrow> string \<Rightarrow> int" where
  "digits_value b s =
     foldl (\<lambda>n c. b * n + (case digit_val c of None \<Rightarrow> 0 | Some d \<Rightarrow> d)) 0 s"

definition parse_exponent :: "string \<Rightarrow> int option" where
  "parse_exponent s =
     (case s of
        [] \<Rightarrow> Some 0
      | c # t \<Rightarrow>
          if c = CHR ''e'' \<or> c = CHR ''E''
          then let neg = (case t of x # _ \<Rightarrow> x = CHR ''-'' | [] \<Rightarrow> False);
                   ds = (case t of x # u \<Rightarrow> if x = CHR ''-'' \<or> x = CHR ''+'' then u else t
                         | [] \<Rightarrow> [])
               in if ds \<noteq> [] \<and> list_all is_digit ds
                  then Some (if neg then - digits_value 10 ds else digits_value 10 ds)
                  else None
          else None)"

definition parse_unsigned :: "string \<Rightarrow> rat option" where
  "parse_unsigned s =
     (let ip = takeWhile is_digit s;
          r = dropWhile is_digit s;
          dot = (case r of c # _ \<Rightarrow> c = CHR ''.'' | [] \<Rightarrow> False);
          fp = (if dot then takeWhile is_digit (tl r) else []);
          r' = (if dot then dropWhile is_digit (tl r) else r)
      in if ip = [] \<and> fp = [] then None
         else map_option (\<lambda>e. of_int (digits_value 10 (ip @ fp)) * pow10 (e - int (length fp)))
                (parse_exponent r'))"

definition parse_radix :: "string \<Rightarrow> rat option" where
  "parse_radix s =
     (case s of
        z # x # ds \<Rightarrow>
          let b = (if x = CHR ''x'' \<or> x = CHR ''X'' then 16
                   else if x = CHR ''o'' \<or> x = CHR ''O'' then 8
                   else if x = CHR ''b'' \<or> x = CHR ''B'' then 2 else 0)
          in if z = CHR ''0'' \<and> 0 < b \<and> ds \<noteq> [] \<and> list_all (is_digit_of b) ds
             then Some (of_int (digits_value b ds)) else None
      | _ \<Rightarrow> None)"

definition string_to_number :: "string \<Rightarrow> jsnum" where
  "string_to_number str =
     (let s = trim str;
          neg = (case s of c # _ \<Rightarrow> c = CHR ''-'' | [] \<Rightarrow> False);
          u = (case s of c # t \<Rightarrow> if c = CHR ''-'' \<or> c = CHR ''+'' then t else s | [] \<Rightarrow> [])
      in if s = [] then Fin 0
         else if u = ''Infinity'' then Infinity neg
         else (case parse_radix s of
                 Some q \<Rightarrow> to_double q
               | None \<Rightarrow>
                   (case parse_unsigned u of
                      None \<Rightarrow> NaN
                    | Some q \<Rightarrow> to_double (if neg then - q else q))))"

text \<open>
  \<^verbatim>\<open>String(n)\<close> for a number: the decimal digits of an integer below \<open>2 ^ 53\<close>; otherwise the
  shortest digits \<open>c\<close> of some length \<open>k \<le> 17\<close> that read back as the same double, laid
  out as ECMAScript's Number::toString does.
\<close>

fun pow10_above :: "nat \<Rightarrow> rat \<Rightarrow> int \<Rightarrow> int" where
  "pow10_above 0 x n = n"
| "pow10_above (Suc fuel) x n = (if x < pow10 n then n else pow10_above fuel x (n + 1))"

definition digit_candidates :: "rat \<Rightarrow> int \<Rightarrow> nat \<Rightarrow> int list" where
  "digit_candidates x n k =
     (let q = x / pow10 (n - int k); f = \<lfloor>q\<rfloor>
      in filter (\<lambda>c. to_double (of_int c * pow10 (n - int k)) = Fin x)
           (if q - of_int f \<le> 1 / 2 then [f, f + 1] else [f + 1, f]))"

fun shortest_digits :: "nat \<Rightarrow> rat \<Rightarrow> int \<Rightarrow> nat \<Rightarrow> int \<times> nat" where
  "shortest_digits 0 x n k = (\<lfloor>x / pow10 (n - int k)\<rfloor>, k)"
| "shortest_digits (Suc fuel) x n k =
     (case digit_candidates x n k of
        c # _ \<Rightarrow> (c, k)
      | [] \<Rightarrow> shortest_digits fuel x n (Suc k))"

definition zeros :: "int \<Rightarrow> string" where
  "zeros n = replicate (nat n) (CHR ''0'')"

definition layout_digits :: "string \<Rightarrow> int \<Rightarrow> string" where
  "layout_digits ds n =
     (let k = int (length ds); e = n - 1;
          es = (if e < 0 then ''-'' else ''+'') @ nat_str \<bar>e\<bar>
      in if k \<le> n \<and> n \<le> 21 then ds @ zeros (n - k)
         else if 0 < n \<and> n \<le> 21 then take (nat n) ds @ ''.'' @ drop (nat n) ds
         else if - 6 < n \<and> n \<le> 0 then ''0.'' @ zeros (- n) @ ds
         else if k = 1 then ds @ ''e'' @ es
         else take 1 ds @ ''.'' @ drop 1 ds @ ''e'' @ es)"

definition positive_to_string :: "rat \<Rightarrow> string" where
  "positive_to_string x =
     (let n = pow10_above 640 x (- 324);
          ck = shortest_digits 17 x n 1;
          c = fst ck; k = snd ck
      in if c = 10 ^ k then layout_digits ''1'' (n + 1) else layout_digits (nat_str c) n)"

definition num_to_string :: "jsnum \<Rightarrow> string" where
  "num_to_string m =
     (case m of
        NaN \<Rightarrow> ''NaN''
      | Infinity neg \<Rightarrow> if neg then ''-Infinity'' else ''Infinity''
      | Fin q \<Rightarrow>
          if of_int \<lfloor>q\<rfloor> = q \<and> \<bar>\<lfloor>q\<rfloor>\<bar> \<le> 2 ^ 53 then int_str \<lfloor>q\<rfloor>
          else if q < 0 then ''-'' @ positive_to_string (- q)
          else positive_to_string q)"

text \<open>
  \<^verbatim>\<open>String(x)\<close> and \<^verbatim>\<open>Number(x)\<close>. An array joins its elements with commas. An object with a
  property of its own called \<^verbatim>\<open>toString\<close> throws, because the property is no function.
\<close>

fun js_String :: "jsv \<Rightarrow> string js" and js_join :: "jsv list \<Rightarrow> string js" where
  "js_String JUndefined = Inr ''undefined''"
| "js_String JNull = Inr ''null''"
| "js_String (JBool b) = Inr (if b then ''true'' else ''false'')"
| "js_String (JNum n) = Inr (num_to_string n)"
| "js_String (JStr s) = Inr s"
| "js_String (JArr xs) = js_join xs"
| "js_String (JObj ob) =
     (if map_of ob ''toString'' = None then Inr ''[object Object]''
      else Inl (OtherError ''Cannot convert object to primitive value''))"
| "js_join [] = Inr []"
| "js_join (x # xs) =
     then_do (if x = JUndefined \<or> x = JNull then Inr [] else js_String x)
       (\<lambda>s. if xs = [] then Inr s else then_do (js_join xs) (\<lambda>t. Inr (s @ '','' @ t)))"

fun js_Number :: "jsv \<Rightarrow> jsnum js" where
  "js_Number JUndefined = Inr NaN"
| "js_Number JNull = Inr (Fin 0)"
| "js_Number (JBool b) = Inr (Fin (if b then 1 else 0))"
| "js_Number (JNum n) = Inr n"
| "js_Number (JStr s) = Inr (string_to_number s)"
| "js_Number x = then_do (js_String x) (\<lambda>s. Inr (string_to_number s))"

section \<open>Integers survive the trip through text\<close>

text \<open>
  The integers up to \<open>2 ^ 53\<close> are exactly representable, so printing one and reading it back
  is the identity. This is what makes the protobuf convention of sending 64-bit integers as
  decimal strings lossless in that range.
\<close>

lemma bit_count_bounds:
  "0 < n \<Longrightarrow> 1 \<le> bit_count n \<and> 2 ^ nat (bit_count n - 1) \<le> n \<and> n < 2 ^ nat (bit_count n)"
proof (induction n rule: bit_count.induct)
  case (1 n)
  show ?case
  proof (cases "n = 1")
    case True
    then show ?thesis by (simp add: bit_count.simps)
  next
    case False
    with "1.prems" have "0 < n div 2" by linarith
    with "1.IH" "1.prems" have ih: "1 \<le> bit_count (n div 2)"
      "2 ^ nat (bit_count (n div 2) - 1) \<le> n div 2" "n div 2 < 2 ^ nat (bit_count (n div 2))"
      by auto
    have eq: "bit_count n = 1 + bit_count (n div 2)"
      using "1.prems" by (simp add: bit_count.simps [of n])
    have "nat (bit_count (n div 2)) = Suc (nat (bit_count (n div 2) - 1))"
      using ih(1) by linarith
    then have "2 ^ nat (bit_count n - 1) = (2 :: int) * 2 ^ nat (bit_count (n div 2) - 1)"
      by (simp add: eq)
    moreover have "2 ^ nat (bit_count n) = (2 :: int) * 2 ^ nat (bit_count (n div 2))"
      using ih(1) by (simp add: eq nat_add_distrib)
    ultimately show ?thesis using ih eq by linarith
  qed
qed

lemma bit_count_le:
  assumes "0 < n" "n < 2 ^ k" shows "bit_count n \<le> int k"
proof (rule ccontr)
  assume "\<not> bit_count n \<le> int k"
  then have "k \<le> nat (bit_count n - 1)" by linarith
  then have "(2 :: int) ^ k \<le> 2 ^ nat (bit_count n - 1)"
    by (rule power_increasing) simp
  with bit_count_bounds [OF assms(1)] assms(2) show False by linarith
qed

lemma floor_log2_of_int: "0 < n \<Longrightarrow> floor_log2 (of_int n) = bit_count n - 1"
proof -
  assume n: "0 < n"
  have one: "bit_count 1 = 1" by (simp add: bit_count.simps)
  have "(2 :: rat) ^ nat (bit_count n - 1) = of_int (2 ^ nat (bit_count n - 1))" by simp
  also have "\<dots> \<le> of_int n" using bit_count_bounds [OF n] by (simp only: of_int_le_iff)
  finally show ?thesis
    using bit_count_bounds [OF n] by (simp add: floor_log2_def Let_def one pow2_def)
qed

lemma round_half_even_of_int [simp]: "round_half_even (of_int i) = i"
  by (simp add: round_half_even_def)

lemma scale_of_int:
  assumes "- 52 \<le> e" "e \<le> 0"
  shows "of_int (round_half_even (of_int n / pow2 e)) * pow2 e = of_int n"
proof -
  have "of_int n / pow2 e = of_int (n * 2 ^ nat (- e))"
    using assms by (simp add: pow2_def)
  then show ?thesis using assms
    by (simp only: round_half_even_of_int) (simp add: pow2_def)
qed

lemma to_double_nat:
  assumes "0 < n" "n \<le> 2 ^ 53"
  shows "to_double (of_int n) = Fin (of_int n)"
    and "to_double (- of_int n) = Fin (- of_int n)"
proof -
  define e where "e = max (floor_log2 (of_int n) - 52) (- 1074)"
  have v: "of_int (round_half_even (of_int n / pow2 e)) * pow2 e = (of_int n :: rat)"
  proof (cases "n = 2 ^ 53")
    case True
    have "bit_count (2 ^ 53) = 54" by (simp add: bit_count.simps)
    then have "e = 1" unfolding e_def floor_log2_of_int [OF assms(1)] by (simp add: True)
    moreover have "of_int n / pow2 1 = of_int (2 ^ 52)" by (simp add: True pow2_def)
    ultimately show ?thesis by (simp only: round_half_even_of_int) (simp add: True pow2_def)
  next
    case False
    with assms have "bit_count n \<le> 53" using bit_count_le [of n 53] by simp
    with bit_count_bounds [OF assms(1)] have "- 52 \<le> e" "e \<le> 0"
      unfolding e_def floor_log2_of_int [OF assms(1)] by auto
    then show ?thesis by (rule scale_of_int)
  qed
  have big: "\<not> pow2 1024 \<le> of_int n"
  proof -
    have "(of_int n :: rat) \<le> of_int (2 ^ 53)" using assms(2) by (simp only: of_int_le_iff)
    also have "\<dots> < 2 ^ 1024" by (simp add: power_strict_increasing)
    finally show ?thesis by (simp add: pow2_def)
  qed
  show "to_double (of_int n) = Fin (of_int n)"
    using v big assms(1) by (simp add: to_double_def Let_def flip: e_def)
  show "to_double (- of_int n) = Fin (- of_int n)"
    using v big assms(1) by (simp add: to_double_def Let_def flip: e_def)
qed

lemma to_double_of_int:
  assumes "\<bar>i\<bar> \<le> 2 ^ 53"
  shows "to_double (of_int i) = num_of_int i"
proof (cases i "0 :: int" rule: linorder_cases)
  case less
  with to_double_nat(2) [of "- i"] assms show ?thesis by simp
next
  case equal
  then show ?thesis by (simp add: to_double_def)
next
  case greater
  with to_double_nat(1) [of i] assms show ?thesis by simp
qed

lemma digit_cases:
  "0 \<le> d \<Longrightarrow> d < 10 \<Longrightarrow> d \<in> {0, 1, 2, 3, 4, 5, 6, 7, 8, 9 :: int}"
  by simp arith

lemma digit_val_digit_char [simp]: "0 \<le> d \<Longrightarrow> d < 10 \<Longrightarrow> digit_val (digit_char d) = Some d"
  by (drule (1) digit_cases) (auto simp: digit_val_def digit_char_def)

lemma is_digit_digit_char [simp]: "0 \<le> d \<Longrightarrow> d < 10 \<Longrightarrow> is_digit (digit_char d)"
  by (simp add: is_digit_of_def)

lemma nat_str_digits: "0 \<le> n \<Longrightarrow> \<forall>c \<in> set (nat_str n). is_digit c"
proof (induction n rule: nat_str.induct)
  case (1 n)
  then show ?case by (cases "n < 10") (auto simp: nat_str.simps [of n])
qed

lemma digits_value_snoc:
  "digits_value b (s @ [c]) = b * digits_value b s + (case digit_val c of None \<Rightarrow> 0 | Some d \<Rightarrow> d)"
  by (simp add: digits_value_def)

lemma digits_value_nat_str: "0 \<le> n \<Longrightarrow> digits_value 10 (nat_str n) = n"
proof (induction n rule: nat_str.induct)
  case (1 n)
  show ?case
  proof (cases "n < 10")
    case True
    with "1.prems" show ?thesis by (simp add: digits_value_def)
  next
    case False
    with 1 show ?thesis by (simp add: digits_value_snoc)
  qed
qed

lemma digit_not_special:
  "is_digit c \<Longrightarrow> \<not> is_space c \<and> c \<noteq> CHR ''-'' \<and> c \<noteq> CHR ''+'' \<and> c \<noteq> CHR ''I'' \<and> c \<noteq> CHR ''x''
     \<and> c \<noteq> CHR ''X'' \<and> c \<noteq> CHR ''o'' \<and> c \<noteq> CHR ''O'' \<and> c \<noteq> CHR ''b'' \<and> c \<noteq> CHR ''B''"
  by (auto simp: is_digit_of_def digit_val_def is_space_def Let_def split: if_splits)

lemma trim_id: "(\<And>c. c \<in> set s \<Longrightarrow> \<not> is_space c) \<Longrightarrow> trim s = s"
proof -
  assume a: "\<And>c. c \<in> set s \<Longrightarrow> \<not> is_space c"
  then have "dropWhile is_space s = s" by (cases s) auto
  moreover have "dropWhile is_space (rev s) = rev s"
    using a by (cases s rule: rev_cases) auto
  ultimately show ?thesis by (simp add: trim_def)
qed

lemma parse_unsigned_digits:
  assumes "\<forall>c \<in> set s. is_digit c" "s \<noteq> []"
  shows "parse_unsigned s = Some (of_int (digits_value 10 s))"
  using assms
  by (simp add: parse_unsigned_def parse_exponent_def pow10_def Let_def
      takeWhile_eq_all_conv [THEN iffD2] dropWhile_eq_Nil_conv [THEN iffD2])

lemma parse_radix_digits:
  assumes "\<forall>c \<in> set s. is_digit c"
  shows "parse_radix s = None"
proof (cases s)
  case (Cons z t)
  show ?thesis
  proof (cases t)
    case (Cons x ds)
    with \<open>s = z # t\<close> assms have "is_digit x" by simp
    then show ?thesis
      using \<open>s = z # t\<close> Cons digit_not_special [of x] by (simp add: parse_radix_def)
  qed (simp add: \<open>s = z # t\<close> parse_radix_def)
qed (simp add: parse_radix_def)

lemma parse_radix_minus: "parse_radix (CHR ''-'' # s) = None"
  by (auto simp: parse_radix_def split: list.splits)

lemma string_to_number_nat_str:
  assumes "0 \<le> n"
  shows "string_to_number (nat_str n) = to_double (of_int n)"
    and "string_to_number (CHR ''-'' # nat_str n) = to_double (- of_int n)"
proof -
  have d: "\<forall>c \<in> set (nat_str n). is_digit c" by (rule nat_str_digits [OF assms])
  then have sp: "\<And>c. c \<in> set (nat_str n) \<Longrightarrow> \<not> is_space c" by (auto dest!: digit_not_special)
  obtain c t where ct: "nat_str n = c # t" by (cases "nat_str n") auto
  have c: "c \<noteq> CHR ''-''" "c \<noteq> CHR ''+''" "c \<noteq> CHR ''I''"
    using d ct digit_not_special [of c] by auto
  have pu: "parse_unsigned (c # t) = Some (of_int n)"
    using parse_unsigned_digits [OF d] digits_value_nat_str [OF assms] by (simp add: ct)
  have pr: "parse_radix (c # t) = None" using parse_radix_digits [OF d] by (simp add: ct)
  have tr: "trim (c # t) = c # t" "trim (CHR ''-'' # c # t) = CHR ''-'' # c # t"
    using sp by (auto simp: ct is_space_def intro!: trim_id)
  show "string_to_number (nat_str n) = to_double (of_int n)"
    using c by (simp add: string_to_number_def tr pr pu ct)
  show "string_to_number (CHR ''-'' # nat_str n) = to_double (- of_int n)"
    using c by (simp add: string_to_number_def tr parse_radix_minus pu ct)
qed

lemma string_to_number_int_str:
  assumes "\<bar>i\<bar> \<le> 2 ^ 53"
  shows "string_to_number (int_str i) = num_of_int i"
  using string_to_number_nat_str [of "\<bar>i\<bar>"] to_double_of_int [OF assms]
  by (cases "i < 0") (auto simp: int_str_def)

lemma num_to_string_int: "\<bar>i\<bar> \<le> 2 ^ 53 \<Longrightarrow> num_to_string (num_of_int i) = int_str i"
  by (simp add: num_to_string_def)

section \<open>The rounding error\<close>

lemma pow2_pos [simp]: "0 < pow2 e"
  by (simp add: pow2_def)

lemma pow2_Suc: "pow2 (e + 1) = 2 * pow2 e"
proof (cases "0 \<le> e")
  case True
  then show ?thesis by (simp add: pow2_def nat_add_distrib)
next
  case False
  then have "nat (- e) = Suc (nat (- (e + 1)))" by linarith
  with False show ?thesis by (cases "e + 1 = 0") (simp_all add: pow2_def)
qed

lemma pow2_mono: "e \<le> f \<Longrightarrow> pow2 e \<le> pow2 f"
proof (induction "nat (f - e)" arbitrary: f)
  case 0
  then show ?case by simp
next
  case (Suc n)
  then have "pow2 e \<le> pow2 (f - 1)" by simp
  also have "\<dots> \<le> pow2 f" using pow2_Suc [of "f - 1"] pow2_pos [of "f - 1"] by simp
  finally show ?case .
qed

lemma pow2_add: "0 \<le> m \<Longrightarrow> pow2 (e + m) = pow2 e * 2 ^ nat m"
proof (induction "nat m" arbitrary: m)
  case 0
  then show ?case by simp
next
  case (Suc n)
  then have m: "nat m = Suc (nat (m - 1))" by linarith
  have "pow2 (e + (m - 1)) = pow2 e * 2 ^ nat (m - 1)" using Suc by simp
  then show ?case using pow2_Suc [of "e + (m - 1)"] by (simp add: m)
qed

lemma floor_log2_le: "0 < x \<Longrightarrow> pow2 (floor_log2 x) \<le> x"
proof -
  assume x: "0 < x"
  define p q where "p = fst (quotient_of x)" and "q = snd (quotient_of x)"
  have q: "0 < q" by (simp add: q_def quotient_of_denom_pos')
  have xpq: "x = of_int p / of_int q" using quotient_of_div [of x p q] by (simp add: p_def q_def)
  with x q have p: "0 < p" by (simp add: zero_less_divide_iff)
  define k where "k = bit_count p - bit_count q"
  have bp: "1 \<le> bit_count p" "2 ^ nat (bit_count p - 1) \<le> p" using bit_count_bounds [OF p] by auto
  have bq: "1 \<le> bit_count q" "q < 2 ^ nat (bit_count q)" using bit_count_bounds [OF q] by auto
  have "pow2 (k - 1) * of_int q \<le> pow2 (k - 1) * 2 ^ nat (bit_count q)"
  proof -
    have "(of_int q :: rat) \<le> of_int (2 ^ nat (bit_count q))" using bq(2) by (simp only: of_int_le_iff less_imp_le)
    then show ?thesis by (simp add: mult_left_mono less_imp_le)
  qed
  also have "\<dots> = pow2 (bit_count p - 1)"
    using pow2_add [of "bit_count q" "k - 1"] bq(1) by (simp add: k_def algebra_simps)
  also have "\<dots> \<le> of_int p"
  proof -
    have "(of_int (2 ^ nat (bit_count p - 1)) :: rat) \<le> of_int p" using bp(2) by (simp only: of_int_le_iff)
    then show ?thesis using bp(1) by (simp add: pow2_def)
  qed
  finally have "pow2 (k - 1) \<le> x" using q by (simp add: xpq pos_le_divide_eq)
  then show ?thesis by (simp add: floor_log2_def Let_def k_def flip: p_def q_def)
qed

lemma round_half_even_error: "\<bar>of_int (round_half_even y) - y\<bar> \<le> 1 / 2"
proof -
  have f: "of_int \<lfloor>y\<rfloor> \<le> y" "y < of_int \<lfloor>y\<rfloor> + 1" by linarith+
  consider "y - of_int \<lfloor>y\<rfloor> < 1 / 2" | "1 / 2 < y - of_int \<lfloor>y\<rfloor>" | "y - of_int \<lfloor>y\<rfloor> = 1 / 2" by linarith
  then show ?thesis
  proof cases
    case 1
    then have "round_half_even y = \<lfloor>y\<rfloor>" by (simp add: round_half_even_def)
    with f 1 show ?thesis by linarith
  next
    case 2
    then have "round_half_even y = \<lfloor>y\<rfloor> + 1" by (simp add: round_half_even_def)
    with f 2 show ?thesis by simp
  next
    case 3
    then have "round_half_even y = \<lfloor>y\<rfloor> \<or> round_half_even y = \<lfloor>y\<rfloor> + 1"
      by (simp add: round_half_even_def Let_def)
    with 3 show ?thesis by auto
  qed
qed

text \<open>A number below \<open>2 ^ (n + 1)\<close> is at most \<open>2 ^ (n - 53)\<close> from the double that represents it.\<close>

lemma to_double_error:
  assumes "\<bar>x\<bar> < pow2 (n + 1)" "- 1000 \<le> n" "n < 1000"
  shows "\<exists>v. to_double x = Fin v \<and> \<bar>v - x\<bar> \<le> pow2 (n - 53)"
proof (cases "x = 0")
  case True
  then show ?thesis using pow2_pos [of "n - 53"] by (simp add: to_double_def less_imp_le)
next
  case False
  define a where "a = \<bar>x\<bar>"
  define e where "e = max (floor_log2 a - 52) (- 1074)"
  define v where "v = of_int (round_half_even (a / pow2 e)) * pow2 e"
  have a: "0 < a" "a < pow2 (n + 1)" using False assms(1) by (simp_all add: a_def)
  have "floor_log2 a \<le> n"
  proof (rule ccontr)
    assume "\<not> floor_log2 a \<le> n"
    then have "pow2 (n + 1) \<le> pow2 (floor_log2 a)" by (intro pow2_mono) simp
    with floor_log2_le [OF a(1)] a(2) show False by linarith
  qed
  then have e: "e \<le> n - 52" using assms(2) by (simp add: e_def)
  have "v - a = (of_int (round_half_even (a / pow2 e)) - a / pow2 e) * pow2 e"
    using less_imp_neq [OF pow2_pos [of e]] by (simp add: v_def left_diff_distrib)
  then have "\<bar>v - a\<bar> = \<bar>of_int (round_half_even (a / pow2 e)) - a / pow2 e\<bar> * pow2 e"
    using less_imp_le [OF pow2_pos [of e]] by (simp only: abs_mult abs_of_nonneg)
  also have "\<dots> \<le> 1 / 2 * pow2 e"
    by (rule mult_right_mono [OF round_half_even_error]) (simp add: less_imp_le)
  also have "\<dots> \<le> 1 / 2 * pow2 (n - 52)" using pow2_mono [OF e] by simp
  also have "\<dots> = pow2 (n - 53)" using pow2_Suc [of "n - 53"] by simp
  finally have err: "\<bar>v - a\<bar> \<le> pow2 (n - 53)" .
  have "v < pow2 1024"
  proof -
    have "v \<le> a + pow2 (n - 53)" using err by linarith
    also have "\<dots> < pow2 (n + 1) + pow2 (n + 1)" using a(2) pow2_mono [of "n - 53" "n + 1"] by simp
    also have "\<dots> = pow2 (n + 2)" using pow2_Suc [of "n + 1"] by (simp add: add.commute)
    also have "\<dots> \<le> pow2 1024" using assms(3) by (intro pow2_mono) simp
    finally show ?thesis .
  qed
  then have "to_double x = Fin (if x < 0 then - v else v)"
    using False by (simp add: to_double_def Let_def flip: a_def e_def v_def)
  moreover have "\<bar>(if x < 0 then - v else v) - x\<bar> = \<bar>v - a\<bar>" by (simp add: a_def) linarith
  ultimately show ?thesis using err by auto
qed

end
