(* ===== verification/Validation.thy ===== *)
theory Validation
  imports Js_Values
begin

text \<open>
  \<^verbatim>\<open>bff/src/validation.ts\<close> and the body check of \<^verbatim>\<open>bff/src/routes/services.ts\<close>: untrusted request
  bodies in, typed values or the list of human-readable errors out. A body that is
  \<^verbatim>\<open>null\<close> or \<^verbatim>\<open>undefined\<close> makes the first property access throw.
\<close>

section \<open>Data\<close>

record limit_key =
  service_name :: string
  customer_id :: string
  rate_limit_id :: string

record ValidatedLimit = limit_key +
  limit_value :: jsnum
  time_unit :: string

record ServiceView =
  svc_name :: string
  display_name :: string
  owner :: string

datatype 'a validated = Valid 'a | Invalid "string list"

definition TIME_UNITS :: "string list" where
  "TIME_UNITS = [''MINUTE'', ''DAY'', ''MONTH'']"

section \<open>Checks\<close>

definition isNonEmptyString :: "jsv \<Rightarrow> bool" where
  "isNonEmptyString x = (case x of JStr s \<Rightarrow> s \<noteq> [] | _ \<Rightarrow> False)"

definition as_string :: "jsv \<Rightarrow> string" where
  \<comment> \<open>\<^verbatim>\<open>x as string\<close> after the check above\<close>
  "as_string x = (case x of JStr s \<Rightarrow> s | _ \<Rightarrow> [])"

definition coerce_number :: "jsv \<Rightarrow> jsv" where
  \<comment> \<open>\<^verbatim>\<open>typeof x === "string" && x.trim() !== "" ? Number(x) : x\<close>\<close>
  "coerce_number x =
     (case x of JStr s \<Rightarrow> if trim s \<noteq> [] then JNum (string_to_number s) else x | _ \<Rightarrow> x)"

definition require :: "bool \<Rightarrow> string \<Rightarrow> string list" where
  \<comment> \<open>\<^verbatim>\<open>if (!c) errors.push(msg)\<close>\<close>
  "require c msg = (if c then [] else [msg])"

definition limit_value_errors :: "jsv \<Rightarrow> string list" where
  "limit_value_errors x =
     (case x of
        JNum n \<Rightarrow>
          if \<not> num_isFinite n then [''limit_value must be a number'']
          else if \<not> num_isInteger n then [''limit_value must be an integer'']
          else if num_less n (Fin 0) then [''limit_value must be >= 0'']
          else []
      | _ \<Rightarrow> [''limit_value must be a number''])"

definition as_number :: "jsv \<Rightarrow> jsnum" where
  "as_number x = (case x of JNum n \<Rightarrow> n | _ \<Rightarrow> NaN)"

definition validateLimit :: "jsv \<Rightarrow> ValidatedLimit validated js" where
  "validateLimit body =
     then_do (get_prop body ''service_name'') (\<lambda>sn.
     then_do (get_prop body ''customer_id'') (\<lambda>ci.
     then_do (get_prop body ''rate_limit_id'') (\<lambda>ri.
     then_do (get_prop body ''limit_value'') (\<lambda>lv.
     then_do (get_prop body ''time_unit'') (\<lambda>tu.
       let limitValue = coerce_number lv;
           errors =
             require (isNonEmptyString sn) ''service_name is required''
             @ require (isNonEmptyString ci) ''customer_id is required ('*' for the default)''
             @ require (isNonEmptyString ri) ''rate_limit_id is required''
             @ limit_value_errors limitValue
             @ require (tu \<in> set (map JStr TIME_UNITS)) ''time_unit must be one of MINUTE, DAY, MONTH''
       in if errors \<noteq> [] then Inr (Invalid errors)
          else Inr (Valid \<lparr>service_name = as_string sn, customer_id = as_string ci,
                            rate_limit_id = as_string ri, limit_value = as_number limitValue,
                            time_unit = as_string tu\<rparr>))))))"

definition validateKey :: "jsv \<Rightarrow> limit_key validated js" where
  "validateKey body =
     then_do (get_prop body ''service_name'') (\<lambda>sn.
     then_do (get_prop body ''customer_id'') (\<lambda>ci.
     then_do (get_prop body ''rate_limit_id'') (\<lambda>ri.
       let errors =
             require (isNonEmptyString sn) ''service_name is required''
             @ require (isNonEmptyString ci) ''customer_id is required''
             @ require (isNonEmptyString ri) ''rate_limit_id is required''
       in if errors \<noteq> [] then Inr (Invalid errors)
          else Inr (Valid \<lparr>service_name = as_string sn, customer_id = as_string ci,
                            rate_limit_id = as_string ri\<rparr>))))"

definition AMOUNT_CAP :: jsnum where
  "AMOUNT_CAP = Fin 1000000000"

definition validateAmount :: "jsv \<Rightarrow> jsnum \<Rightarrow> string + jsnum" where
  "validateAmount raw cap =
     (case coerce_number raw of
        JNum n \<Rightarrow>
          if \<not> num_isFinite n \<or> \<not> num_isInteger n then Inl ''amount must be an integer''
          else if num_le n (Fin 0) then Inl ''amount must be > 0''
          else if num_less cap n then Inl (''amount exceeds cap ('' @ num_to_string cap @ '')'')
          else Inr n
      | _ \<Rightarrow> Inl ''amount must be an integer'')"

definition validateServiceBody :: "jsv \<Rightarrow> ServiceView validated js" where
  "validateServiceBody body =
     then_do (get_prop body ''service_name'') (\<lambda>sn.
     then_do (get_prop body ''display_name'') (\<lambda>dn.
     then_do (get_prop body ''owner'') (\<lambda>ow.
       let errors =
             require (as_string sn \<noteq> []) ''service_name is required''
             @ require (as_string dn \<noteq> []) ''display_name is required''
             @ require (as_string ow \<noteq> []) ''owner is required''
       in if errors \<noteq> [] then Inr (Invalid errors)
          else Inr (Valid \<lparr>svc_name = as_string sn, display_name = as_string dn,
                            owner = as_string ow\<rparr>))))"

section \<open>What passes\<close>

lemma require_Nil [simp]: "require c m = [] \<longleftrightarrow> c"
  by (simp add: require_def)

lemma isNonEmptyString_iff: "isNonEmptyString x \<longleftrightarrow> (\<exists>s. x = JStr s \<and> s \<noteq> [])"
  by (cases x) (auto simp: isNonEmptyString_def)

lemma as_string_JStr [simp, js_simps]: "as_string (JStr s) = s"
  by (simp add: as_string_def)

lemma as_string_nonempty: "as_string x \<noteq> [] \<longleftrightarrow> isNonEmptyString x"
  by (cases x) (auto simp: as_string_def isNonEmptyString_def)

lemma limit_value_errors_Nil:
  "limit_value_errors x = [] \<longleftrightarrow> (\<exists>i \<ge> 0. x = JNum (num_of_int i))"
  by (cases x) (auto simp: limit_value_errors_def num_isInteger_iff num_isInteger_isFinite)

lemma coerce_number_eval [simp, js_simps]:
  "coerce_number (JNum n) = JNum n"
  by (simp add: coerce_number_def)

lemma coerce_number_int_str:
  assumes "\<bar>i\<bar> \<le> 2 ^ 53"
  shows "coerce_number (JStr (int_str i)) = JNum (num_of_int i)"
proof -
  obtain c t where "nat_str \<bar>i\<bar> = c # t" by (cases "nat_str \<bar>i\<bar>") auto
  moreover have "\<And>x. x \<in> set (nat_str \<bar>i\<bar>) \<Longrightarrow> \<not> is_space x"
    using nat_str_digits [of "\<bar>i\<bar>"] by (auto dest!: digit_not_special)
  ultimately have "trim (int_str i) = int_str i"
    by (intro trim_id) (auto simp: int_str_def is_space_def split: if_splits)
  then show ?thesis
    using assms by (simp add: coerce_number_def string_to_number_int_str) (simp add: int_str_def)
qed

lemmas validate_unfold = get_prop_Inr then_do_eq_Inr Let_def

text \<open>
  C32. A limit body passes exactly when every field is a string that is not empty, the limit is an
  integer that is not negative (a number, or text that denotes one) and the unit is one of the
  three; the value returned carries exactly those fields.
\<close>

theorem validateLimit_valid_iff:
  "validateLimit body = Inr (Valid v) \<longleftrightarrow>
     \<not> nullish body
     \<and> prop_opt body ''service_name'' = JStr (service_name v) \<and> service_name v \<noteq> []
     \<and> prop_opt body ''customer_id'' = JStr (customer_id v) \<and> customer_id v \<noteq> []
     \<and> prop_opt body ''rate_limit_id'' = JStr (rate_limit_id v) \<and> rate_limit_id v \<noteq> []
     \<and> (\<exists>i \<ge> 0. coerce_number (prop_opt body ''limit_value'') = JNum (num_of_int i)
                 \<and> limit_value v = num_of_int i)
     \<and> prop_opt body ''time_unit'' = JStr (time_unit v) \<and> time_unit v \<in> set TIME_UNITS"
  (is "?l \<longleftrightarrow> ?r")
proof
  assume ?l
  then show ?r
    by (auto simp: validateLimit_def validate_unfold isNonEmptyString_iff limit_value_errors_Nil
        as_number_def split: if_splits)
next
  assume ?r
  then show ?l
    by (cases v) (auto simp: validateLimit_def validate_unfold isNonEmptyString_iff
        limit_value_errors_Nil as_number_def)
qed

text \<open>
  A key passes exactly when its three fields are strings that are not empty, and the value
  returned has exactly those fields.
\<close>

theorem validateKey_valid_iff:
  "validateKey body = Inr (Valid k) \<longleftrightarrow>
     \<not> nullish body
     \<and> prop_opt body ''service_name'' = JStr (service_name k) \<and> service_name k \<noteq> []
     \<and> prop_opt body ''customer_id'' = JStr (customer_id k) \<and> customer_id k \<noteq> []
     \<and> prop_opt body ''rate_limit_id'' = JStr (rate_limit_id k) \<and> rate_limit_id k \<noteq> []"
  (is "?l \<longleftrightarrow> ?r")
proof
  assume ?l
  then show ?r
    by (auto simp: validateKey_def validate_unfold isNonEmptyString_iff split: if_splits)
next
  assume ?r
  then show ?l
    by (cases k) (auto simp: validateKey_def validate_unfold isNonEmptyString_iff)
qed

text \<open>
  A service passes exactly when its name, display name and owner are strings that are not
  empty, and the value returned has exactly those fields.
\<close>

theorem validateServiceBody_valid_iff:
  "validateServiceBody body = Inr (Valid v) \<longleftrightarrow>
     \<not> nullish body
     \<and> prop_opt body ''service_name'' = JStr (svc_name v) \<and> svc_name v \<noteq> []
     \<and> prop_opt body ''display_name'' = JStr (display_name v) \<and> display_name v \<noteq> []
     \<and> prop_opt body ''owner'' = JStr (owner v) \<and> owner v \<noteq> []"
  (is "?l \<longleftrightarrow> ?r")
proof
  assume ?l
  then show ?r
    by (auto simp: validateServiceBody_def validate_unfold as_string_nonempty isNonEmptyString_iff
        split: if_splits)
next
  assume ?r
  then show ?l
    by (cases v) (auto simp: validateServiceBody_def validate_unfold)
qed

text \<open>
  C33. An amount passes exactly when it is, or is text that denotes, a positive integer that does not
  exceed the cap.
\<close>

theorem validateAmount_valid_iff:
  "validateAmount raw cap = Inr n \<longleftrightarrow>
     (\<exists>i > 0. n = num_of_int i \<and> coerce_number raw = JNum n \<and> \<not> num_less cap n)"
  by (cases "coerce_number raw")
     (auto simp: validateAmount_def num_isInteger_iff num_isInteger_isFinite split: if_splits)

end
