(* ===== verification/Struct_Codec.thy ===== *)
theory Struct_Codec
  imports Js_Values
begin

text \<open>
  \<^verbatim>\<open>bff/src/struct.ts\<close>: between plain objects and the wire form of \<^verbatim>\<open>google.protobuf.Struct\<close>. The
  functions work on untyped values, as in the source: \<^verbatim>\<open>valueToJs\<close> reads the \<^verbatim>\<open>kind\<close> property
  the protobuf loader adds to a received message, \<^verbatim>\<open>jsToValue\<close> builds a message to send, which
  has no such property yet. The round trip therefore goes through a delivery, described by the
  relation \<open>delivered\<close>.
\<close>

section \<open>Objects\<close>

text \<open>\<^verbatim>\<open>Object.entries(x)\<close>: the own properties; the indices of an array or a string.\<close>

definition object_entries :: "jsv \<Rightarrow> (string \<times> jsv) list" where
  "object_entries x =
     (case x of
        JObj ob \<Rightarrow> ob
      | JArr xs \<Rightarrow> zip (map (nat_str \<circ> int) [0..<length xs]) xs
      | JStr s \<Rightarrow> zip (map (nat_str \<circ> int) [0..<length s]) (map (\<lambda>c. JStr [c]) s)
      | _ \<Rightarrow> [])"

text \<open>
  \<^verbatim>\<open>out[k] = v\<close> on a plain object: assigning to \<^verbatim>\<open>__proto__\<close> changes the prototype and adds no
  property.
\<close>

definition assign :: "string \<Rightarrow> jsv \<Rightarrow> (string \<times> jsv) list \<Rightarrow> (string \<times> jsv) list" where
  "assign k v out = (if k = ''__proto__'' then out else AList.update k v out)"

definition assign_all :: "(string \<times> jsv) list \<Rightarrow> (string \<times> jsv) list" where
  "assign_all kvs = fold (\<lambda>(k, v). assign k v) kvs []"

lemma size_own [termination_simp]: "size (own ob k) < size (JObj ob)"
  by (induction ob) (auto simp: own_def)

lemma size_prop_opt: "size (prop_opt x k) \<le> size x"
  using size_own by (cases x) (auto simp: prop_opt_def intro: less_imp_le)

lemma size_entries: "(k, v) \<in> set (object_entries x) \<Longrightarrow> size v \<le> size x"
proof (cases x)
  case (JArr xs)
  assume "(k, v) \<in> set (object_entries x)"
  with JArr have "v \<in> set xs" by (auto simp: object_entries_def dest: set_zip_rightD)
  then have "size v < size (JArr xs)" by (induction xs) auto
  with JArr show ?thesis by simp
next
  case (JObj ob)
  assume "(k, v) \<in> set (object_entries x)"
  with JObj have "(k, v) \<in> set ob" by (simp add: object_entries_def)
  then have "size v < size (JObj ob)" by (induction ob) auto
  with JObj show ?thesis by simp
next
  case (JStr s)
  assume "(k, v) \<in> set (object_entries x)"
  then have "v \<in> set (map (\<lambda>c. JStr [c]) s)"
    unfolding object_entries_def JStr jsv.case by (rule set_zip_rightD)
  with JStr show ?thesis by auto
qed (auto simp: object_entries_def)

section \<open>Decoding\<close>

definition list_values :: "jsv \<Rightarrow> jsv list js" where
  \<comment> \<open>\<^verbatim>\<open>v.listValue?.values ?? []\<close>, and that it is an array to map over\<close>
  "list_values v =
     (case prop_opt v ''listValue'' of
        JArr _ \<Rightarrow> Inl (OtherError ''map is not a function'')
      | lv \<Rightarrow>
          (case or_default (prop_opt lv ''values'') (JArr []) of
             JArr xs \<Rightarrow> Inr xs
           | _ \<Rightarrow> Inl (OtherError ''map is not a function'')))"

lemma size_list_values:
  assumes "list_values v = Inr xs" "x \<in> set xs" shows "size x < size v"
proof -
  have "prop_opt (prop_opt v ''listValue'') ''values'' = JArr xs"
    using assms by (auto simp: list_values_def or_default_def split: jsv.splits if_splits)
  then have "size (JArr xs) \<le> size v"
    using size_prop_opt [of "prop_opt v ''listValue''" "''values''"]
      size_prop_opt [of v "''listValue''"] by simp
  moreover have "size x < size (JArr xs)" using assms(2) by (induction xs) auto
  ultimately show ?thesis by linarith
qed

function valueToJs :: "jsv \<Rightarrow> jsv js" and structToObject :: "jsv \<Rightarrow> jsv js" where
  "valueToJs v =
     (if nullish v then Inr JNull
      else if prop_opt v ''kind'' = JStr ''nullValue'' then Inr JNull
      else if prop_opt v ''kind'' = JStr ''numberValue'' then Inr (prop_opt v ''numberValue'')
      else if prop_opt v ''kind'' = JStr ''stringValue'' then Inr (prop_opt v ''stringValue'')
      else if prop_opt v ''kind'' = JStr ''boolValue'' then Inr (prop_opt v ''boolValue'')
      else if prop_opt v ''kind'' = JStr ''structValue'' then structToObject (prop_opt v ''structValue'')
      else if prop_opt v ''kind'' = JStr ''listValue''
      then (case list_values v of
              Inl e \<Rightarrow> Inl e
            | Inr xs \<Rightarrow> then_do (map_throw valueToJs xs) (\<lambda>ys. Inr (JArr ys)))
      else Inr JNull)"
| "structToObject s =
     (if nullish s then Inr JNull
      else if \<not> truthy (prop_opt s ''fields'') then Inr (JObj [])
      else then_do (map_throw (\<lambda>(k, v). then_do (valueToJs v) (\<lambda>w. Inr (k, w)))
                      (object_entries (prop_opt s ''fields'')))
             (\<lambda>kws. Inr (JObj (assign_all kws))))"
  by pat_completeness auto

termination
proof (relation "measure (\<lambda>x. case x of Inl v \<Rightarrow> size v | Inr s \<Rightarrow> size s)", goal_cases)
  case (2 v)
  then obtain ob where "v = JObj ob" by (cases v) (auto simp: prop_opt_def)
  with size_own [of ob "''structValue''"] show ?case by simp
next
  case (3 v xs x)
  then show ?case using size_list_values by simp
next
  case (4 s kv k v)
  then obtain ob where "s = JObj ob" by (cases s) (auto simp: prop_opt_def)
  with 4 size_entries [of k v "own ob ''fields''"] size_own [of ob "''fields''"] show ?case
    by auto
qed simp

declare valueToJs.simps [simp del] structToObject.simps [simp del]

section \<open>Encoding\<close>

definition null_value :: jsv where
  "null_value = JObj [(''nullValue'', JStr ''NULL_VALUE'')]"

fun jsToValue :: "jsv \<Rightarrow> jsv" where
  "jsToValue JUndefined = null_value"
| "jsToValue JNull = null_value"
| "jsToValue (JNum n) = JObj [(''numberValue'', JNum n)]"
| "jsToValue (JBool b) = JObj [(''boolValue'', JBool b)]"
| "jsToValue (JStr s) = JObj [(''stringValue'', JStr s)]"
| "jsToValue (JArr xs) = JObj [(''listValue'', JObj [(''values'', JArr (map jsToValue xs))])]"
| "jsToValue (JObj ob) =
     JObj [(''structValue'', JObj [(''fields'', JObj (assign_all (map (\<lambda>(k, v). (k, jsToValue v)) ob)))])]"

definition objectToStruct :: "(string \<times> jsv) list \<Rightarrow> jsv" where
  "objectToStruct ob = JObj [(''fields'', JObj (assign_all (map (\<lambda>(k, v). (k, jsToValue v)) ob)))]"

lemma jsToValue_JObj: "jsToValue (JObj ob) = JObj [(''structValue'', objectToStruct ob)]"
  by (simp add: objectToStruct_def)

section \<open>Delivery\<close>

text \<open>
  What a receiver sees of a message that was sent: every value message gains the property
  \<^verbatim>\<open>kind\<close> that names the field that is set; the contents are delivered in turn. Entries of a map
  field keep their order.
\<close>

inductive delivered :: "jsv \<Rightarrow> jsv \<Rightarrow> bool" and delivered_struct :: "jsv \<Rightarrow> jsv \<Rightarrow> bool" where
  scalar: "f \<in> {''nullValue'', ''numberValue'', ''stringValue'', ''boolValue''} \<Longrightarrow>
     delivered (JObj [(f, x)]) (JObj [(f, x), (''kind'', JStr f)])"
| lists: "list_all2 delivered xs ys \<Longrightarrow>
     delivered (JObj [(''listValue'', JObj [(''values'', JArr xs)])])
       (JObj [(''listValue'', JObj [(''values'', JArr ys)]), (''kind'', JStr ''listValue'')])"
| struct: "delivered_struct s t \<Longrightarrow>
     delivered (JObj [(''structValue'', s)]) (JObj [(''structValue'', t), (''kind'', JStr ''structValue'')])"
| fields: "list_all2 (\<lambda>p q. fst p = fst q \<and> delivered (snd p) (snd q)) fs gs \<Longrightarrow>
     delivered_struct (JObj [(''fields'', JObj fs)]) (JObj [(''fields'', JObj gs)])"
  monos list_all2_mono

inductive_cases delivered_null: "delivered null_value y"
inductive_cases delivered_number: "delivered (JObj [(''numberValue'', x)]) y"
inductive_cases delivered_bool: "delivered (JObj [(''boolValue'', x)]) y"
inductive_cases delivered_string: "delivered (JObj [(''stringValue'', x)]) y"
inductive_cases delivered_list: "delivered (JObj [(''listValue'', x)]) y"
inductive_cases delivered_structValue: "delivered (JObj [(''structValue'', x)]) y"
inductive_cases delivered_fields: "delivered_struct (JObj [(''fields'', JObj fs)]) y"

section \<open>Round trip\<close>

text \<open>
  The values a JSON document denotes, with no property called \<^verbatim>\<open>__proto__\<close>: what decoding can
  give back. (An \<^verbatim>\<open>undefined\<close> would come back as \<^verbatim>\<open>null\<close>.)
\<close>

fun proper :: "jsv \<Rightarrow> bool" where
  "proper JUndefined = False"
| "proper (JArr xs) = (\<forall>x \<in> set xs. proper x)"
| "proper (JObj ob) =
     (distinct (map fst ob) \<and> ''__proto__'' \<notin> fst ` set ob \<and> (\<forall>p \<in> set ob. proper (snd p)))"
| "proper _ = True"

lemma fold_assign:
  "distinct (map fst kvs) \<Longrightarrow> ''__proto__'' \<notin> fst ` set kvs \<Longrightarrow> fst ` set kvs \<inter> fst ` set out = {} \<Longrightarrow>
     fold (\<lambda>(k, v). assign k v) kvs out = out @ kvs"
proof (induction kvs arbitrary: out)
  case (Cons kv kvs)
  obtain k v where kv: "kv = (k, v)" by force
  with Cons.prems have "map_get out k = None" by (auto simp: map_of_eq_None_iff)
  with Cons.prems kv have "assign k v out = out @ [(k, v)]"
    by (auto simp: assign_def map_set_fresh)
  with Cons kv show ?case by auto
qed simp

lemma assign_all_id [simp]:
  "distinct (map fst kvs) \<Longrightarrow> ''__proto__'' \<notin> fst ` set kvs \<Longrightarrow> assign_all kvs = kvs"
  by (simp add: assign_all_def fold_assign)

lemma map_throw_list_all2:
  "list_all2 (\<lambda>x y. f y = Inr x) xs ys \<Longrightarrow> map_throw f ys = Inr xs"
  by (induction rule: list_all2_induct) auto

lemma structToObject_fields:
  assumes "list_all2 (\<lambda>p q. fst p = fst q \<and> valueToJs (snd q) = Inr (snd p)) ob gs"
    and "distinct (map fst ob)" "''__proto__'' \<notin> fst ` set ob"
  shows "structToObject (JObj [(''fields'', JObj gs)]) = Inr (JObj ob)"
proof -
  have "list_all2 (\<lambda>p q. (case q of (k, v) \<Rightarrow> then_do (valueToJs v) (\<lambda>w. Inr (k, w))) = Inr p) ob gs"
    using assms(1) by (rule list_all2_mono) auto
  from map_throw_list_all2 [OF this] assms(2,3) show ?thesis
    by (simp add: structToObject.simps nullish_def object_entries_def)
qed

lemma valueToJs_delivered:
  "proper x \<Longrightarrow> delivered (jsToValue x) y \<Longrightarrow> valueToJs y = Inr x"
proof (induction x arbitrary: y rule: jsToValue.induct)
  case (6 xs)
  from "6.prems"(2) obtain ys where y:
    "y = JObj [(''listValue'', JObj [(''values'', JArr ys)]), (''kind'', JStr ''listValue'')]"
    "list_all2 delivered (map jsToValue xs) ys"
    by (auto elim!: delivered_list)
  have "list_all2 (\<lambda>x y. valueToJs y = Inr x) xs ys"
    using y(2) [unfolded list_all2_map1]
    by (rule list.rel_mono_strong) (use "6.IH" "6.prems"(1) in auto)
  from map_throw_list_all2 [OF this] show ?case
    unfolding y(1) by (subst valueToJs.simps) (simp add: list_values_def or_default_def nullish_def)
next
  case (7 ob)
  from "7.prems"(1) have keys: "distinct (map fst ob)" "''__proto__'' \<notin> fst ` set ob" by auto
  then have "assign_all (map (\<lambda>(k, v). (k, jsToValue v)) ob) = map (\<lambda>(k, v). (k, jsToValue v)) ob"
    by (intro assign_all_id) (simp_all add: comp_def case_prod_unfold image_image)
  with "7.prems"(2) obtain gs where y:
    "y = JObj [(''structValue'', JObj [(''fields'', JObj gs)]), (''kind'', JStr ''structValue'')]"
    "list_all2 (\<lambda>p q. fst p = fst q \<and> delivered (snd p) (snd q)) (map (\<lambda>(k, v). (k, jsToValue v)) ob) gs"
    by (auto elim!: delivered_structValue delivered_fields)
  have "list_all2 (\<lambda>p q. fst p = fst q \<and> valueToJs (snd q) = Inr (snd p)) ob gs"
    using y(2) [unfolded list_all2_map1]
    by (rule list.rel_mono_strong) (use "7.IH" "7.prems"(1) in auto)
  from structToObject_fields [OF this keys] show ?case
    unfolding y(1) by (subst valueToJs.simps) (simp add: nullish_def)
qed (auto simp: valueToJs.simps nullish_def null_value_def
     elim!: delivered_number delivered_bool delivered_string delivered_null [unfolded null_value_def])

section \<open>Property\<close>

text \<open>
  C23. An audit row survives the wire: encoding a JSON object as a Struct, delivering it and decoding
  it gives the object back.
\<close>

theorem struct_round_trip:
  assumes "proper (JObj ob)" and "delivered_struct (objectToStruct ob) y"
  shows "structToObject y = Inr (JObj ob)"
proof -
  have "delivered (jsToValue (JObj ob)) (JObj [(''structValue'', y), (''kind'', JStr ''structValue'')])"
    unfolding jsToValue_JObj using assms(2) by (rule delivered_delivered_struct.struct)
  from valueToJs_delivered [OF assms(1) this] show ?thesis
    by (simp add: valueToJs.simps nullish_def)
qed

theorem struct_round_trip_witness:
  "structToObject (JObj [(''fields'', JObj [(''limit_value'', JObj [(''numberValue'', JNum (Fin 5)), (''kind'', JStr ''numberValue'')])])])
     = Inr (JObj [(''limit_value'', JNum (Fin 5))])"
proof (rule struct_round_trip)
  show "proper (JObj [(''limit_value'', JNum (Fin 5))])" by simp
  have "delivered (JObj [(''numberValue'', JNum (Fin 5))]) (JObj [(''numberValue'', JNum (Fin 5)), (''kind'', JStr ''numberValue'')])"
    by (rule delivered_delivered_struct.scalar) simp
  then show "delivered_struct (objectToStruct [(''limit_value'', JNum (Fin 5))])
      (JObj [(''fields'', JObj [(''limit_value'', JObj [(''numberValue'', JNum (Fin 5)), (''kind'', JStr ''numberValue'')])])])"
    by (simp add: objectToStruct_def) (rule delivered_delivered_struct.fields, simp)
qed

end
