(* ===== verification/Js_Date.thy ===== *)
theory Js_Date
  imports Js_Values
begin

text \<open>
  The time values of JavaScript: milliseconds since 1970-01-01 UTC, their calendar fields, and
  the text \<^verbatim>\<open>toISOString\<close> prints. The calendar is ECMAScript's: \<open>day_from_year\<close> is the day
  number of January 1st, and the year of a day is the one whose days contain it.
\<close>

section \<open>Calendar fields\<close>

definition MS_PER_DAY :: int where
  "MS_PER_DAY = 86400000"

definition day_of :: "int \<Rightarrow> int" where
  "day_of t = t div MS_PER_DAY"

definition time_in_day :: "int \<Rightarrow> int" where
  "time_in_day t = t mod MS_PER_DAY"

definition day_from_year :: "int \<Rightarrow> int" where
  "day_from_year y =
     365 * (y - 1970) + (y - 1969) div 4 - (y - 1901) div 100 + (y - 1601) div 400"

definition leap :: "int \<Rightarrow> bool" where
  "leap y \<longleftrightarrow> y mod 4 = 0 \<and> (y mod 100 \<noteq> 0 \<or> y mod 400 = 0)"

definition year_of_day :: "int \<Rightarrow> int" where
  "year_of_day d =
     (let y = d * 400 div 146097 + 1970
      in if d < day_from_year y then y - 1
         else if day_from_year (y + 1) \<le> d then y + 1 else y)"

definition month_start :: "bool \<Rightarrow> nat \<Rightarrow> int" where
  "month_start lp m =
     (if lp then [0, 31, 60, 91, 121, 152, 182, 213, 244, 274, 305, 335, 366] ! m
      else [0, 31, 59, 90, 120, 151, 181, 212, 243, 273, 304, 334, 365] ! m)"

definition month_of_yday :: "bool \<Rightarrow> int \<Rightarrow> nat" where
  "month_of_yday lp n = length (filter (\<lambda>m. month_start lp m \<le> n) [1..<12])"

definition utc_year :: "int \<Rightarrow> int" where
  "utc_year t = year_of_day (day_of t)"

definition utc_yday :: "int \<Rightarrow> int" where
  "utc_yday t = day_of t - day_from_year (utc_year t)"

text \<open>As in JavaScript, months count from 0 and days of the month from 1.\<close>

definition utc_month :: "int \<Rightarrow> int" where
  "utc_month t = int (month_of_yday (leap (utc_year t)) (utc_yday t))"

definition utc_date :: "int \<Rightarrow> int" where
  "utc_date t =
     utc_yday t
     - month_start (leap (utc_year t)) (month_of_yday (leap (utc_year t)) (utc_yday t)) + 1"

definition utc_hours :: "int \<Rightarrow> int" where
  "utc_hours t = time_in_day t div 3600000"

definition utc_minutes :: "int \<Rightarrow> int" where
  "utc_minutes t = time_in_day t div 60000 mod 60"

definition utc_seconds :: "int \<Rightarrow> int" where
  "utc_seconds t = time_in_day t div 1000 mod 60"

definition utc_ms :: "int \<Rightarrow> int" where
  "utc_ms t = time_in_day t mod 1000"

section \<open>Text\<close>

definition padStart :: "nat \<Rightarrow> string \<Rightarrow> string" where
  \<comment> \<open>\<^verbatim>\<open>s.padStart(len, "0")\<close>\<close>
  "padStart len s = replicate (len - length s) (CHR ''0'') @ s"

definition pad_nat :: "nat \<Rightarrow> int \<Rightarrow> string" where
  "pad_nat len n = padStart len (nat_str n)"

definition iso_year :: "int \<Rightarrow> string" where
  "iso_year y =
     (if 0 \<le> y \<and> y \<le> 9999 then pad_nat 4 y
      else (if y < 0 then ''-'' else ''+'') @ pad_nat 6 \<bar>y\<bar>)"

definition iso_of_ms :: "int \<Rightarrow> string" where
  "iso_of_ms t =
     iso_year (utc_year t) @ ''-'' @ pad_nat 2 (utc_month t + 1) @ ''-'' @ pad_nat 2 (utc_date t)
     @ ''T'' @ pad_nat 2 (utc_hours t) @ '':'' @ pad_nat 2 (utc_minutes t) @ '':''
     @ pad_nat 2 (utc_seconds t) @ ''.'' @ pad_nat 3 (utc_ms t) @ ''Z''"

definition MAX_TIME :: int where
  "MAX_TIME = 8640000000000000"

definition toISOString :: "int \<Rightarrow> string js" where
  \<comment> \<open>\<^verbatim>\<open>new Date(t).toISOString()\<close>, which throws outside the range of time values\<close>
  "toISOString t = (if \<bar>t\<bar> \<le> MAX_TIME then Inr (iso_of_ms t) else Inl (OtherError ''Invalid time value''))"

section \<open>The calendar is right\<close>

lemma div_shift:
  assumes "0 < (k :: int)" "b = a + 1" "b = y + k * c"
  shows "b div k = a div k + (if y mod k = 0 then 1 else 0)"
proof -
  have "(a + 1) mod k = y mod k" using assms(2,3) by (metis mod_mult_self2)
  with div_succ [OF assms(1), of a] show ?thesis by (simp only: assms(2))
qed

lemma leap_count:
  assumes "a' = a + (if P then 1 else 0)" "b' = b + (if Q then 1 else 0)"
    "c' = c + (if R then 1 else (0 :: int))" "R \<Longrightarrow> Q" "Q \<Longrightarrow> P"
  shows "365 * (z + 1) + a' - b' + c' =
    365 * z + a - b + c + (if P \<and> (\<not> Q \<or> R) then 366 else 365)"
  using assms by (cases P; cases Q; cases R; simp)

lemma day_from_year_step:
  "day_from_year (y + 1) = day_from_year y + (if leap y then 366 else 365)"
proof -
  have d: "(y + 1 - 1969) div 4 = (y - 1969) div 4 + (if y mod 4 = 0 then 1 else 0)"
    "(y + 1 - 1901) div 100 = (y - 1901) div 100 + (if y mod 100 = 0 then 1 else 0)"
    "(y + 1 - 1601) div 400 = (y - 1601) div 400 + (if y mod 400 = 0 then 1 else 0)"
    by (rule div_shift [where c = "- 492"] div_shift [where c = "- 19"] div_shift [where c = "- 4"];
        simp)+
  have m: "y mod 400 mod 100 = y mod 100" "y mod 100 mod 4 = y mod 4"
    by (rule mod_mod_cancel, simp)+
  have "y mod 400 = 0 \<Longrightarrow> y mod 100 = 0" "y mod 100 = 0 \<Longrightarrow> y mod 4 = 0"
    using m by (metis mod_0)+
  from leap_count [OF d this, of "y - 1970"] show ?thesis
    unfolding day_from_year_def leap_def by (simp only: diff_add_eq)
qed

lemma day_from_year_less: "day_from_year y < day_from_year (y + 1)"
  by (simp add: day_from_year_step)

lemma day_from_year_mono: "x \<le> y \<Longrightarrow> day_from_year x \<le> day_from_year y"
proof (induction "nat (y - x)" arbitrary: y)
  case 0
  then show ?case by simp
next
  case (Suc n)
  then have "day_from_year x \<le> day_from_year (y - 1)" by simp
  with day_from_year_less [of "y - 1"] show ?case by simp
qed

lemma day_from_year_estimate:
  "400 * day_from_year y \<le> 146097 * (y - 1970) + 600"
  "146097 * (y - 1970) - 520 \<le> 400 * day_from_year y"
  using div_bounds [of 4 "y - 1969"] div_bounds [of 100 "y - 1901"] div_bounds [of 400 "y - 1601"]
  by (simp_all add: day_from_year_def)

lemma year_of_day_bounds:
  "day_from_year (year_of_day d) \<le> d \<and> d < day_from_year (year_of_day d + 1)"
proof -
  define y where "y = d * 400 div 146097 + 1970"
  have y: "146097 * (y - 1970) \<le> 400 * d" "400 * d < 146097 * (y - 1970) + 146097"
    using div_bounds [of 146097 "d * 400"] by (simp_all add: y_def)
  have "day_from_year (y - 1) \<le> d"
    using day_from_year_estimate(1) [of "y - 1"] y(1) by (simp add: algebra_simps)
  moreover have "d < day_from_year (y + 2)"
    using day_from_year_estimate(2) [of "y + 2"] y(2) by (simp add: algebra_simps)
  ultimately show ?thesis
    by (auto simp: year_of_day_def Let_def add.assoc simp flip: y_def)
qed

lemma year_of_day_unique:
  assumes "day_from_year y \<le> d" "d < day_from_year (y + 1)"
  shows "year_of_day d = y"
proof (rule antisym)
  show "year_of_day d \<le> y"
    using year_of_day_bounds [of d] assms day_from_year_mono [of "y + 1" "year_of_day d"] by linarith
  show "y \<le> year_of_day d"
    using year_of_day_bounds [of d] assms day_from_year_mono [of "year_of_day d + 1" y] by linarith
qed

lemma year_of_day_mono: "d \<le> e \<Longrightarrow> year_of_day d \<le> year_of_day e"
  using year_of_day_bounds [of d] year_of_day_bounds [of e]
    day_from_year_mono [of "year_of_day e + 1" "year_of_day d"] by linarith

lemma utc_yday_bounds: "0 \<le> utc_yday t \<and> utc_yday t < (if leap (utc_year t) then 366 else 365)"
  using year_of_day_bounds [of "day_of t"]
  by (simp add: utc_yday_def utc_year_def day_from_year_step)

lemma month_of_yday_bounds:
  assumes "0 \<le> n" "n < (if lp then 366 else 365)"
  shows "month_of_yday lp n < 12 \<and> month_start lp (month_of_yday lp n) \<le> n
     \<and> n < month_start lp (Suc (month_of_yday lp n))"
proof -
  have u: "[Suc 0..<12] = [1, 2, 3, 4, 5, 6, 7, 8, 9, 10, 11]" by (simp add: upt_rec)
  show ?thesis
    using assms by (cases lp) (simp_all add: month_of_yday_def month_start_def u)
qed

end
