(* ===== verification/Rpc.thy ===== *)
theory Rpc
  imports Validation Struct_Codec Js_Date
begin

text \<open>
  \<^verbatim>\<open>bff/src/rpc.ts\<close> and the shapes of \<^verbatim>\<open>bff/src/types.ts\<close>: the calls to the two backends, the
  mapping of gRPC status codes to HTTP, and the normalisers from wire replies to the views
  handed to the browser. Requests and replies follow the messages of
  \<^verbatim>\<open>proto/quotamgmt/v1\<close> and \<^verbatim>\<open>proto/quotaenforcer/v1\<close> as the loader decodes them: a message
  field may be absent, a 64-bit integer is a decimal string or a number.
\<close>

section \<open>Arithmetic of doubles\<close>

fun num_times :: "jsnum \<Rightarrow> jsnum \<Rightarrow> jsnum" where
  "num_times NaN _ = NaN"
| "num_times _ NaN = NaN"
| "num_times (Infinity s) (Infinity t) = Infinity (s \<noteq> t)"
| "num_times (Infinity s) (Fin q) = (if q = 0 then NaN else Infinity (s \<noteq> (q < 0)))"
| "num_times (Fin q) (Infinity s) = (if q = 0 then NaN else Infinity (s \<noteq> (q < 0)))"
| "num_times (Fin p) (Fin q) = to_double (p * q)"

fun num_plus :: "jsnum \<Rightarrow> jsnum \<Rightarrow> jsnum" where
  "num_plus NaN _ = NaN"
| "num_plus _ NaN = NaN"
| "num_plus (Infinity s) (Infinity t) = (if s = t then Infinity s else NaN)"
| "num_plus (Infinity s) (Fin _) = Infinity s"
| "num_plus (Fin _) (Infinity s) = Infinity s"
| "num_plus (Fin p) (Fin q) = to_double (p + q)"

text \<open>\<^verbatim>\<open>Math.floor(n / d)\<close> for a positive constant \<open>d\<close>.\<close>

fun num_floor_div :: "jsnum \<Rightarrow> rat \<Rightarrow> jsnum" where
  "num_floor_div NaN _ = NaN"
| "num_floor_div (Infinity s) _ = Infinity s"
| "num_floor_div (Fin q) d =
     (case to_double (q / d) of Fin r \<Rightarrow> Fin (of_int \<lfloor>r\<rfloor>) | n \<Rightarrow> n)"

section \<open>Calls\<close>

datatype Backend = Quotamgmt | Quotaenforcer

datatype rpc_request =
    CreateLimit limit_key jsnum string
  | UpdateLimit limit_key jsnum string bool
  | DeleteLimit limit_key bool
  | GetLimit limit_key bool
  | ListLimits string string string jsnum string
  | RegisterService ServiceView
  | GetService string
  | ListServices jsnum string
  | ListAuditEntries string "limit_key option" jsnum "(jsnum \<times> jsnum) option" jsnum string
  | GetUsage limit_key
  | Refund limit_key jsnum string

record rpc_call =
  backend :: Backend
  request :: rpc_request
  metadata :: "(string \<times> string) list"

record RawLimit =
  raw_key :: "limit_key option"
  raw_limit_value :: jsv
  raw_time_unit :: string
  raw_config_id :: jsv

record RawUsage =
  raw_consumed :: jsv
  raw_remaining :: jsv
  raw_limit :: jsv
  raw_reset_at :: jsv
  raw_configured :: bool

record RawRefundRes =
  ref_remaining :: jsv
  ref_limit :: jsv
  ref_reset_at :: jsv

record RawAudit =
  raw_audit_id :: jsv
  raw_audit_config_id :: jsv
  raw_operation :: string
  raw_old_row :: jsv
  raw_new_row :: jsv
  raw_changed_by :: string
  raw_changed_at :: jsv

datatype rpc_response =
    R_empty
  | R_limit "RawLimit option"
  | R_got_limit "RawLimit option" bool
  | R_limits "RawLimit list option" string
  | R_service "ServiceView option"
  | R_services "ServiceView list option" string
  | R_audit "RawAudit list option" string
  | R_usage RawUsage
  | R_refund RawRefundRes

record ServiceError =
  err_code :: "int option"
  err_details :: string
  err_message :: string

type_synonym rpc_reply = "ServiceError + rpc_response"

definition ACTOR_METADATA_KEY :: string where
  "ACTOR_METADATA_KEY = ''x-actor''"

definition actorMetadata :: "string \<Rightarrow> (string \<times> string) list" where
  "actorMetadata who = map_set ACTOR_METADATA_KEY who []"

text \<open>The identity a call carries, if it carries one.\<close>

definition actor_of :: "rpc_call \<Rightarrow> string option" where
  "actor_of c = map_get (metadata c) ACTOR_METADATA_KEY"

definition grpcToHttp :: "int option \<Rightarrow> nat" where
  "grpcToHttp c =
     (case c of
        None \<Rightarrow> 502
      | Some k \<Rightarrow>
          if k = 3 \<or> k = 9 \<or> k = 11 then 400 \<comment> \<open>invalid argument, failed precondition, out of range\<close>
          else if k = 5 then 404 \<comment> \<open>not found\<close>
          else if k = 6 then 409 \<comment> \<open>already exists\<close>
          else if k = 7 then 403 \<comment> \<open>permission denied\<close>
          else if k = 16 then 401 \<comment> \<open>unauthenticated\<close>
          else if k = 12 then 501 \<comment> \<open>unimplemented\<close>
          else if k = 4 \<or> k = 14 then 503 \<comment> \<open>deadline exceeded, unavailable\<close>
          else 502)"

fun method_name :: "rpc_request \<Rightarrow> string" where
  "method_name (CreateLimit _ _ _) = ''CreateLimit''"
| "method_name (UpdateLimit _ _ _ _) = ''UpdateLimit''"
| "method_name (DeleteLimit _ _) = ''DeleteLimit''"
| "method_name (GetLimit _ _) = ''GetLimit''"
| "method_name (ListLimits _ _ _ _ _) = ''ListLimits''"
| "method_name (RegisterService _) = ''RegisterService''"
| "method_name (GetService _) = ''GetService''"
| "method_name (ListServices _ _) = ''ListServices''"
| "method_name (ListAuditEntries _ _ _ _ _ _) = ''ListAuditEntries''"
| "method_name (GetUsage _) = ''GetUsage''"
| "method_name (Refund _ _ _) = ''Refund''"

text \<open>The methods the two services declare in their proto files.\<close>

fun client_methods :: "Backend \<Rightarrow> string list" where
  "client_methods Quotamgmt =
     [''CreateLimit'', ''UpdateLimit'', ''DeleteLimit'', ''GetLimit'', ''ListLimits'',
      ''RegisterService'', ''GetService'', ''ListServices'', ''ListAuditEntries'']"
| "client_methods Quotaenforcer =
     [''CheckQuota'', ''CheckQuotaBatch'', ''Charge'', ''Refund'', ''GetUsage'']"

text \<open>
  The two ways a \<^verbatim>\<open>call\<close> settles: it is rejected at once for a method the client does not have,
  and otherwise it is settled by the reply.
\<close>

definition no_such_rpc :: "rpc_call \<Rightarrow> js_error option" where
  "no_such_rpc c =
     (if method_name (request c) \<notin> set (client_methods (backend c))
      then Some (RpcError 500 (''no such rpc: '' @ method_name (request c)) None)
      else None)"

definition call_result :: "rpc_reply \<Rightarrow> rpc_response js" where
  "call_result reply =
     (case reply of
        Inl err \<Rightarrow>
          Inl (RpcError (grpcToHttp (err_code err))
                 (if err_details err \<noteq> [] then err_details err else err_message err)
                 (err_code err))
      | Inr res \<Rightarrow> Inr res)"

text \<open>
  Fields of a decoded reply. A field the message does not have reads as \<^verbatim>\<open>undefined\<close>.
\<close>

fun res_limit :: "rpc_response \<Rightarrow> RawLimit option" where
  "res_limit (R_limit l) = l"
| "res_limit (R_got_limit l _) = l"
| "res_limit _ = None"

fun res_is_default :: "rpc_response \<Rightarrow> bool option" where
  "res_is_default (R_got_limit _ b) = Some b"
| "res_is_default _ = None"

fun res_limits :: "rpc_response \<Rightarrow> RawLimit list option" where
  "res_limits (R_limits ls _) = ls"
| "res_limits _ = None"

fun res_service :: "rpc_response \<Rightarrow> ServiceView option" where
  "res_service (R_service v) = v"
| "res_service _ = None"

fun res_services :: "rpc_response \<Rightarrow> ServiceView list option" where
  "res_services (R_services vs _) = vs"
| "res_services _ = None"

fun res_entries :: "rpc_response \<Rightarrow> RawAudit list option" where
  "res_entries (R_audit es _) = es"
| "res_entries _ = None"

fun res_page_token :: "rpc_response \<Rightarrow> string" where
  "res_page_token (R_limits _ t) = t"
| "res_page_token (R_services _ t) = t"
| "res_page_token (R_audit _ t) = t"
| "res_page_token _ = []"

fun res_usage :: "rpc_response \<Rightarrow> RawUsage" where
  "res_usage (R_usage u) = u"
| "res_usage (R_refund r) =
     \<lparr>raw_consumed = JUndefined, raw_remaining = ref_remaining r, raw_limit = ref_limit r,
      raw_reset_at = ref_reset_at r, raw_configured = False\<rparr>"
| "res_usage _ =
     \<lparr>raw_consumed = JUndefined, raw_remaining = JUndefined, raw_limit = JUndefined,
      raw_reset_at = JUndefined, raw_configured = False\<rparr>"

fun res_refund :: "rpc_response \<Rightarrow> RawRefundRes" where
  "res_refund (R_refund r) = r"
| "res_refund (R_usage u) =
     \<lparr>ref_remaining = raw_remaining u, ref_limit = raw_limit u, ref_reset_at = raw_reset_at u\<rparr>"
| "res_refund _ =
     \<lparr>ref_remaining = JUndefined, ref_limit = JUndefined, ref_reset_at = JUndefined\<rparr>"

section \<open>Views\<close>

record LimitView =
  lv_config_id :: "jsnum option"
  lv_key :: limit_key
  lv_limit_value :: jsnum
  lv_time_unit :: string
  lv_is_default :: bool

record UsageView =
  uv_key :: limit_key
  uv_configured :: bool
  uv_limit :: "jsnum option"
  uv_consumed :: jsnum
  uv_remaining :: jsnum
  uv_reset_at :: "string option"
  uv_fetched_at :: string

record AuditView =
  av_audit_id :: jsnum
  av_config_id :: jsnum
  av_operation :: string
  av_old_row :: jsv
  av_new_row :: jsv
  av_changed_by :: string
  av_changed_at :: "string option"

definition to_num :: "jsv \<Rightarrow> jsnum js" where
  "to_num x = (if nullish x then Inr (Fin 0) else js_Number x)"

definition time_value_iso :: "jsnum \<Rightarrow> string js" where
  \<comment> \<open>\<^verbatim>\<open>new Date(ms).toISOString()\<close>\<close>
  "time_value_iso n =
     (case n of
        Fin q \<Rightarrow>
          if \<bar>q\<bar> \<le> of_int MAX_TIME then toISOString (if q < 0 then \<lceil>q\<rceil> else \<lfloor>q\<rfloor>)
          else Inl (OtherError ''Invalid time value'')
      | _ \<Rightarrow> Inl (OtherError ''Invalid time value''))"

definition timestampToIso :: "jsv \<Rightarrow> string option js" where
  "timestampToIso ts =
     (case ts of
        JObj ob \<Rightarrow>
          if nullish (own ob ''seconds'') then Inr None
          else then_do (js_Number (own ob ''seconds'')) (\<lambda>s.
               then_do (js_Number (or_default (own ob ''nanos'') (JNum (Fin 0)))) (\<lambda>n.
               then_do (time_value_iso (num_plus (num_times s (Fin 1000)) (num_floor_div n 1000000)))
                 (\<lambda>iso. Inr (Some iso))))
      | _ \<Rightarrow> Inr None)"

definition no_property :: "string \<Rightarrow> js_error" where
  "no_property k = OtherError (''Cannot read properties of undefined (reading '' @ k @ '')'')"

definition toLimitView :: "RawLimit option \<Rightarrow> bool option \<Rightarrow> LimitView js" where
  "toLimitView raw isDefaultOverride =
     (case raw of
        None \<Rightarrow> Inl (no_property ''key'')
      | Some l \<Rightarrow>
          (case raw_key l of
             None \<Rightarrow> Inl (no_property ''customer_id'')
           | Some k \<Rightarrow>
               then_do (if nullish (raw_config_id l) then Inr None
                        else then_do (to_num (raw_config_id l)) (\<lambda>n. Inr (Some n))) (\<lambda>cid.
               then_do (to_num (raw_limit_value l)) (\<lambda>lv.
                 Inr \<lparr>lv_config_id = cid, lv_key = k, lv_limit_value = lv,
                       lv_time_unit = raw_time_unit l,
                       lv_is_default = (case isDefaultOverride of Some b \<Rightarrow> b
                                        | None \<Rightarrow> customer_id k = ''*'')\<rparr>))))"

definition toServiceView :: "ServiceView option \<Rightarrow> ServiceView js" where
  "toServiceView s = (case s of None \<Rightarrow> Inl (no_property ''service_name'') | Some v \<Rightarrow> Inr v)"

definition toUsageView :: "limit_key \<Rightarrow> RawUsage \<Rightarrow> string \<Rightarrow> UsageView js" where
  "toUsageView k u fetchedAt =
     then_do (if raw_configured u then then_do (to_num (raw_limit u)) (\<lambda>n. Inr (Some n)) else Inr None) (\<lambda>lim.
     then_do (to_num (raw_consumed u)) (\<lambda>con.
     then_do (to_num (raw_remaining u)) (\<lambda>rem.
     then_do (timestampToIso (raw_reset_at u)) (\<lambda>reset.
       Inr \<lparr>uv_key = k, uv_configured = raw_configured u, uv_limit = lim, uv_consumed = con,
             uv_remaining = rem, uv_reset_at = reset, uv_fetched_at = fetchedAt\<rparr>))))"

definition toAuditView :: "RawAudit \<Rightarrow> AuditView js" where
  "toAuditView e =
     then_do (to_num (raw_audit_id e)) (\<lambda>aid.
     then_do (to_num (raw_audit_config_id e)) (\<lambda>cid.
     then_do (structToObject (raw_old_row e)) (\<lambda>old.
     then_do (structToObject (raw_new_row e)) (\<lambda>new.
     then_do (timestampToIso (raw_changed_at e)) (\<lambda>chg.
       Inr \<lparr>av_audit_id = aid, av_config_id = cid, av_operation = raw_operation e,
             av_old_row = old, av_new_row = new, av_changed_by = raw_changed_by e,
             av_changed_at = chg\<rparr>)))))"

section \<open>Facts\<close>

lemma actor_of_actorMetadata [simp]:
  "metadata c = actorMetadata who \<Longrightarrow> actor_of c = Some who"
  "metadata c = [] \<Longrightarrow> actor_of c = None"
  by (simp_all add: actor_of_def actorMetadata_def)

lemma grpcToHttp_range:
  "grpcToHttp c \<in> {400, 401, 403, 404, 409, 501, 502, 503}"
  by (cases c) (auto simp: grpcToHttp_def)

lemma grpcToHttp_404_iff: "grpcToHttp c = 404 \<longleftrightarrow> c = Some 5"
  by (cases c) (auto simp: grpcToHttp_def)

definition well_addressed :: "rpc_call \<Rightarrow> bool" where
  "well_addressed c \<longleftrightarrow>
     backend c = (case request c of Refund _ _ _ \<Rightarrow> Quotaenforcer | GetUsage _ \<Rightarrow> Quotaenforcer | _ \<Rightarrow> Quotamgmt)"

lemma well_addressed_exists [simp]: "well_addressed c \<Longrightarrow> no_such_rpc c = None"
  by (cases "request c") (simp_all add: no_such_rpc_def well_addressed_def)

lemma call_result_simps [simp]:
  "call_result (Inr res) = Inr res"
  "call_result (Inl err) =
     Inl (RpcError (grpcToHttp (err_code err))
            (if err_details err \<noteq> [] then err_details err else err_message err) (err_code err))"
  by (simp_all add: call_result_def)

lemma to_num_int_str: "\<bar>i\<bar> \<le> 2 ^ 53 \<Longrightarrow> to_num (JStr (int_str i)) = Inr (num_of_int i)"
  by (simp add: to_num_def nullish_def string_to_number_int_str)

lemma to_num_JNum [simp]: "to_num (JNum n) = Inr n"
  by (simp add: to_num_def nullish_def)

section \<open>Properties\<close>

text \<open>
  A failed call always becomes a client or gateway error, never a success and never an
  unexplained 500; and a 404 means exactly that the backend said NOT_FOUND.
\<close>

theorem grpc_status_mapping:
  "grpcToHttp c \<in> {400, 401, 403, 404, 409, 501, 502, 503} \<and> (grpcToHttp c = 404 \<longleftrightarrow> c = Some 5)"
  using grpcToHttp_range grpcToHttp_404_iff by blast

text \<open>
  The 64-bit integers of a reply, which arrive as decimal text, are read exactly, up to the
  largest integers a double represents.
\<close>

theorem limit_view_exact:
  assumes "\<bar>cid\<bar> \<le> 2 ^ 53" "\<bar>v\<bar> \<le> 2 ^ 53"
  shows "toLimitView (Some \<lparr>raw_key = Some k, raw_limit_value = JStr (int_str v), raw_time_unit = u,
             raw_config_id = JStr (int_str cid)\<rparr>) None
    = Inr \<lparr>lv_config_id = Some (num_of_int cid), lv_key = k, lv_limit_value = num_of_int v,
           lv_time_unit = u, lv_is_default = (customer_id k = ''*'')\<rparr>"
  using assms by (simp add: toLimitView_def to_num_int_str nullish_def)

theorem limit_view_exact_witness:
  "toLimitView (Some \<lparr>raw_key = Some \<lparr>service_name = ''s'', customer_id = ''*'', rate_limit_id = ''l''\<rparr>,
      raw_limit_value = JStr ''500'', raw_time_unit = ''DAY'', raw_config_id = JStr ''7''\<rparr>) None
    = Inr \<lparr>lv_config_id = Some (Fin 7), lv_key = \<lparr>service_name = ''s'', customer_id = ''*'', rate_limit_id = ''l''\<rparr>,
           lv_limit_value = Fin 500, lv_time_unit = ''DAY'', lv_is_default = True\<rparr>"
  using limit_view_exact [of 7 500 "\<lparr>service_name = ''s'', customer_id = ''*'', rate_limit_id = ''l''\<rparr>" "''DAY''"]
  by (simp add: int_str_def digit_char_def)

end
