(* ===== verification/Reviews.thy ===== *)
theory Reviews
  imports Validation
begin

text \<open>
  \<^verbatim>\<open>bff/src/reviews.ts\<close> (the store of two-person reviews) and \<^verbatim>\<open>bff/src/policy.ts\<close> (which
  mutations need one). The store is a JavaScript \<^verbatim>\<open>Map\<close> in insertion order. What
  \<^verbatim>\<open>randomBytes\<close> and \<^verbatim>\<open>new Date()\<close> yield is passed in as an argument.

  The locale \<open>maker_checker\<close> is the contract the routes rely on; the store is an instance of it.
\<close>

section \<open>Data\<close>

datatype PendingOp =
    PLimitUpdate limit_key jsnum string
  | PLimitDelete limit_key
  | PRefund limit_key jsnum
  | PReset limit_key

datatype ReviewStatus = Pending | Approved | Rejected

datatype Decision = Approve | Reject

record Review =
  rid :: string
  rop :: PendingOp
  reason :: string
  initiator :: string
  status :: ReviewStatus
  createdAt :: string
  decidedBy :: "string option"
  decidedAt :: "string option"

type_synonym review_store = "(string, Review) jsmap"

fun status_name :: "ReviewStatus \<Rightarrow> string" where
  "status_name Pending = ''pending''"
| "status_name Approved = ''approved''"
| "status_name Rejected = ''rejected''"

fun decision_status :: "Decision \<Rightarrow> ReviewStatus" where
  "decision_status Approve = Approved"
| "decision_status Reject = Rejected"

section \<open>The store\<close>

definition review_create ::
  "string \<Rightarrow> string \<Rightarrow> PendingOp \<Rightarrow> string \<Rightarrow> string \<Rightarrow> review_store \<Rightarrow> Review \<times> review_store" where
  "review_create new_id now op who why store =
     (let r = \<lparr>rid = new_id, rop = op, reason = why, initiator = who, status = Pending,
               createdAt = now, decidedBy = None, decidedAt = None\<rparr>
      in (r, map_set (rid r) r store))"

definition review_get :: "string \<Rightarrow> review_store \<Rightarrow> Review option" where
  "review_get i store = map_get store i"

definition listPending :: "review_store \<Rightarrow> Review list" where
  "listPending store = filter (\<lambda>r. status r = Pending) (map snd store)"

definition review_decide ::
  "string \<Rightarrow> string \<Rightarrow> Decision \<Rightarrow> string \<Rightarrow> review_store \<Rightarrow> ((nat \<times> string) + Review) \<times> review_store" where
  "review_decide i approver decision now store =
     (case map_get store i of
        None \<Rightarrow> (Inl (404, ''review not found''), store)
      | Some r \<Rightarrow>
          if status r \<noteq> Pending
          then (Inl (409, ''review already '' @ status_name (status r)), store)
          else if initiator r = approver
          then (Inl (403, ''the initiator may not approve their own change''), store)
          else let r' = r\<lparr>status := decision_status decision, decidedBy := Some approver,
                          decidedAt := Some now\<rparr>
               in (Inr r', map_set i r' store))"

section \<open>When a review is required\<close>

record ReviewPolicy =
  reviewDefaultChanges :: bool
  reviewWindowResets :: bool
  refundReviewThreshold :: jsnum

definition DEFAULT_REVIEW_POLICY :: ReviewPolicy where
  "DEFAULT_REVIEW_POLICY =
     \<lparr>reviewDefaultChanges = True, reviewWindowResets = True, refundReviewThreshold = Fin 100000\<rparr>"

definition default_change_reason :: "ReviewPolicy \<Rightarrow> limit_key \<Rightarrow> string option" where
  "default_change_reason policy k =
     (if reviewDefaultChanges policy \<and> customer_id k = ''*''
      then Some (''changes a '*' default for '' @ service_name k @ ''/'' @ rate_limit_id k
                 @ '' (affects all customers without an override)'')
      else None)"

fun reviewReason :: "PendingOp \<Rightarrow> ReviewPolicy \<Rightarrow> string option" where
  "reviewReason (PLimitUpdate k v u) policy = default_change_reason policy k"
| "reviewReason (PLimitDelete k) policy = default_change_reason policy k"
| "reviewReason (PReset k) policy =
     (if reviewWindowResets policy then Some ''resets a customer's window'' else None)"
| "reviewReason (PRefund k a) policy =
     (if num_less (refundReviewThreshold policy) a
      then Some (''large refund ('' @ num_to_string a @ '' > ''
                 @ num_to_string (refundReviewThreshold policy) @ '')'')
      else None)"

lemma reviewReason_nonempty: "reviewReason op p = Some r \<Longrightarrow> r \<noteq> []"
  by (cases op) (auto simp: default_change_reason_def split: if_splits)

text \<open>
  Under the default policy exactly these operations wait for a second person: updating or deleting
  a \<open>*\<close> default, every window reset, and refunds above one hundred thousand.
\<close>

lemma default_policy_reason_iff:
  "reviewReason op DEFAULT_REVIEW_POLICY \<noteq> None \<longleftrightarrow>
     (case op of
        PLimitUpdate k v u \<Rightarrow> customer_id k = ''*''
      | PLimitDelete k \<Rightarrow> customer_id k = ''*''
      | PReset k \<Rightarrow> True
      | PRefund k a \<Rightarrow> num_less (Fin 100000) a)"
  by (cases op) (auto simp: DEFAULT_REVIEW_POLICY_def default_change_reason_def)

section \<open>The invariant of the store\<close>

definition review_ok :: "Review \<Rightarrow> bool" where
  "review_ok r \<longleftrightarrow>
     (case decidedBy r of
        None \<Rightarrow> status r = Pending \<and> decidedAt r = None
      | Some who \<Rightarrow> status r \<noteq> Pending \<and> decidedAt r \<noteq> None \<and> who \<noteq> initiator r)"

definition store_ok :: "review_store \<Rightarrow> bool" where
  "store_ok store \<longleftrightarrow> map_wf store \<and> (\<forall>i r. map_get store i = Some r \<longrightarrow> rid r = i \<and> review_ok r)"

lemma store_ok_empty [simp]: "store_ok []"
  by (simp add: store_ok_def)

lemma store_ok_create: "store_ok s \<Longrightarrow> store_ok (snd (review_create i now op who why s))"
  by (auto simp: store_ok_def review_create_def review_ok_def Let_def)

lemma decide_cases:
  assumes "review_decide i who d now s = (res, s')"
  obtains (missing) "map_get s i = None" "res = Inl (404, ''review not found'')" "s' = s"
  | (settled) r where "map_get s i = Some r" "status r \<noteq> Pending"
      "res = Inl (409, ''review already '' @ status_name (status r))" "s' = s"
  | (own) r where "map_get s i = Some r" "status r = Pending" "initiator r = who"
      "res = Inl (403, ''the initiator may not approve their own change'')" "s' = s"
  | (decided) r r' where "map_get s i = Some r" "status r = Pending" "initiator r \<noteq> who"
      "r' = r\<lparr>status := decision_status d, decidedBy := Some who, decidedAt := Some now\<rparr>"
      "res = Inr r'" "s' = map_set i r' s"
  using assms that
  by (auto simp: review_decide_def Let_def split: option.splits if_splits)

lemma decision_status_not_Pending [simp]: "decision_status d \<noteq> Pending" "Pending \<noteq> decision_status d"
  by (cases d; simp)+

lemma store_ok_decide:
  assumes "store_ok s" shows "store_ok (snd (review_decide i who d now s))"
proof -
  obtain res s' where eq: "review_decide i who d now s = (res, s')" by force
  from eq show ?thesis
    by (cases rule: decide_cases) (use assms in \<open>auto simp: eq store_ok_def review_ok_def\<close>)
qed

section \<open>The contract\<close>

text \<open>
  What the routes need of a store of reviews. \<open>outcome\<close> is the decision recorded for an id, if
  there is one, and \<open>maker\<close> who submitted it. A submission under a fresh id is undecided; a
  decision succeeds only on an undecided submission and only for somebody else; whatever happens
  to other ids, a decided one keeps its decision.
\<close>

locale maker_checker =
  fixes maker :: "'s \<Rightarrow> 'i \<Rightarrow> 'p option"
    and outcome :: "'s \<Rightarrow> 'i \<Rightarrow> ('p \<times> 'd) option"
    and submit :: "'i \<Rightarrow> 'p \<Rightarrow> 'x \<Rightarrow> 's \<Rightarrow> 's"
    and rule_on :: "'i \<Rightarrow> 'p \<Rightarrow> 'd \<Rightarrow> 't \<Rightarrow> 's \<Rightarrow> bool \<times> 's"
  assumes maker_submit: "maker s i = None \<Longrightarrow> maker (submit i p x s) j = (if j = i then Some p else maker s j)"
    and outcome_submit: "maker s i = None \<Longrightarrow> outcome (submit i p x s) j = (if j = i then None else outcome s j)"
    and outcome_maker: "maker s i = None \<Longrightarrow> outcome s i = None"
    and rule_success: "rule_on i p d t s = (True, s') \<Longrightarrow>
      (\<exists>m. maker s i = Some m \<and> m \<noteq> p) \<and> outcome s i = None \<and>
      outcome s' j = (if j = i then Some (p, d) else outcome s j)"
    and rule_failure: "rule_on i p d t s = (False, s') \<Longrightarrow> s' = s"
    and maker_rule: "maker (snd (rule_on i p d t s)) j = maker s j"
begin

text \<open>A history: submissions under fresh ids, and rulings.\<close>

inductive history :: "'s \<Rightarrow> 's \<Rightarrow> bool" where
  start: "history s s"
| submitted: "history s t \<Longrightarrow> maker t i = None \<Longrightarrow> history s (submit i p x t)"
| ruled: "history s t \<Longrightarrow> history s (snd (rule_on i p d tm t))"

lemma outcome_step_rule:
  "outcome s i = Some v \<Longrightarrow> outcome (snd (rule_on j p d tm s)) i = Some v"
proof (cases "rule_on j p d tm s")
  case (Pair ok t)
  then show "outcome s i = Some v \<Longrightarrow> ?thesis"
    using rule_success [of j p d tm s t i] rule_failure [of j p d tm s t] by (cases ok) auto
qed

lemma outcome_step_submit:
  "maker s j = None \<Longrightarrow> outcome s i = Some v \<Longrightarrow> outcome (submit j p x s) i = Some v"
  using outcome_maker by (auto simp: outcome_submit)

lemma decided_once:
  assumes "history s t" and "outcome s i = Some v"
  shows "outcome t i = Some v"
  using assms
proof (induction rule: history.induct)
  case (submitted s t i p x)
  then show ?case by (blast intro: outcome_step_submit)
next
  case (ruled s t j p d tm)
  then show ?case by (blast intro: outcome_step_rule)
qed

lemma checker_is_not_maker:
  assumes "history s t" and "\<And>i p d. outcome s i = Some (p, d) \<Longrightarrow> maker s i \<noteq> Some p \<and> maker s i \<noteq> None"
  shows "outcome t i = Some (p, d) \<Longrightarrow> maker t i \<noteq> Some p \<and> maker t i \<noteq> None"
  using assms
proof (induction arbitrary: i p d rule: history.induct)
  case (submitted s t j q x)
  then show ?case by (auto simp: maker_submit outcome_submit split: if_splits)
next
  case (ruled s t j q d' tm)
  show ?case
  proof (cases "rule_on j q d' tm t")
    case (Pair ok t')
    with ruled show ?thesis
      using rule_success [of j q d' tm t t' i] rule_failure [of j q d' tm t t'] maker_rule [of j q d' tm t i]
      by (cases ok) (auto split: if_splits)
  qed
qed auto

end

text \<open>The store satisfies it.\<close>

definition review_maker :: "review_store \<Rightarrow> string \<Rightarrow> string option" where
  "review_maker s i = map_option initiator (map_get s i)"

definition decider :: "Review \<Rightarrow> string" where
  "decider r = (case decidedBy r of None \<Rightarrow> [] | Some who \<Rightarrow> who)"

definition review_outcome :: "review_store \<Rightarrow> string \<Rightarrow> (string \<times> Decision) option" where
  "review_outcome s i =
     (case map_get s i of
        None \<Rightarrow> None
      | Some r \<Rightarrow>
          (case status r of
             Pending \<Rightarrow> None
           | Approved \<Rightarrow> Some (decider r, Approve)
           | Rejected \<Rightarrow> Some (decider r, Reject)))"

definition review_submit ::
  "string \<Rightarrow> string \<Rightarrow> PendingOp \<times> string \<times> string \<Rightarrow> review_store \<Rightarrow> review_store" where
  "review_submit i who x s =
     (case x of (op, why, now) \<Rightarrow> snd (review_create i now op who why s))"

definition review_rule ::
  "string \<Rightarrow> string \<Rightarrow> Decision \<Rightarrow> string \<Rightarrow> review_store \<Rightarrow> bool \<times> review_store" where
  "review_rule i who d now s =
     (let (res, s') = review_decide i who d now s
      in (case res of Inl _ \<Rightarrow> False | Inr _ \<Rightarrow> True, s'))"

lemma review_rule_success:
  assumes "review_rule i who d now s = (True, s')"
  obtains r where "map_get s i = Some r" "status r = Pending" "initiator r \<noteq> who"
    "s' = map_set i (r\<lparr>status := decision_status d, decidedBy := Some who, decidedAt := Some now\<rparr>) s"
proof -
  obtain res t where eq: "review_decide i who d now s = (res, t)" by force
  from eq show ?thesis
    by (cases rule: decide_cases) (use assms eq that in \<open>auto simp: review_rule_def\<close>)
qed

lemma review_rule_failure:
  "review_rule i who d now s = (False, s') \<Longrightarrow> s' = s"
  by (auto simp: review_rule_def review_decide_def Let_def
      split: if_splits option.splits sum.splits prod.splits)

interpretation reviews: maker_checker review_maker review_outcome review_submit review_rule
proof (unfold_locales, goal_cases)
  case (1 s i p x j)
  then show ?case
    by (auto simp: review_maker_def review_submit_def review_create_def Let_def split: prod.splits)
next
  case (2 s i p x j)
  then show ?case
    by (auto simp: review_maker_def review_outcome_def review_submit_def review_create_def Let_def
        split: prod.splits)
next
  case (3 s i)
  then show ?case by (auto simp: review_maker_def review_outcome_def)
next
  case (4 i p d t s s' j)
  then show ?case
    by (elim review_rule_success)
       (cases d; simp add: review_maker_def review_outcome_def decider_def)
next
  case (5 i p d t s s')
  then show ?case by (rule review_rule_failure)
next
  case (6 i p d t s j)
  show ?case
  proof (cases "review_rule i p d t s")
    case (Pair ok s')
    then show ?thesis
      by (cases ok) (auto elim!: review_rule_success dest!: review_rule_failure simp: review_maker_def)
  qed
qed

section \<open>Properties\<close>


text \<open>
  In every history of submissions under fresh identifiers and of decisions, started from the empty
  store, whoever decided a review is not who submitted it.
\<close>

theorem no_self_approval:
  assumes "reviews.history [] t" and "review_outcome t i = Some (who, d)"
  shows "\<exists>m. review_maker t i = Some m \<and> m \<noteq> who"
  using reviews.checker_is_not_maker [OF assms(1) _ assms(2)] by (auto simp: review_outcome_def)

theorem no_self_approval_witness:
  "\<exists>t. reviews.history [] t \<and> review_outcome t ''r'' = Some (''b'', Approve)
     \<and> (\<exists>m. review_maker t ''r'' = Some m \<and> m \<noteq> ''b'')"
proof -
  let ?op = "PReset \<lparr>service_name = ''s'', customer_id = ''c'', rate_limit_id = ''l''\<rparr>"
  let ?t = "snd (review_rule ''r'' ''b'' Approve ''2'' (review_submit ''r'' ''a'' (?op, ''why'', ''1'') []))"
  have h: "reviews.history [] ?t"
    by (intro reviews.history.ruled reviews.history.submitted reviews.history.start) (simp add: review_maker_def)
  moreover have o: "review_outcome ?t ''r'' = Some (''b'', Approve)"
    by (simp add: review_rule_def review_submit_def review_create_def review_decide_def review_outcome_def
        decider_def Let_def)
  ultimately show ?thesis using no_self_approval [OF h o] by blast
qed

text \<open>
  A decision is final: whatever is submitted under fresh identifiers or decided later, an
  outcome that is recorded stays as it is.
\<close>

theorem decisions_are_final:
  assumes "reviews.history s t" and "review_outcome s i = Some v"
  shows "review_outcome t i = Some v"
  using assms by (rule reviews.decided_once)

theorem decisions_are_final_witness:
  "\<exists>s. review_outcome s ''r'' = Some (''b'', Reject)
     \<and> review_outcome (snd (review_rule ''r'' ''c'' Approve ''3'' s)) ''r'' = Some (''b'', Reject)"
proof -
  let ?op = "PReset \<lparr>service_name = ''s'', customer_id = ''c'', rate_limit_id = ''l''\<rparr>"
  let ?s = "snd (review_rule ''r'' ''b'' Reject ''2'' (review_submit ''r'' ''a'' (?op, ''why'', ''1'') []))"
  have o: "review_outcome ?s ''r'' = Some (''b'', Reject)"
    by (simp add: review_rule_def review_submit_def review_create_def review_decide_def review_outcome_def
        decider_def Let_def)
  have "reviews.history ?s (snd (review_rule ''r'' ''c'' Approve ''3'' ?s))"
    by (intro reviews.history.ruled reviews.history.start)
  from decisions_are_final [OF this o] o show ?thesis by blast
qed

end
