(* ===== verification/Action_Log.thy ===== *)
theory Action_Log
  imports Validation
begin

text \<open>
  \<^verbatim>\<open>bff/src/actionlog.ts\<close>: the append-only log of what people did through the console. An entry
  is appended with the next sequence number and the current time; it is never changed.
\<close>

section \<open>Data\<close>

text \<open>What an entry is about, and the details the callers attach.\<close>

datatype log_target = Target_key limit_key | Target_service string

datatype log_details =
    Detail_limit jsnum string
  | Detail_amount jsnum
  | Detail_refunded jsnum
  | Detail_service string string

record NewEntry =
  actor :: string
  action :: string
  target :: log_target
  details :: "log_details option"
  request_id :: "string option"
  log_initiator :: "string option"
  log_approver :: "string option"

record ActionLogEntry = NewEntry +
  seq :: nat
  at_time :: string

record ActionLog =
  entries :: "ActionLogEntry list"
  last_seq :: nat

definition new_log :: ActionLog where
  "new_log = \<lparr>entries = [], last_seq = 0\<rparr>"

section \<open>Operations\<close>

definition log_append :: "string \<Rightarrow> NewEntry \<Rightarrow> ActionLog \<Rightarrow> ActionLogEntry \<times> ActionLog" where
  "log_append now e lg =
     (let n = Suc (last_seq lg);
          entry = NewEntry.extend e \<lparr>seq = n, at_time = now\<rparr>
      in (entry, lg\<lparr>entries := entries lg @ [entry], last_seq := n\<rparr>))"

text \<open>\<^verbatim>\<open>xs.slice(0, n)\<close>: a negative bound counts from the end.\<close>

definition slice_to :: "int \<Rightarrow> 'a list \<Rightarrow> 'a list" where
  "slice_to n xs = take (nat (if n < 0 then int (length xs) + n else n)) xs"

definition log_list :: "string option \<Rightarrow> int option \<Rightarrow> ActionLog \<Rightarrow> ActionLogEntry list" where
  "log_list who limit lg =
     (let out = rev (entries lg);
          out = (case who of Some w \<Rightarrow> if w \<noteq> [] then filter (\<lambda>e. actor e = w) out else out
                 | None \<Rightarrow> out)
      in (case limit of Some n \<Rightarrow> slice_to n out | None \<Rightarrow> out))"

section \<open>The log is append-only and numbered without gaps\<close>

definition log_ok :: "ActionLog \<Rightarrow> bool" where
  "log_ok lg \<longleftrightarrow> map seq (entries lg) = [1..<Suc (last_seq lg)]"

lemma log_ok_new [simp]: "log_ok new_log"
  by (simp add: log_ok_def new_log_def)

lemma log_ok_append [simp, intro]: "log_ok lg \<Longrightarrow> log_ok (snd (log_append now e lg))"
  by (simp add: log_ok_def log_append_def Let_def NewEntry.defs)

lemma entries_append [simp]:
  "entries (snd (log_append now e lg)) = entries lg @ [fst (log_append now e lg)]"
  by (simp add: log_append_def Let_def)

lemma append_prefix: "prefix (entries lg) (entries (snd (log_append now e lg)))"
  by simp

lemma log_ok_length: "log_ok lg \<Longrightarrow> length (entries lg) = last_seq lg"
  unfolding log_ok_def by (metis length_map length_upt diff_Suc_1)

lemma log_ok_distinct: "log_ok lg \<Longrightarrow> distinct (entries lg)"
  unfolding log_ok_def by (metis distinct_map distinct_upt)

fun log_appends :: "(string \<times> NewEntry) list \<Rightarrow> ActionLog \<Rightarrow> ActionLog" where
  "log_appends [] lg = lg"
| "log_appends ((now, e) # es) lg = log_appends es (snd (log_append now e lg))"

lemma log_appends_ok: "log_ok lg \<Longrightarrow> log_ok (log_appends es lg)"
  by (induction es lg rule: log_appends.induct) auto

lemma log_appends_prefix: "prefix (entries lg) (entries (log_appends es lg))"
  by (induction es lg rule: log_appends.induct)
     (auto intro: prefix_order.trans [OF append_prefix])

lemma sorted_wrt_slice: "sorted_wrt P xs \<Longrightarrow> sorted_wrt P (slice_to n xs)"
  by (simp add: slice_to_def sorted_wrt_take)

lemma set_slice: "set (slice_to n xs) \<subseteq> set xs"
  by (simp add: slice_to_def set_take_subset)

lemma log_rev_sorted:
  "log_ok lg \<Longrightarrow> sorted_wrt (\<lambda>a b. seq b < seq a) (rev (entries lg))"
proof -
  assume "log_ok lg"
  then have "sorted_wrt (<) (map seq (entries lg))" by (simp only: log_ok_def sorted_wrt_upt)
  then show ?thesis by (simp add: sorted_wrt_rev sorted_wrt_map)
qed

lemma log_list_sorted:
  "log_ok lg \<Longrightarrow> sorted_wrt (\<lambda>a b. seq b < seq a) (log_list who limit lg)"
  using log_rev_sorted [of lg]
  by (auto simp: log_list_def Let_def split: option.splits intro!: sorted_wrt_slice sorted_wrt_filter)

section \<open>Properties\<close>

lemma length_log_appends: "length (entries (log_appends es lg)) = length (entries lg) + length es"
  by (induction es lg rule: log_appends.induct) auto

text \<open>
  The log numbers its entries 1, 2, 3, ... without a gap, in the order in which they were
  appended, and appending more leaves what is there as it is.
\<close>

theorem log_numbered_append_only:
  "map seq (entries (log_appends es new_log)) = [1..<Suc (length es)]
   \<and> prefix (entries (log_appends es new_log)) (entries (log_appends es' (log_appends es new_log)))"
proof
  have ok: "log_ok (log_appends es new_log)" by (rule log_appends_ok) simp
  have "length (entries new_log) = 0" by (simp add: new_log_def)
  then have "last_seq (log_appends es new_log) = length es"
    using log_ok_length [OF ok] length_log_appends [of es new_log] by simp
  then show "map seq (entries (log_appends es new_log)) = [1..<Suc (length es)]"
    using ok by (simp add: log_ok_def)
qed (rule log_appends_prefix)

text \<open>
  Listing the log gives the newest entries first, only entries of the log, and at most as many
  as asked for.
\<close>

theorem log_list_newest_first:
  "sorted_wrt (\<lambda>a b. seq b < seq a) (log_list who (Some (int n)) (log_appends es new_log))
   \<and> set (log_list who (Some (int n)) (log_appends es new_log)) \<subseteq> set (entries (log_appends es new_log))
   \<and> length (log_list who (Some (int n)) (log_appends es new_log)) \<le> n"
proof (intro conjI)
  show "sorted_wrt (\<lambda>a b. seq b < seq a) (log_list who (Some (int n)) (log_appends es new_log))"
    by (intro log_list_sorted log_appends_ok) simp
  show "set (log_list who (Some (int n)) (log_appends es new_log)) \<subseteq> set (entries (log_appends es new_log))"
    by (auto simp: log_list_def Let_def split: option.splits if_splits dest!: set_slice [THEN subsetD])
  show "length (log_list who (Some (int n)) (log_appends es new_log)) \<le> n"
    by (simp add: log_list_def slice_to_def Let_def)
qed

end
