(* ===== verification/Rbac.thy ===== *)
theory Rbac
  imports Js_Values
begin

text \<open>
  \<^verbatim>\<open>bff/src/rbac.ts\<close>: roles, grants, capabilities and the decision function \<open>authorize\<close>.
  The permission matrix of the design document is an abstract specification that the decision
  function is proved to implement.
\<close>

section \<open>Roles, grants, users\<close>

datatype Role = Viewer | Service_editor | Operator | Admin

record Grant =
  role :: Role
  service :: "string option"

record User =
  user_id :: string
  email :: string
  grants :: "Grant list"

datatype Capability =
    Limits_read | Usage_read | Audit_read | Observability_read
  | Limit_write | Limit_delete | Service_create | Service_edit
  | Op_refund | Op_reset | Review_approve | Rbac_manage

record Policy =
  allowServiceEditorCreateService :: bool

definition DEFAULT_POLICY :: Policy where
  "DEFAULT_POLICY = \<lparr>allowServiceEditorCreateService = False\<rparr>"

datatype AuthzResult = Authz_ok | Authz_denied string

section \<open>The decision\<close>

fun rank :: "Role \<Rightarrow> nat" where
  "rank Viewer = 0"
| "rank Service_editor = 1"
| "rank Operator = 2"
| "rank Admin = 3"

text \<open>A service name that is absent or empty is falsy.\<close>

definition falsy_name :: "string option \<Rightarrow> bool" where
  "falsy_name s = (case s of None \<Rightarrow> True | Some n \<Rightarrow> n = [])"

lemma falsy_name_simps [simp, rbac_simps]:
  "falsy_name None"
  "falsy_name (Some n) \<longleftrightarrow> n = []"
  by (simp_all add: falsy_name_def)

definition hasGlobalRole :: "User \<Rightarrow> Role \<Rightarrow> bool" where
  "hasGlobalRole user r \<longleftrightarrow>
     list_ex (\<lambda>g. falsy_name (service g) \<and> rank r \<le> rank (role g)) (grants user)"

definition isGlobalOperatorOrAdmin :: "User \<Rightarrow> bool" where
  "isGlobalOperatorOrAdmin user = hasGlobalRole user Operator"

definition canEditService :: "User \<Rightarrow> string \<Rightarrow> bool" where
  "canEditService user svc \<longleftrightarrow>
     isGlobalOperatorOrAdmin user \<or>
     list_ex (\<lambda>g. role g = Service_editor \<and> service g = Some svc) (grants user)"

text \<open>\<^verbatim>\<open>Array.from(new Set(xs))\<close> keeps the first occurrence of every element, in order.\<close>

fun uniq :: "'a list \<Rightarrow> 'a list" where
  "uniq [] = []"
| "uniq (x # xs) = x # filter (\<lambda>y. y \<noteq> x) (uniq xs)"

definition editableServices :: "User \<Rightarrow> string list" where
  "editableServices user =
     uniq (map (\<lambda>g. case service g of None \<Rightarrow> [] | Some s \<Rightarrow> s)
       (filter (\<lambda>g. role g = Service_editor \<and> \<not> falsy_name (service g)) (grants user)))"

definition authorize :: "User \<Rightarrow> Capability \<Rightarrow> string option \<Rightarrow> Policy \<Rightarrow> AuthzResult" where
  "authorize user cap svc policy =
     (let anyAuthenticated = grants user \<noteq> [] in
      case cap of
        Limits_read \<Rightarrow> if anyAuthenticated then Authz_ok else Authz_denied ''no roles''
      | Usage_read \<Rightarrow> if anyAuthenticated then Authz_ok else Authz_denied ''no roles''
      | Audit_read \<Rightarrow> if anyAuthenticated then Authz_ok else Authz_denied ''no roles''
      | Observability_read \<Rightarrow> if anyAuthenticated then Authz_ok else Authz_denied ''no roles''
      | Service_create \<Rightarrow>
          if isGlobalOperatorOrAdmin user then Authz_ok
          else (case svc of
                  Some s \<Rightarrow>
                    if allowServiceEditorCreateService policy \<and> s \<noteq> [] \<and> canEditService user s
                    then Authz_ok
                    else Authz_denied ''service creation is gated to operator/admin''
                | None \<Rightarrow> Authz_denied ''service creation is gated to operator/admin'')
      | Op_refund \<Rightarrow>
          if isGlobalOperatorOrAdmin user then Authz_ok else Authz_denied ''requires operator/admin''
      | Op_reset \<Rightarrow>
          if isGlobalOperatorOrAdmin user then Authz_ok else Authz_denied ''requires operator/admin''
      | Review_approve \<Rightarrow>
          if isGlobalOperatorOrAdmin user then Authz_ok else Authz_denied ''requires operator/admin''
      | Rbac_manage \<Rightarrow>
          if hasGlobalRole user Admin then Authz_ok else Authz_denied ''requires admin''
      | _ \<Rightarrow> \<comment> \<open>\<^verbatim>\<open>limit:write\<close>, \<^verbatim>\<open>limit:delete\<close>, \<^verbatim>\<open>service:edit\<close>\<close>
          (case svc of
             None \<Rightarrow> Authz_denied ''service required''
           | Some s \<Rightarrow>
               if s = [] then Authz_denied ''service required''
               else if canEditService user s then Authz_ok
               else Authz_denied (''not an editor of '' @ s)))"

lemmas role_checks [rbac_simps] =
  hasGlobalRole_def isGlobalOperatorOrAdmin_def canEditService_def list_ex_iff

section \<open>The permission matrix\<close>

text \<open>
  The rows of the matrix in the design document (section 1.4): a cell says whether a role has
  the capability everywhere, within the services it is scoped to, or not at all. Reading the
  audit trail is global for every role, as the comment on \<open>authorize\<close> says.
\<close>

datatype cell = Everywhere | Scoped | Never

fun matrix :: "Policy \<Rightarrow> Role \<Rightarrow> Capability \<Rightarrow> cell" where
  "matrix p r Limits_read = Everywhere"
| "matrix p r Usage_read = Everywhere"
| "matrix p r Audit_read = Everywhere"
| "matrix p r Observability_read = Everywhere"
| "matrix p Admin c = Everywhere"
| "matrix p Operator c = (if c = Rbac_manage then Never else Everywhere)"
| "matrix p Service_editor c =
     (if c \<in> {Limit_write, Limit_delete, Service_edit} then Scoped
      else if c = Service_create \<and> allowServiceEditorCreateService p then Scoped
      else Never)"
| "matrix p Viewer c = Never"

abbreviation read_capability :: "Capability \<Rightarrow> bool" where
  "read_capability c \<equiv> c \<in> {Limits_read, Usage_read, Audit_read, Observability_read}"

definition grant_allows :: "Policy \<Rightarrow> Grant \<Rightarrow> Capability \<Rightarrow> string \<Rightarrow> bool" where
  "grant_allows p g c svc =
     (case matrix p (role g) c of
        Everywhere \<Rightarrow> read_capability c \<or> falsy_name (service g)
      | Scoped \<Rightarrow> service g = Some svc
      | Never \<Rightarrow> False)"

lemma rank_ge [rbac_simps]:
  "2 \<le> rank r \<longleftrightarrow> r = Operator \<or> r = Admin"
  "3 \<le> rank r \<longleftrightarrow> r = Admin"
  by (cases r; simp)+

lemma read_allows:
  "read_capability c \<Longrightarrow> grant_allows p g c svc"
  by (cases "role g") (auto simp: grant_allows_def)

lemma operator_allows:
  "c \<in> {Op_refund, Op_reset, Review_approve} \<Longrightarrow>
     grant_allows p g c svc \<longleftrightarrow> falsy_name (service g) \<and> (role g = Operator \<or> role g = Admin)"
  by (cases "role g") (auto simp: grant_allows_def)

lemma edit_allows:
  "c \<in> {Limit_write, Limit_delete, Service_edit} \<Longrightarrow>
     grant_allows p g c svc \<longleftrightarrow>
       falsy_name (service g) \<and> (role g = Operator \<or> role g = Admin)
       \<or> role g = Service_editor \<and> service g = Some svc"
  by (cases "role g") (auto simp: grant_allows_def)

lemma create_allows:
  "grant_allows p g Service_create svc \<longleftrightarrow>
     falsy_name (service g) \<and> (role g = Operator \<or> role g = Admin)
     \<or> allowServiceEditorCreateService p \<and> role g = Service_editor \<and> service g = Some svc"
  by (cases "role g") (auto simp: grant_allows_def)

lemma admin_allows:
  "grant_allows p g Rbac_manage svc \<longleftrightarrow> falsy_name (service g) \<and> role g = Admin"
  by (cases "role g") (auto simp: grant_allows_def)

lemmas matrix_rows = read_allows operator_allows edit_allows create_allows admin_allows

lemma authorize_read_iff:
  "read_capability c \<Longrightarrow> authorize u c svc p = Authz_ok \<longleftrightarrow> grants u \<noteq> []"
  by (auto simp: authorize_def)

lemma authorize_grant_allows:
  assumes "svc \<noteq> []"
  shows "authorize u c (Some svc) p = Authz_ok \<longleftrightarrow> (\<exists>g \<in> set (grants u). grant_allows p g c svc)"
proof (cases "read_capability c")
  case True
  then have "authorize u c (Some svc) p = Authz_ok \<longleftrightarrow> (\<exists>g. g \<in> set (grants u))"
    by (simp only: authorize_read_iff ex_in_conv set_empty not_not)
  then show ?thesis using read_allows [OF True] by blast
next
  case False
  with assms show ?thesis
    by (cases c) (auto simp: authorize_def matrix_rows rbac_simps)
qed

text \<open>Without a service name only the global capabilities can be granted.\<close>

lemma authorize_no_service:
  "authorize u c None p = Authz_ok \<longleftrightarrow>
     (if read_capability c then grants u \<noteq> []
      else if c = Rbac_manage then hasGlobalRole u Admin
      else c \<notin> {Limit_write, Limit_delete, Service_edit} \<and> isGlobalOperatorOrAdmin u)"
  by (cases c) (auto simp: authorize_def)

text \<open>The routes that guard with no service ask for one of these two.\<close>

lemma authorize_approve_iff:
  "authorize u Review_approve svc p = Authz_ok \<longleftrightarrow> isGlobalOperatorOrAdmin u"
  by (simp add: authorize_def)

lemma authorize_op_iff:
  "c \<in> {Op_refund, Op_reset} \<Longrightarrow> authorize u c svc p = Authz_ok \<longleftrightarrow> isGlobalOperatorOrAdmin u"
  by (auto simp: authorize_def)

section \<open>Monotonicity and scope\<close>

lemma authorize_mono_grants:
  assumes "set (grants u) \<subseteq> set (grants v)" and "authorize u c svc p = Authz_ok"
  shows "authorize v c svc p = Authz_ok"
proof -
  have "grants u \<noteq> [] \<Longrightarrow> grants v \<noteq> []" using assms(1) by auto
  with assms show ?thesis
    by (cases c; cases svc) (auto simp: authorize_def rbac_simps split: if_splits)
qed

text \<open>
  A grant that carries a service name and is not a service-editor grant confers nothing beyond
  reading: the role check looks at unscoped grants only.
\<close>

lemma scoped_operator_only_reads:
  assumes "\<forall>g \<in> set (grants u). \<not> falsy_name (service g) \<and> role g \<noteq> Service_editor"
  shows "authorize u c svc p = Authz_ok \<longleftrightarrow> read_capability c \<and> grants u \<noteq> []"
  using assms by (cases c; cases svc) (auto simp: authorize_def rbac_simps)

lemma set_uniq [simp]: "set (uniq xs) = set xs"
  by (induction xs) auto

lemma distinct_uniq [simp]: "distinct (uniq xs)"
  by (induction xs) auto

lemma editableServices_iff:
  "s \<in> set (editableServices u) \<longleftrightarrow>
     s \<noteq> [] \<and> (\<exists>g \<in> set (grants u). role g = Service_editor \<and> service g = Some s)"
proof -
  have "s \<in> set (editableServices u) \<longleftrightarrow>
      (\<exists>g \<in> set (grants u). role g = Service_editor \<and> \<not> falsy_name (service g)
         \<and> s = (case service g of None \<Rightarrow> [] | Some s \<Rightarrow> s))"
    by (auto simp: editableServices_def)
  also have "\<dots> \<longleftrightarrow> s \<noteq> [] \<and> (\<exists>g \<in> set (grants u). role g = Service_editor \<and> service g = Some s)"
    by (auto simp: falsy_name_def split: option.splits)
  finally show ?thesis .
qed

section \<open>Properties\<close>



text \<open>
  Adding grants never takes a permission away.
\<close>

theorem authorize_monotone:
  assumes "set (grants u) \<subseteq> set (grants v)" and "authorize u c svc p = Authz_ok"
  shows "authorize v c svc p = Authz_ok"
  using assms by (rule authorize_mono_grants)

theorem authorize_monotone_witness:
  "authorize \<lparr>user_id = ''x'', email = ''x'', grants = [\<lparr>role = Viewer, service = None\<rparr>, \<lparr>role = Admin, service = None\<rparr>]\<rparr>
     Rbac_manage None DEFAULT_POLICY = Authz_ok"
  by (rule authorize_monotone [of "\<lparr>user_id = ''x'', email = ''x'', grants = [\<lparr>role = Admin, service = None\<rparr>]\<rparr>"])
     (simp_all add: authorize_def rbac_simps)

text \<open>
  A viewer, operator or admin grant that names a service confers nothing but reading: only
  a service-editor grant is scoped, any other grant counts only when it names no service.
\<close>

theorem scoped_grants_only_read:
  assumes "\<forall>g \<in> set (grants u). \<not> falsy_name (service g) \<and> role g \<noteq> Service_editor"
  shows "authorize u c svc p = Authz_ok \<longleftrightarrow> read_capability c \<and> grants u \<noteq> []"
  using assms by (rule scoped_operator_only_reads)

theorem scoped_grants_only_read_witness:
  "authorize \<lparr>user_id = ''x'', email = ''x'', grants = [\<lparr>role = Operator, service = Some ''a''\<rparr>]\<rparr>
     Op_refund (Some ''a'') DEFAULT_POLICY \<noteq> Authz_ok"
  using scoped_grants_only_read [of "\<lparr>user_id = ''x'', email = ''x'', grants = [\<lparr>role = Operator, service = Some ''a''\<rparr>]\<rparr>"]
  by simp

end
