(* ===== verification/Session.thy ===== *)
theory Session
  imports Rbac
begin

text \<open>
  The two stores of \<^verbatim>\<open>bff/src/session.ts\<close>. A user is a mutable object that the grant store and
  the live sessions share, so users live in a heap and both hold addresses: changing the grants of a
  user through the store changes what a session opened earlier may do, replacing the user does
  not. The session store maps opaque identifiers to sessions.
\<close>

section \<open>GrantStore\<close>

record GrantStore =
  heap :: "User list"
  users :: "(string, nat) jsmap"

definition user_at :: "GrantStore \<Rightarrow> nat \<Rightarrow> User" where
  "user_at g a = heap g ! a"

definition grants_alloc :: "User \<Rightarrow> GrantStore \<Rightarrow> nat \<times> GrantStore" where
  "grants_alloc u g = (length (heap g), g\<lparr>heap := heap g @ [u]\<rparr>)"

definition grants_put :: "nat \<Rightarrow> GrantStore \<Rightarrow> GrantStore" where
  "grants_put a g = g\<lparr>users := map_set (user_id (user_at g a)) a (users g)\<rparr>"

definition grants_get :: "string \<Rightarrow> GrantStore \<Rightarrow> nat option" where
  "grants_get i g = map_get (users g) i"

definition setGrants :: "string \<Rightarrow> Grant list \<Rightarrow> GrantStore \<Rightarrow> GrantStore" where
  "setGrants i gs g =
     (case map_get (users g) i of
        None \<Rightarrow> g
      | Some a \<Rightarrow> g\<lparr>heap := (heap g)[a := (user_at g a)\<lparr>grants := gs\<rparr>]\<rparr>)"

definition put_new :: "User \<Rightarrow> GrantStore \<Rightarrow> GrantStore" where
  "put_new u g = (let (a, g') = grants_alloc u g in grants_put a g')"

definition new_grants :: "User list \<Rightarrow> GrantStore" where
  "new_grants seed = fold put_new seed \<lparr>heap = [], users = []\<rparr>"

definition grants_ok :: "GrantStore \<Rightarrow> bool" where
  "grants_ok g \<longleftrightarrow> map_wf (users g)
     \<and> (\<forall>i a. map_get (users g) i = Some a \<longrightarrow> a < length (heap g) \<and> user_id (user_at g a) = i)"

lemma grants_ok_empty [simp]: "grants_ok \<lparr>heap = [], users = []\<rparr>"
  by (simp add: grants_ok_def)

lemma grants_ok_put_new: "grants_ok g \<Longrightarrow> grants_ok (put_new u g)"
  by (auto simp: grants_ok_def put_new_def grants_alloc_def grants_put_def user_at_def nth_append
      intro: less_SucI)

lemma grants_ok_setGrants: "grants_ok g \<Longrightarrow> grants_ok (setGrants i gs g)"
  by (auto simp: grants_ok_def setGrants_def user_at_def nth_list_update split: option.splits)

lemma grants_ok_new: "grants_ok (new_grants seed)"
proof -
  have "grants_ok g \<Longrightarrow> grants_ok (fold put_new seed g)" for g
    by (induction seed arbitrary: g) (auto intro: grants_ok_put_new)
  then show ?thesis by (simp add: new_grants_def)
qed

lemma user_at_put_new: "a < length (heap g) \<Longrightarrow> user_at (put_new u g) a = user_at g a"
  by (simp add: put_new_def grants_alloc_def grants_put_def user_at_def nth_append)

lemma length_heap_put_new: "length (heap (put_new u g)) = Suc (length (heap g))"
  by (simp add: put_new_def grants_alloc_def grants_put_def)

lemma length_heap_setGrants [simp]: "length (heap (setGrants i gs g)) = length (heap g)"
  by (simp add: setGrants_def split: option.splits)

lemma email_setGrants [simp]:
  "email (user_at (setGrants i gs g) a) = email (user_at g a)"
  "user_id (user_at (setGrants i gs g) a) = user_id (user_at g a)"
proof -
  have upd: "f (xs[b := (xs ! b)\<lparr>grants := gs\<rparr>] ! a) = f (xs ! a)"
    if "\<And>u. f (u\<lparr>grants := gs\<rparr>) = f u" for b xs and f :: "User \<Rightarrow> string"
    using that by (cases "b < length xs"; cases "b = a") (auto simp: list_update_beyond not_less)
  show "email (user_at (setGrants i gs g) a) = email (user_at g a)"
    "user_id (user_at (setGrants i gs g) a) = user_id (user_at g a)"
    using upd [of email] upd [of user_id]
    by (simp_all add: setGrants_def user_at_def split: option.splits)
qed

lemma put_new_get: "grants_get i (put_new u g) =
    (if i = user_id u then Some (length (heap g)) else grants_get i g)"
  by (simp add: grants_get_def put_new_def grants_alloc_def grants_put_def user_at_def)

section \<open>SessionStore\<close>

record Session =
  session_id :: string
  suser :: nat \<comment> \<open>the address of the user object\<close>
  csrfToken :: string
  sess_createdAt :: int

type_synonym session_store = "(string, Session) jsmap"

definition session_create :: "string \<Rightarrow> string \<Rightarrow> int \<Rightarrow> nat \<Rightarrow> session_store \<Rightarrow> Session \<times> session_store" where
  "session_create new_id token now user ss =
     (let s = \<lparr>session_id = new_id, suser = user, csrfToken = token, sess_createdAt = now\<rparr>
      in (s, map_set (session_id s) s ss))"

text \<open>
  The cookie parser may hand over a parsed JSON value; the lookup finds nothing for a value that is
  no string.
\<close>

definition session_get :: "jsv \<Rightarrow> session_store \<Rightarrow> Session option" where
  "session_get i ss =
     (if truthy i then (case i of JStr k \<Rightarrow> map_get ss k | _ \<Rightarrow> None) else None)"

definition session_destroy :: "jsv \<Rightarrow> session_store \<Rightarrow> session_store" where
  "session_destroy i ss =
     (if truthy i then (case i of JStr k \<Rightarrow> map_delete k ss | _ \<Rightarrow> ss) else ss)"

definition sessions_ok :: "nat \<Rightarrow> session_store \<Rightarrow> bool" where
  "sessions_ok n ss \<longleftrightarrow> map_wf ss
     \<and> (\<forall>k s. map_get ss k = Some s \<longrightarrow> session_id s = k \<and> suser s < n)"

lemma sessions_ok_empty [simp]: "sessions_ok n []"
  by (simp add: sessions_ok_def)

lemma sessions_ok_create:
  "sessions_ok n ss \<Longrightarrow> u < n \<Longrightarrow> sessions_ok n (snd (session_create i t now u ss))"
  by (auto simp: sessions_ok_def session_create_def Let_def)

lemma sessions_ok_destroy: "sessions_ok n ss \<Longrightarrow> sessions_ok n (session_destroy i ss)"
  by (auto simp: sessions_ok_def session_destroy_def simp del: map_of_eq_Some_iff
      split: jsv.splits if_splits)

lemma sessions_ok_mono: "sessions_ok n ss \<Longrightarrow> n \<le> m \<Longrightarrow> sessions_ok m ss"
  by (force simp: sessions_ok_def)

lemma session_get_Some: "session_get i ss = Some s \<longleftrightarrow> (\<exists>k. i = JStr k \<and> k \<noteq> [] \<and> map_get ss k = Some s)"
  by (cases i) (auto simp: session_get_def)

lemma session_get_ok: "sessions_ok n ss \<Longrightarrow> session_get i ss = Some s \<Longrightarrow> suser s < n"
  by (auto simp: session_get_Some sessions_ok_def)

section \<open>The contract of a store of opaque tokens\<close>

text \<open>
  What the middleware relies on: an issued token resolves to what it was issued for, a revoked
  token to nothing, and neither operation touches another token.
\<close>

locale token_store =
  fixes lookup :: "'k \<Rightarrow> 's \<Rightarrow> 'v option"
    and issue :: "'k \<Rightarrow> 'v \<Rightarrow> 's \<Rightarrow> 's"
    and revoke :: "'k \<Rightarrow> 's \<Rightarrow> 's"
    and usable :: "'k \<Rightarrow> bool"
  assumes lookup_issue: "usable k \<Longrightarrow> lookup j (issue k v s) = (if j = k then Some v else lookup j s)"
    and lookup_revoke: "lookup j (revoke k s) = (if j = k then None else lookup j s)"
begin

fun run :: "('k \<times> 'v option) list \<Rightarrow> 's \<Rightarrow> 's" where
  "run [] s = s"
| "run ((k, Some v) # ops) s = run ops (issue k v s)"
| "run ((k, None) # ops) s = run ops (revoke k s)"

lemma untouched_token:
  "k \<notin> fst ` set ops \<Longrightarrow> \<forall>(j, x) \<in> set ops. usable j \<Longrightarrow> lookup k (run ops s) = lookup k s"
  by (induction ops s rule: run.induct) (auto simp: lookup_issue lookup_revoke)

text \<open>A revoked token stays dead until it is issued again.\<close>

lemma revoked_stays_dead:
  assumes "lookup k s = None" and "\<forall>(j, x) \<in> set ops. usable j \<and> (j = k \<longrightarrow> x = None)"
  shows "lookup k (run ops s) = None"
  using assms by (induction ops s rule: run.induct) (auto simp: lookup_issue lookup_revoke split: if_splits)

lemma live_until_revoked:
  assumes "lookup k s = Some v" and "\<forall>(j, x) \<in> set ops. usable j \<and> j \<noteq> k"
  shows "lookup k (run ops s) = Some v"
  using assms untouched_token [of k ops s] by force

end

text \<open>The session store, seen through the fields a session is opened with.\<close>

definition session_lookup :: "string \<Rightarrow> session_store \<Rightarrow> (nat \<times> string \<times> int) option" where
  "session_lookup k ss =
     map_option (\<lambda>s. (suser s, csrfToken s, sess_createdAt s)) (session_get (JStr k) ss)"

definition session_issue :: "string \<Rightarrow> nat \<times> string \<times> int \<Rightarrow> session_store \<Rightarrow> session_store" where
  "session_issue k v ss = (case v of (u, t, now) \<Rightarrow> snd (session_create k t now u ss))"

interpretation sessions: token_store session_lookup session_issue
    "\<lambda>k. session_destroy (JStr k)" "\<lambda>k. k \<noteq> []"
  by unfold_locales
     (auto simp: session_lookup_def session_issue_def session_create_def session_get_def
        session_destroy_def Let_def split: prod.splits)

section \<open>Properties\<close>

text \<open>
  Changing a user's grants through the store takes effect on the sessions already open, since
  they share the user object; putting a new user object under the same id leaves them with the old
  one.
\<close>

theorem regrant_reaches_sessions:
  assumes "grants_ok g" "grants_get i g = Some a"
  shows "grants (user_at (setGrants i gs g) a) = gs
    \<and> user_at (put_new \<lparr>user_id = i, email = e, grants = gs\<rparr> g) a = user_at g a"
proof -
  have "a < length (heap g)" using assms by (simp add: grants_ok_def grants_get_def)
  then show ?thesis
    using assms(2) by (simp add: setGrants_def grants_get_def user_at_put_new) (simp add: user_at_def)
qed

theorem regrant_reaches_sessions_witness:
  "grants (user_at (setGrants ''v'' [\<lparr>role = Admin, service = None\<rparr>]
     (new_grants [\<lparr>user_id = ''v'', email = ''v'', grants = []\<rparr>])) 0) = [\<lparr>role = Admin, service = None\<rparr>]"
proof -
  have "grants_get ''v'' (new_grants [\<lparr>user_id = ''v'', email = ''v'', grants = []\<rparr>]) = Some 0"
    by (simp add: new_grants_def put_new_get)
  from regrant_reaches_sessions [OF grants_ok_new this] show ?thesis by blast
qed

end
