(* ===== verification/Async.thy ===== *)
theory Async
  imports Js_Values
begin

text \<open>
  The execution model of the server. A handler runs without interruption up to its next
  \<^verbatim>\<open>await\<close>: JavaScript has one thread, so every stretch between two awaits is atomic, and
  handlers of different requests interleave at the awaits only. An \<open>act\<close> is what is left of a
  handler after such a stretch: it has responded, it has thrown, or it waits for the reply to a
  call, and the continuation runs on the state found when the reply is delivered.
\<close>

section \<open>Suspended handlers\<close>

datatype ('c, 'r, 's, 'v) act =
    Respond 'v
  | Throw js_error
  | Await 'c "'r \<Rightarrow> 's \<Rightarrow> 's \<times> ('c, 'r, 's, 'v) act"

datatype ('q, 'c, 'r) event =
    Arrived nat 'q
  | Issued nat 'c
  | Settled nat 'c 'r

record ('q, 'c, 'r, 's, 'v) server =
  store :: 's
  threads :: "('c, 'r, 's, 'v) act list"
  trace :: "('q, 'c, 'r) event list"

definition boot :: "'s \<Rightarrow> ('q, 'c, 'r, 's, 'v) server" where
  "boot s = \<lparr>store = s, threads = [], trace = []\<rparr>"

definition issues :: "nat \<Rightarrow> ('c, 'r, 's, 'v) act \<Rightarrow> ('q, 'c, 'r) event list" where
  "issues t a = (case a of Await c k \<Rightarrow> [Issued t c] | _ \<Rightarrow> [])"

lemma issues_simps [simp]:
  "issues t (Respond v) = []"
  "issues t (Throw e) = []"
  "issues t (Await c k) = [Issued t c]"
  by (simp_all add: issues_def)

text \<open>
  One step: a request arrives and its handler runs up to the first await; a reply, whatever it
  is, is delivered to a waiting handler; or somebody outside the handlers changes the state.
\<close>

inductive step ::
  "('q \<Rightarrow> 's \<Rightarrow> 's \<times> ('c, 'r, 's, 'v) act) \<Rightarrow> ('s \<Rightarrow> 's \<Rightarrow> bool)
   \<Rightarrow> ('q, 'c, 'r, 's, 'v) server \<Rightarrow> ('q, 'c, 'r, 's, 'v) server \<Rightarrow> bool"
  for serve outside where
  arrive: "serve q (store w) = (s, a) \<Longrightarrow>
    step serve outside w
      (w\<lparr>store := s, threads := threads w @ [a],
         trace := trace w @ Arrived (length (threads w)) q # issues (length (threads w)) a\<rparr>)"
| settle: "t < length (threads w) \<Longrightarrow> threads w ! t = Await c k \<Longrightarrow> k r (store w) = (s, a) \<Longrightarrow>
    step serve outside w
      (w\<lparr>store := s, threads := (threads w)[t := a],
         trace := trace w @ Settled t c r # issues t a\<rparr>)"
| other: "outside (store w) s \<Longrightarrow> step serve outside w (w\<lparr>store := s\<rparr>)"

inductive reachable ::
  "('q \<Rightarrow> 's \<Rightarrow> 's \<times> ('c, 'r, 's, 'v) act) \<Rightarrow> ('s \<Rightarrow> 's \<Rightarrow> bool)
   \<Rightarrow> 's \<Rightarrow> ('q, 'c, 'r, 's, 'v) server \<Rightarrow> bool"
  for serve outside s0 where
  init: "reachable serve outside s0 (boot s0)"
| more: "reachable serve outside s0 w \<Longrightarrow> step serve outside w w' \<Longrightarrow> reachable serve outside s0 w'"

inductive_cases step_cases: "step serve outside w w'"

text \<open>Running on: the next arrival, and the next reply.\<close>

lemma reachable_arrive:
  assumes "reachable serve outside s0 w" "serve q (store w) = (s, a)"
  obtains w' where "reachable serve outside s0 w'" "store w' = s" "threads w' = threads w @ [a]"
    "trace w' = trace w @ Arrived (length (threads w)) q # issues (length (threads w)) a"
  using that [OF reachable.more [OF assms(1) step.arrive [where serve = serve and q = q and w = w, OF assms(2)]]]
  by simp

lemma reachable_settle:
  assumes "reachable serve outside s0 w" "t < length (threads w)" "threads w ! t = Await c k" "k r (store w) = (s, a)"
  obtains w' where "reachable serve outside s0 w'" "store w' = s" "threads w' = (threads w)[t := a]"
    "trace w' = trace w @ Settled t c r # issues t a"
  using that [OF reachable.more [OF assms(1) step.settle [where w = w, OF assms(2-4)]]] by simp

text \<open>A run given by a script: what arrives, and which reply is delivered to which handler.\<close>

datatype ('q, 'r) cue = Input 'q | Reply nat 'r

fun play ::
  "('q \<Rightarrow> 's \<Rightarrow> 's \<times> ('c, 'r, 's, 'v) act) \<Rightarrow> ('q, 'r) cue \<Rightarrow> ('q, 'c, 'r, 's, 'v) server
   \<Rightarrow> ('q, 'c, 'r, 's, 'v) server" where
  "play serve (Input q) w =
     (let (s, a) = serve q (store w)
      in w\<lparr>store := s, threads := threads w @ [a],
           trace := trace w @ Arrived (length (threads w)) q # issues (length (threads w)) a\<rparr>)"
| "play serve (Reply t r) w =
     (if t < length (threads w)
      then (case threads w ! t of
              Await c k \<Rightarrow>
                let (s, a) = k r (store w)
                in w\<lparr>store := s, threads := (threads w)[t := a], trace := trace w @ Settled t c r # issues t a\<rparr>
            | _ \<Rightarrow> w)
      else w)"

lemma reachable_play: "reachable serve outside s0 w \<Longrightarrow> reachable serve outside s0 (play serve c w)"
proof (induction serve c w rule: play.induct)
  case (1 serve q w)
  then show ?case by (auto intro!: reachable.more [OF _ step.arrive] split: prod.split)
next
  case (2 serve t r w)
  then show ?case by (auto intro!: reachable.more [OF _ step.settle] split: act.split prod.split)
qed

lemma reachable_script: "reachable serve outside s0 w \<Longrightarrow> reachable serve outside s0 (fold (play serve) cs w)"
  by (induction cs arbitrary: w) (simp_all add: reachable_play)

section \<open>Rely and guarantee\<close>

text \<open>
  \<open>conforms may pre guar a\<close>: whatever reply each continuation of \<open>a\<close> is resumed with, in a
  state that satisfies \<open>pre\<close>, every call it goes on to make is one of \<open>may\<close>, and each of its atomic
  stretches changes the state as \<open>guar\<close> allows for the call and the reply that resumed it.
\<close>

inductive conforms ::
  "('c \<Rightarrow> bool) \<Rightarrow> ('s \<Rightarrow> bool) \<Rightarrow> ('c \<Rightarrow> 'r \<Rightarrow> 's \<Rightarrow> 's \<Rightarrow> bool) \<Rightarrow> ('c, 'r, 's, 'v) act \<Rightarrow> bool"
  for may pre guar where
  Respond: "conforms may pre guar (Respond v)"
| Throw: "conforms may pre guar (Throw e)"
| Await: "may c \<Longrightarrow>
    (\<And>r s. pre s \<Longrightarrow> guar c r s (fst (k r s)) \<and> conforms may pre guar (snd (k r s))) \<Longrightarrow>
    conforms may pre guar (Await c k)"

inductive_simps conforms_Await: "conforms may pre guar (Await c k)"

declare conforms.Respond [simp, intro] conforms.Throw [simp, intro]

lemma conforms_mono:
  assumes "conforms may pre guar a" and "\<And>c. may c \<Longrightarrow> may' c" and "\<And>s. pre' s \<Longrightarrow> pre s"
    and "\<And>c r s s'. may c \<Longrightarrow> pre s \<Longrightarrow> guar c r s s' \<Longrightarrow> guar' c r s s'"
  shows "conforms may' pre' guar' a"
  using assms by (induction rule: conforms.induct) (auto intro: conforms.intros)

text \<open>
  The contract between the handlers and the server that interleaves them. Each arriving request
  gets a licence: the calls it may make and what it may assume of the state, given the state its
  first stretch leaves. Licences survive whatever the other handlers do, as long as they keep to
  the guarantee.
\<close>

locale licensed_server =
  fixes serve :: "'q \<Rightarrow> 's \<Rightarrow> 's \<times> ('c, 'r, 's, 'v) act"
    and outside :: "'s \<Rightarrow> 's \<Rightarrow> bool"
    and inv :: "'s \<Rightarrow> bool"
    and licence :: "'s \<Rightarrow> ('c \<Rightarrow> bool) \<Rightarrow> ('s \<Rightarrow> bool) \<Rightarrow> bool"
    and guar :: "'c \<Rightarrow> 'r \<Rightarrow> 's \<Rightarrow> 's \<Rightarrow> bool"
  assumes serve_ok: "inv s \<Longrightarrow> serve q s = (s', a) \<Longrightarrow>
      inv s' \<and> (\<exists>may pre. licence s' may pre \<and> conforms may pre guar a)"
    and licence_pre: "licence s may pre \<Longrightarrow> pre s"
    and serve_keeps: "inv s \<Longrightarrow> serve q s = (s', a) \<Longrightarrow> licence s may pre \<Longrightarrow> licence s' may pre"
    and guar_ok: "inv s \<Longrightarrow> guar c r s s' \<Longrightarrow> inv s'"
    and guar_keeps: "inv s \<Longrightarrow> guar c r s s' \<Longrightarrow> licence s may pre \<Longrightarrow> licence s' may pre"
    and outside_ok: "inv s \<Longrightarrow> outside s s' \<Longrightarrow> inv s'"
    and outside_keeps: "inv s \<Longrightarrow> outside s s' \<Longrightarrow> licence s may pre \<Longrightarrow> licence s' may pre"
begin

definition licensed :: "'s \<Rightarrow> ('c, 'r, 's, 'v) act \<Rightarrow> bool" where
  "licensed s a \<longleftrightarrow> (\<exists>may pre. licence s may pre \<and> conforms may pre guar a)"

definition call_licensed :: "'s \<Rightarrow> 'c \<Rightarrow> bool" where
  "call_licensed s c \<longleftrightarrow> (\<exists>may pre. licence s may pre \<and> may c)"

definition good :: "('q, 'c, 'r, 's, 'v) server \<Rightarrow> bool" where
  "good w \<longleftrightarrow> inv (store w) \<and> (\<forall>a \<in> set (threads w). licensed (store w) a)
     \<and> (\<forall>t c. Issued t c \<in> set (trace w) \<longrightarrow> call_licensed (store w) c)"

lemma licensed_issue: "licensed s (Await c k) \<Longrightarrow> call_licensed s c"
  by (auto simp: licensed_def call_licensed_def conforms_Await)

lemma issued_new: "Issued t c \<in> set (issues t' a) \<Longrightarrow> licensed s a \<Longrightarrow> call_licensed s c"
  by (cases a) (auto intro: licensed_issue)

lemma good_change:
  assumes "good w" and "\<And>may pre. licence (store w) may pre \<Longrightarrow> licence s may pre" and "inv s"
    and "\<And>a. a \<in> set ts \<Longrightarrow> a \<in> set (threads w) \<or> licensed s a"
    and "\<And>t c. Issued t c \<in> set tr \<Longrightarrow> Issued t c \<in> set (trace w) \<or> call_licensed s c"
  shows "good \<lparr>store = s, threads = ts, trace = tr\<rparr>"
proof -
  have "licensed (store w) a \<Longrightarrow> licensed s a" for a
    using assms(2) by (auto simp: licensed_def)
  moreover have "call_licensed (store w) c \<Longrightarrow> call_licensed s c" for c
    using assms(2) by (auto simp: call_licensed_def)
  ultimately show ?thesis using assms(1,3) assms(4,5)
    unfolding good_def server.simps by blast
qed

lemma good_step:
  assumes "good w" and "step serve outside w w'"
  shows "good w'"
  using assms(2)
proof cases
  case (arrive q s a)
  have inv: "inv (store w)" using assms(1) by (simp add: good_def)
  have new: "inv s" "licensed s a"
    using serve_ok [OF inv arrive(2)] by (auto simp: licensed_def)
  have w': "w' = \<lparr>store = s, threads = threads w @ [a],
      trace = trace w @ Arrived (length (threads w)) q # issues (length (threads w)) a\<rparr>"
    using arrive(1) by simp
  show ?thesis unfolding w'
    using new issued_new [OF _ new(2)]
    by (intro good_change [OF assms(1) serve_keeps [OF inv arrive(2)] new(1)]) auto
next
  case (settle t c k r s a)
  have inv: "inv (store w)" using assms(1) by (simp add: good_def)
  have "Await c k \<in> set (threads w)" using nth_mem [OF settle(2)] settle(3) by simp
  then have "licensed (store w) (Await c k)" using assms(1) by (simp add: good_def)
  then obtain may pre where may: "licence (store w) may pre" "conforms may pre guar (Await c k)"
    by (auto simp: licensed_def)
  then have "guar c r (store w) (fst (k r (store w))) \<and> conforms may pre guar (snd (k r (store w)))"
    using licence_pre [OF may(1)] by (simp add: conforms_Await)
  then have g: "guar c r (store w) s" "conforms may pre guar a" by (simp_all add: settle(4))
  have new: "inv s" "licensed s a"
    using guar_ok [OF inv g(1)] guar_keeps [OF inv g(1) may(1)] g(2) by (auto simp: licensed_def)
  have w': "w' = \<lparr>store = s, threads = (threads w)[t := a],
      trace = trace w @ Settled t c r # issues t a\<rparr>"
    using settle(1) by simp
  show ?thesis unfolding w'
    using new issued_new [OF _ new(2)] set_update_subset_insert [of "threads w" t a]
    by (intro good_change [OF assms(1) guar_keeps [OF inv g(1)] new(1)]) auto
next
  case (other s)
  have inv: "inv (store w)" using assms(1) by (simp add: good_def)
  have w': "w' = \<lparr>store = s, threads = threads w, trace = trace w\<rparr>" using other(1) by simp
  show ?thesis unfolding w'
    by (rule good_change [OF assms(1) outside_keeps [OF inv other(2)] outside_ok [OF inv other(2)]]) auto
qed

lemma good_reachable: "inv s0 \<Longrightarrow> reachable serve outside s0 w \<Longrightarrow> good w"
proof (rotate_tac, induction rule: reachable.induct)
  case init
  then show ?case by (simp add: good_def boot_def)
next
  case (more w w')
  then show ?case by (blast intro: good_step)
qed

lemma settle_guar:
  assumes "good w" "t < length (threads w)" "threads w ! t = Await c k" "k r (store w) = (s, a)"
  shows "guar c r (store w) s"
proof -
  have "Await c k \<in> set (threads w)" using nth_mem [OF assms(2)] assms(3) by simp
  then have "licensed (store w) (Await c k)" using assms(1) by (simp add: good_def)
  then have "guar c r (store w) (fst (k r (store w)))"
    by (auto simp: licensed_def conforms_Await dest: licence_pre)
  then show ?thesis by (simp add: assms(4))
qed

text \<open>What every step of a run amounts to.\<close>

lemma step_is:
  assumes "good w" "step serve outside w w'"
  obtains (arrived) q a where "serve q (store w) = (store w', a)"
  | (settled) c r where "guar c r (store w) (store w')"
  | (changed) "outside (store w) (store w')"
  using assms(2)
proof cases
  case (settle t c k r s a)
  then show ?thesis using settle_guar [OF assms(1) settle(2-4)] settled by simp
qed (use arrived changed in auto)

text \<open>A relation that every step respects, and that is a preorder, relates the ends of every run.\<close>

lemma run_relates:
  assumes "inv s0" "reachable serve outside s0 w" "(step serve outside)\<^sup>*\<^sup>* w w'"
    and "\<And>q s s' a. inv s \<Longrightarrow> serve q s = (s', a) \<Longrightarrow> rel s s'"
    and "\<And>c r s s'. inv s \<Longrightarrow> guar c r s s' \<Longrightarrow> rel s s'"
    and "\<And>s s'. inv s \<Longrightarrow> outside s s' \<Longrightarrow> rel s s'"
    and "\<And>s. rel s s" "\<And>s t u. rel s t \<Longrightarrow> rel t u \<Longrightarrow> rel s u"
  shows "rel (store w) (store w')"
  using assms(3)
proof (induction rule: rtranclp_induct)
  case (step v v')
  have "reachable serve outside s0 v" using step.hyps(1)
    by (induction rule: rtranclp_induct) (use assms(2) in \<open>auto intro: reachable.more\<close>)
  then have g: "good v" using good_reachable assms(1) by blast
  then have "inv (store v)" by (simp add: good_def)
  then have "rel (store v) (store v')" using step_is [OF g step.hyps(2)] assms(4-6) by metis
  with step.IH show ?case by (rule assms(8))
qed (rule assms(7))

text \<open>The two facts the clients use.\<close>

lemma reachable_inv: "inv s0 \<Longrightarrow> reachable serve outside s0 w \<Longrightarrow> inv (store w)"
  using good_reachable by (auto simp: good_def)

lemma every_call_licensed:
  "inv s0 \<Longrightarrow> reachable serve outside s0 w \<Longrightarrow> Issued t c \<in> set (trace w) \<Longrightarrow>
     \<exists>may pre. licence (store w) may pre \<and> may c"
  using good_reachable by (fastforce simp: good_def call_licensed_def)

end

section \<open>Accounting for what was applied\<close>

text \<open>The replies delivered so far, each with the call it answers, in order of delivery.\<close>

fun settlements :: "('q, 'c, 'r) event list \<Rightarrow> ('c \<times> 'r) list" where
  "settlements [] = []"
| "settlements (Settled t c r # es) = (c, r) # settlements es"
| "settlements (e # es) = settlements es"

lemma settlements_append [simp]: "settlements (xs @ ys) = settlements xs @ settlements ys"
  by (induction xs rule: settlements.induct) auto

lemma settlements_issues [simp]: "settlements (issues t a) = []"
  by (cases a) auto

text \<open>
  A licensed server that keeps a book: it is written to only when a reply is delivered, and what
  is written then is determined by the call and the reply up to \<open>effect\<close>.
\<close>

locale bookkeeping_server = licensed_server serve outside inv licence guar
  for serve :: "'q \<Rightarrow> 's \<Rightarrow> 's \<times> ('c, 'r, 's, 'v) act" and outside inv licence guar +
  fixes book :: "'s \<Rightarrow> 'e list"
    and effect :: "'c \<Rightarrow> 'r \<Rightarrow> 'e list \<Rightarrow> bool"
  assumes serve_book: "inv s \<Longrightarrow> serve q s = (s', a) \<Longrightarrow> book s' = book s"
    and guar_book: "inv s \<Longrightarrow> guar c r s s' \<Longrightarrow> \<exists>es. book s' = book s @ es \<and> effect c r es"
    and outside_book: "inv s \<Longrightarrow> outside s s' \<Longrightarrow> book s' = book s"
begin

definition accounted :: "'e list \<Rightarrow> ('q, 'c, 'r, 's, 'v) server \<Rightarrow> bool" where
  "accounted b0 w \<longleftrightarrow> (\<exists>ess. book (store w) = b0 @ concat ess
     \<and> list_all2 (\<lambda>(c, r) es. effect c r es) (settlements (trace w)) ess)"

lemma accounted_step:
  assumes "good w" "accounted b0 w" and "step serve outside w w'"
  shows "accounted b0 w'"
proof -
  have inv: "inv (store w)" using assms(1) by (simp add: good_def)
  from assms(3) show ?thesis
  proof cases
    case (arrive q s a)
    then show ?thesis using assms(2) serve_book [OF inv] by (auto simp: accounted_def)
  next
    case (settle t c k r s a)
    obtain es where es: "book s = book (store w) @ es" "effect c r es"
      using guar_book [OF inv settle_guar [OF assms(1) settle(2-4)]] by blast
    obtain ess where ess: "book (store w) = b0 @ concat ess"
        "list_all2 (\<lambda>(c, r) es. effect c r es) (settlements (trace w)) ess"
      using assms(2) by (auto simp: accounted_def)
    have "book s = b0 @ concat (ess @ [es])" by (simp add: es ess)
    moreover have "list_all2 (\<lambda>(c, r) es. effect c r es)
        (settlements (trace w) @ [(c, r)]) (ess @ [es])"
      using ess(2) es(2) by (simp add: list_all2_appendI)
    ultimately show ?thesis using settle(1)
      by (auto simp: accounted_def intro!: exI [of _ "ess @ [es]"])
  next
    case (other s)
    then show ?thesis using assms(2) outside_book [OF inv] by (auto simp: accounted_def)
  qed
qed

lemma reachable_accounted:
  assumes "inv s0" "reachable serve outside s0 w"
  shows "accounted (book s0) w"
  using assms(2)
proof (induction rule: reachable.induct)
  case init
  show ?case by (simp add: accounted_def boot_def)
next
  case (more w w')
  then show ?case using accounted_step good_reachable [OF assms(1)] by blast
qed

lemma books_balance:
  assumes "inv s0" "reachable serve outside s0 w"
  obtains ess where "book (store w) = book s0 @ concat ess"
    "list_all2 (\<lambda>(c, r) es. effect c r es) (settlements (trace w)) ess"
  using reachable_accounted [OF assms] by (auto simp: accounted_def)

end

end
