(* ===== verification/Http.thy ===== *)
theory Http
  imports Rpc Reviews Action_Log Session Async
begin

text \<open>
  The vocabulary of the request handlers: the dependency bundle of \<^verbatim>\<open>bff/src/deps.ts\<close>, the mutable
  state behind it, requests and responses, and the few things every handler does: read the
  clock, draw random bytes, append to the action log, call a backend, guard and respond
  (\<^verbatim>\<open>bff/src/routes/util.ts\<close>).
\<close>

section \<open>Dependencies and state\<close>

datatype AuthMode = Dev | Oidc

text \<open>
  \<open>hex n i\<close> is the text of the \<open>i\<close>-th draw of \<open>n\<close> random bytes, \<open>clock i\<close> the \<open>i\<close>-th reading of
  the clock in milliseconds, \<open>date_parse\<close> the implementation-defined \<^verbatim>\<open>Date.parse\<close>.
\<close>

record Deps =
  authMode :: AuthMode
  policy :: Policy
  reviewPolicy :: ReviewPolicy
  cookie_secure_var :: "string option" \<comment> \<open>the variable \<^verbatim>\<open>COOKIE_SECURE\<close>\<close>
  node_env_var :: "string option" \<comment> \<open>the variable \<^verbatim>\<open>NODE_ENV\<close>\<close>
  hex :: "nat \<Rightarrow> nat \<Rightarrow> string"
  clock :: "nat \<Rightarrow> int"
  date_parse :: "string \<Rightarrow> jsnum"

record bff =
  gstore :: GrantStore
  sessions :: session_store
  reviews :: review_store
  action_log :: ActionLog
  draws :: nat
  ticks :: nat

definition makeDeps :: "AuthMode option \<Rightarrow> string option \<Rightarrow> Policy option \<Rightarrow> ReviewPolicy option \<Rightarrow> Deps \<Rightarrow> Deps" where
  "makeDeps mode auth_mode_var p rp base =
     base\<lparr>authMode := (case mode of Some m \<Rightarrow> m
                       | None \<Rightarrow> if auth_mode_var = Some ''oidc'' then Oidc else Dev),
          policy := (case p of Some x \<Rightarrow> x | None \<Rightarrow> DEFAULT_POLICY),
          reviewPolicy := (case rp of Some x \<Rightarrow> x | None \<Rightarrow> DEFAULT_REVIEW_POLICY)\<rparr>"

definition new_state :: "GrantStore \<Rightarrow> bff" where
  "new_state g = \<lparr>gstore = g, sessions = [], reviews = [], action_log = new_log, draws = 0, ticks = 0\<rparr>"

text \<open>\<^verbatim>\<open>randomBytes(n).toString("hex")\<close>, \<^verbatim>\<open>Date.now()\<close> and \<^verbatim>\<open>new Date().toISOString()\<close>.\<close>

definition random_hex :: "Deps \<Rightarrow> nat \<Rightarrow> bff \<Rightarrow> string \<times> bff" where
  "random_hex d n s = (hex d n (draws s), s\<lparr>draws := Suc (draws s)\<rparr>)"

definition date_now :: "Deps \<Rightarrow> bff \<Rightarrow> int \<times> bff" where
  "date_now d s = (clock d (ticks s), s\<lparr>ticks := Suc (ticks s)\<rparr>)"

definition iso_now :: "Deps \<Rightarrow> bff \<Rightarrow> string \<times> bff" where
  "iso_now d s = (let (t, s') = date_now d s in (iso_of_ms t, s'))"

section \<open>Requests and responses\<close>

datatype Method = GET | HEAD | POST | PUT | PATCH | DELETE | OTHER string

text \<open>
  A request as the middleware of \<^verbatim>\<open>createApp\<close> finds it. \<open>path\<close> holds the segments of the path
  between slashes, \<open>body\<close> what \<^verbatim>\<open>express.json()\<close> made of the body (the message of its error on the
  left), \<open>cookies\<close> what the cookie parser made of the \<^verbatim>\<open>Cookie\<close> header.
\<close>

record Request =
  meth :: Method
  path :: "string list"
  query :: jsv
  body :: "string + jsv"
  cookies :: "(string \<times> jsv) list"
  headers :: "(string \<times> string) list"

record RefundResult =
  rr_remaining :: jsnum
  rr_limit :: jsnum
  rr_reset_at :: "string option"
  rr_request_id :: string

record SessionPayload =
  sp_id :: string
  sp_email :: string
  sp_grants :: "Grant list"
  sp_editable :: "string list"
  sp_csrf :: string

text \<open>What applying a reviewed operation returns.\<close>

datatype op_result = Res_limit LimitView | Res_none | Res_refund RefundResult | Res_usage UsageView

datatype Payload =
    P_error string
  | P_forbidden string
  | P_errors "string list"
  | P_rpc_error string "int option"
  | P_health
  | P_ok
  | P_session SessionPayload
  | P_limits "LimitView list" "string option"
  | P_resolved LimitView
  | P_unconfigured limit_key
  | P_limit LimitView
  | P_pending_review Review
  | P_empty
  | P_refund RefundResult
  | P_usage UsageView
  | P_reviews "Review list"
  | P_approved Review op_result
  | P_rejected Review
  | P_services "ServiceView list" "string option"
  | P_service ServiceView
  | P_audit "AuditView list" "string option"
  | P_history "AuditView list"
  | P_actionlog "ActionLogEntry list"
  | P_static
  | P_index
  | P_express \<comment> \<open>the default reply of Express\<close>

record Cookie =
  cookie_name :: string
  cookie_value :: string
  httpOnly :: bool
  sameSite :: string
  secure :: bool
  cookie_path :: string

datatype cookie_change = Set_cookie Cookie | Clear_cookie string string

record Response =
  code :: nat
  payload :: Payload
  cookie_changes :: "cookie_change list"

definition reply :: "nat \<Rightarrow> Payload \<Rightarrow> Response" where
  "reply n p = \<lparr>code = n, payload = p, cookie_changes = []\<rparr>"

lemma reply_simps [simp]: "code (reply n p) = n" "payload (reply n p) = p" "cookie_changes (reply n p) = []"
  by (simp_all add: reply_def)

section \<open>Handlers\<close>

type_synonym bff_act = "(rpc_call, rpc_reply, bff, Response) act"

type_synonym 'a cont = "'a \<Rightarrow> bff \<Rightarrow> bff \<times> bff_act"

definition respond :: "nat \<Rightarrow> Payload \<Rightarrow> bff \<Rightarrow> bff \<times> bff_act" where
  "respond n p s = (s, Respond (reply n p))"

text \<open>A stretch of code that may throw: the rest runs on its result.\<close>

definition try_do :: "'a js \<Rightarrow> 'a cont \<Rightarrow> bff \<Rightarrow> bff \<times> bff_act" where
  "try_do x k s = (case x of Inl e \<Rightarrow> (s, Throw e) | Inr a \<Rightarrow> k a s)"

lemma try_do_simps [simp]: "try_do (Inl e) k s = (s, Throw e)" "try_do (Inr a) k s = k a s"
  by (simp_all add: try_do_def)

text \<open>
  \<^verbatim>\<open>await call(...)\<close>, with what is to be done when it resolves and when it is rejected.
\<close>

definition call_or :: "rpc_call \<Rightarrow> rpc_response cont \<Rightarrow> js_error cont \<Rightarrow> bff \<Rightarrow> bff \<times> bff_act" where
  "call_or c k h s =
     (case no_such_rpc c of
        Some e \<Rightarrow> h e s
      | None \<Rightarrow>
          (s, Await c (\<lambda>r s'. case call_result r of Inl e \<Rightarrow> h e s' | Inr res \<Rightarrow> k res s')))"

definition throw :: "js_error cont" where
  "throw e s = (s, Throw e)"

definition call :: "rpc_call \<Rightarrow> rpc_response cont \<Rightarrow> bff \<Rightarrow> bff \<times> bff_act" where
  "call c k = call_or c k throw"

definition quotamgmt :: "rpc_request \<Rightarrow> (string \<times> string) list \<Rightarrow> rpc_call" where
  "quotamgmt q md = \<lparr>backend = Quotamgmt, request = q, metadata = md\<rparr>"

definition quotaenforcer :: "rpc_request \<Rightarrow> (string \<times> string) list \<Rightarrow> rpc_call" where
  "quotaenforcer q md = \<lparr>backend = Quotaenforcer, request = q, metadata = md\<rparr>"

lemma rpc_call_simps [simp]:
  "request (quotamgmt q md) = q" "metadata (quotamgmt q md) = md" "backend (quotamgmt q md) = Quotamgmt"
  "request (quotaenforcer q md) = q" "metadata (quotaenforcer q md) = md"
  "backend (quotaenforcer q md) = Quotaenforcer"
  by (simp_all add: quotamgmt_def quotaenforcer_def)

definition append_log :: "Deps \<Rightarrow> NewEntry \<Rightarrow> bff \<Rightarrow> bff" where
  "append_log d e s =
     (let (now, s') = iso_now d s
      in s'\<lparr>action_log := snd (log_append now e (action_log s'))\<rparr>)"

definition session_user :: "bff \<Rightarrow> Session \<Rightarrow> User" where
  "session_user s sess = user_at (gstore s) (suser sess)"

definition guard ::
  "Deps \<Rightarrow> Session \<Rightarrow> Capability \<Rightarrow> string option \<Rightarrow> (bff \<Rightarrow> bff \<times> bff_act) \<Rightarrow> bff \<Rightarrow> bff \<times> bff_act" where
  "guard d sess cap svc k s =
     (case authorize (session_user s sess) cap svc (policy d) of
        Authz_ok \<Rightarrow> k s
      | Authz_denied why \<Rightarrow> respond 403 (P_forbidden why) s)"

text \<open>
  \<^verbatim>\<open>errorMiddleware\<close>: nothing has been sent when a handler throws, since responding is the last
  thing each of them does.
\<close>

fun errorMiddleware :: "js_error \<Rightarrow> Response" where
  "errorMiddleware (RpcError http message c) = reply http (P_rpc_error message c)"
| "errorMiddleware (OtherError message) = reply 500 (P_error message)"

text \<open>The response a finished handler has produced.\<close>

fun outcome :: "bff_act \<Rightarrow> Response option" where
  "outcome (Respond r) = Some r"
| "outcome (Throw e) = Some (errorMiddleware e)"
| "outcome (Await c k) = None"

lemma call_or_well_addressed [simp]:
  "well_addressed c \<Longrightarrow> call_or c k h s =
     (s, Await c (\<lambda>r s'. case call_result r of Inl e \<Rightarrow> h e s' | Inr res \<Rightarrow> k res s'))"
  by (simp add: call_or_def)

lemma well_addressed_simps [simp]:
  "well_addressed (quotamgmt q md) \<longleftrightarrow> (case q of Refund _ _ _ \<Rightarrow> False | GetUsage _ \<Rightarrow> False | _ \<Rightarrow> True)"
  "well_addressed (quotaenforcer q md) \<longleftrightarrow> (case q of Refund _ _ _ \<Rightarrow> True | GetUsage _ \<Rightarrow> True | _ \<Rightarrow> False)"
  by (cases q; simp add: well_addressed_def quotamgmt_def quotaenforcer_def)+

end
