(* ===== verification/Operations.thy ===== *)
theory Operations
  imports Http
begin

text \<open>
  \<^verbatim>\<open>bff/src/operations.ts\<close>: the operations that change something in a backend. Each sends the
  call with the actor in its metadata and, once the backend has accepted it, appends an entry to
  the action log. The continuation \<open>k\<close> is the caller's code after the \<^verbatim>\<open>await\<close>.
\<close>

section \<open>Operations\<close>

record OpContext =
  ctx_actor :: string
  ctx_initiator :: "string option"
  ctx_approver :: "string option"

text \<open>\<^verbatim>\<open>key(input)\<close> drops every other field of its argument.\<close>

definition key :: "'a limit_key_scheme \<Rightarrow> limit_key" where
  "key v = \<lparr>service_name = service_name v, customer_id = customer_id v, rate_limit_id = rate_limit_id v\<rparr>"

definition reqId :: "Deps \<Rightarrow> bff \<Rightarrow> string \<times> bff" where
  "reqId d s = (let (h, s') = random_hex d 8 s in (''quotaui-'' @ h, s'))"

definition entry_of :: "OpContext \<Rightarrow> string \<Rightarrow> limit_key \<Rightarrow> log_details option \<Rightarrow> string option \<Rightarrow> NewEntry" where
  "entry_of ctx act k det rq =
     \<lparr>actor = ctx_actor ctx, action = act, target = Target_key k, details = det, request_id = rq,
      log_initiator = ctx_initiator ctx, log_approver = ctx_approver ctx\<rparr>"

definition createLimit ::
  "Deps \<Rightarrow> OpContext \<Rightarrow> ValidatedLimit \<Rightarrow> LimitView cont \<Rightarrow> bff \<Rightarrow> bff \<times> bff_act" where
  "createLimit d ctx v k =
     call (quotamgmt (CreateLimit (key v) (limit_value v) (time_unit v)) (actorMetadata (ctx_actor ctx)))
       (\<lambda>res s.
         let s' = append_log d (entry_of ctx ''limit:create'' (key v)
                    (Some (Detail_limit (limit_value v) (time_unit v))) None) s
         in try_do (toLimitView (res_limit res) None) k s')"

definition updateLimit ::
  "Deps \<Rightarrow> OpContext \<Rightarrow> limit_key \<Rightarrow> jsnum \<Rightarrow> string \<Rightarrow> bool option \<Rightarrow> LimitView cont \<Rightarrow> bff \<Rightarrow> bff \<times> bff_act" where
  "updateLimit d ctx lk lv tu create_if_absent k =
     call (quotamgmt (UpdateLimit lk lv tu (case create_if_absent of Some b \<Rightarrow> b | None \<Rightarrow> False))
            (actorMetadata (ctx_actor ctx)))
       (\<lambda>res s.
         let s' = append_log d (entry_of ctx ''limit:update'' lk (Some (Detail_limit lv tu)) None) s
         in try_do (toLimitView (res_limit res) None) k s')"

definition deleteLimit ::
  "Deps \<Rightarrow> OpContext \<Rightarrow> limit_key \<Rightarrow> bool option \<Rightarrow> unit cont \<Rightarrow> bff \<Rightarrow> bff \<times> bff_act" where
  "deleteLimit d ctx lk allow_missing k =
     call (quotamgmt (DeleteLimit lk (case allow_missing of Some b \<Rightarrow> b | None \<Rightarrow> False))
            (actorMetadata (ctx_actor ctx)))
       (\<lambda>res s. k () (append_log d (entry_of ctx ''limit:delete'' lk None None) s))"

definition refund ::
  "Deps \<Rightarrow> OpContext \<Rightarrow> limit_key \<Rightarrow> jsnum \<Rightarrow> RefundResult cont \<Rightarrow> bff \<Rightarrow> bff \<times> bff_act" where
  "refund d ctx lk amount k s0 =
     (let (rq, s1) = reqId d s0 in
      call (quotaenforcer (Refund lk amount rq) (actorMetadata (ctx_actor ctx)))
        (\<lambda>res s.
          let s' = append_log d (entry_of ctx ''op:refund'' lk (Some (Detail_amount amount)) (Some rq)) s;
              raw = res_refund res
          in try_do
               (then_do (js_Number (ref_remaining raw)) (\<lambda>rem.
                then_do (js_Number (ref_limit raw)) (\<lambda>lim.
                then_do (timestampToIso (ref_reset_at raw)) (\<lambda>reset.
                  Inr \<lparr>rr_remaining = rem, rr_limit = lim, rr_reset_at = reset, rr_request_id = rq\<rparr>))))
               k s') s1)"

text \<open>\<^verbatim>\<open>Math.max(n, 0)\<close>\<close>

definition max_zero :: "jsnum \<Rightarrow> jsnum" where
  "max_zero n = (if n = NaN then NaN else if num_less (Fin 0) n then n else Fin 0)"

text \<open>
  A reset in three parts: read the usage, refund what is consumed if there is something to refund,
  then log and read again.
\<close>

definition reset_finish ::
  "Deps \<Rightarrow> OpContext \<Rightarrow> limit_key \<Rightarrow> string \<Rightarrow> UsageView cont \<Rightarrow> jsnum \<Rightarrow> string \<Rightarrow> bff \<Rightarrow> bff \<times> bff_act" where
  "reset_finish d ctx lk fetchedAt k consumed rq s =
     call (quotaenforcer (GetUsage lk) [])
       (\<lambda>after. try_do (toUsageView lk (res_usage after) fetchedAt) k)
       (append_log d (entry_of ctx ''op:reset'' lk (Some (Detail_refunded (max_zero consumed))) (Some rq)) s)"

definition reset_refund ::
  "Deps \<Rightarrow> OpContext \<Rightarrow> limit_key \<Rightarrow> string \<Rightarrow> UsageView cont \<Rightarrow> jsnum \<Rightarrow> bff \<Rightarrow> bff \<times> bff_act" where
  "reset_refund d ctx lk fetchedAt k consumed s =
     (let (rq, s') = reqId d s
      in if num_less (Fin 0) consumed
         then call (quotaenforcer (Refund lk consumed rq) (actorMetadata (ctx_actor ctx)))
                (\<lambda>_. reset_finish d ctx lk fetchedAt k consumed rq) s'
         else reset_finish d ctx lk fetchedAt k consumed rq s')"

definition resetWindow ::
  "Deps \<Rightarrow> OpContext \<Rightarrow> limit_key \<Rightarrow> UsageView cont \<Rightarrow> bff \<Rightarrow> bff \<times> bff_act" where
  "resetWindow d ctx lk k s0 =
     (let (fetchedAt, s1) = iso_now d s0
      in call (quotaenforcer (GetUsage lk) [])
           (\<lambda>usage. try_do (js_Number (raw_consumed (res_usage usage)))
              (reset_refund d ctx lk fetchedAt k)) s1)"

text \<open>
  An approved operation. The type of the pending operation has no other constructor, so the
  \<^verbatim>\<open>unknown pending op\<close> branch of the source has no counterpart.
\<close>

fun executePendingOp ::
  "Deps \<Rightarrow> OpContext \<Rightarrow> PendingOp \<Rightarrow> op_result cont \<Rightarrow> bff \<Rightarrow> bff \<times> bff_act" where
  "executePendingOp d ctx (PLimitUpdate lk lv tu) k =
     updateLimit d ctx lk lv tu (Some True) (\<lambda>v. k (Res_limit v))"
| "executePendingOp d ctx (PLimitDelete lk) k =
     deleteLimit d ctx lk (Some False) (\<lambda>_. k Res_none)"
| "executePendingOp d ctx (PRefund lk amount) k =
     refund d ctx lk amount (\<lambda>r. k (Res_refund r))"
| "executePendingOp d ctx (PReset lk) k =
     resetWindow d ctx lk (\<lambda>u. k (Res_usage u))"

lemmas operation_defs =
  createLimit_def updateLimit_def deleteLimit_def refund_def resetWindow_def

section \<open>Which calls an operation makes\<close>

text \<open>Calls that can change the state of a backend.\<close>

fun mutating :: "rpc_request \<Rightarrow> bool" where
  "mutating (CreateLimit _ _ _) = True"
| "mutating (UpdateLimit _ _ _ _) = True"
| "mutating (DeleteLimit _ _) = True"
| "mutating (RegisterService _) = True"
| "mutating (Refund _ _ _) = True"
| "mutating _ = False"

text \<open>The changes that carry out a pending operation.\<close>

fun carries_out :: "PendingOp \<Rightarrow> rpc_request \<Rightarrow> bool" where
  "carries_out (PLimitUpdate lk lv tu) (UpdateLimit lk' lv' tu' _) \<longleftrightarrow> lk' = lk \<and> lv' = lv \<and> tu' = tu"
| "carries_out (PLimitDelete lk) (DeleteLimit lk' _) \<longleftrightarrow> lk' = lk"
| "carries_out (PRefund lk a) (Refund lk' a' _) \<longleftrightarrow> lk' = lk \<and> a' = a"
| "carries_out (PReset lk) (Refund lk' a' _) \<longleftrightarrow> lk' = lk \<and> num_less (Fin 0) a'"
| "carries_out _ _ \<longleftrightarrow> False"

end
