(* ===== verification/Auth.thy ===== *)
theory Auth
  imports Http
begin

text \<open>
  The middleware and the authentication routes of \<^verbatim>\<open>bff/src/session.ts\<close>: attaching the session, the
  401 gate, the CSRF gate, the dev login, the logout and the session payload of the console.
\<close>

section \<open>Middleware\<close>

definition SESSION_COOKIE :: string where
  "SESSION_COOKIE = ''quotaui_sid''"

definition CSRF_HEADER :: string where
  "CSRF_HEADER = ''x-csrf-token''"

definition attachSession :: "Request \<Rightarrow> bff \<Rightarrow> Session option" where
  "attachSession req s = session_get (own (cookies req) SESSION_COOKIE) (sessions s)"

definition requireAuth :: "Session option \<Rightarrow> Session cont \<Rightarrow> bff \<Rightarrow> bff \<times> bff_act" where
  "requireAuth sess next s =
     (case sess of
        None \<Rightarrow> respond 401 (P_error ''not authenticated'') s
      | Some x \<Rightarrow> next x s)"

definition state_changing :: "Method \<Rightarrow> bool" where
  "state_changing m \<longleftrightarrow> m = POST \<or> m = PUT \<or> m = PATCH \<or> m = DELETE"

definition csrf_passes :: "Request \<Rightarrow> Session option \<Rightarrow> bool" where
  "csrf_passes req sess \<longleftrightarrow>
     (case map_get (headers req) CSRF_HEADER of
        None \<Rightarrow> False
      | Some token \<Rightarrow> token \<noteq> [] \<and> map_option csrfToken sess = Some token)"

definition requireCsrf ::
  "Request \<Rightarrow> Session option \<Rightarrow> (bff \<Rightarrow> bff \<times> bff_act) \<Rightarrow> bff \<Rightarrow> bff \<times> bff_act" where
  "requireCsrf req sess next s =
     (if state_changing (meth req) \<and> \<not> csrf_passes req sess
      then respond 403 (P_error ''bad or missing CSRF token'') s
      else next s)"

section \<open>Session cookie and payload\<close>

definition setSessionCookie :: "Deps \<Rightarrow> Session \<Rightarrow> cookie_change" where
  "setSessionCookie d sess =
     Set_cookie
       \<lparr>cookie_name = SESSION_COOKIE, cookie_value = session_id sess, httpOnly = True,
        sameSite = ''lax'',
        secure = (case cookie_secure_var d of
                    Some v \<Rightarrow> if v \<noteq> [] then v = ''true'' else node_env_var d = Some ''production''
                  | None \<Rightarrow> node_env_var d = Some ''production''),
        cookie_path = ''/''\<rparr>"

definition sessionPayload :: "bff \<Rightarrow> Session \<Rightarrow> SessionPayload" where
  "sessionPayload s sess =
     (let u = session_user s sess
      in \<lparr>sp_id = user_id u, sp_email = email u, sp_grants = grants u,
          sp_editable = editableServices u, sp_csrf = csrfToken sess\<rparr>)"

section \<open>Login and logout\<close>

definition sessions_create :: "Deps \<Rightarrow> nat \<Rightarrow> bff \<Rightarrow> Session \<times> bff" where
  "sessions_create d u s =
     (let (i, s1) = random_hex d 24 s;
          (t, s2) = random_hex d 24 s1;
          (now, s3) = date_now d s2;
          (sess, ss) = session_create i t now u (sessions s3)
      in (sess, s3\<lparr>sessions := ss\<rparr>))"

definition devLogin :: "Deps \<Rightarrow> jsv \<Rightarrow> bff \<Rightarrow> bff \<times> bff_act" where
  "devLogin d b s =
     (if authMode d = Oidc
      then respond 404 (P_error ''dev login disabled (AUTH_MODE=oidc)'') s
      else try_do (js_String (or_default (prop_opt b ''user'') (JStr []))) (\<lambda>i s.
        case grants_get i (gstore s) of
          None \<Rightarrow> respond 401 (P_error (''unknown user '' @ CHR 0x27 # i @ [CHR 0x27])) s
        | Some u \<Rightarrow>
            let (sess, s') = sessions_create d u s
            in (s', Respond \<lparr>code = 200, payload = P_session (sessionPayload s' sess),
                             cookie_changes = [setSessionCookie d sess]\<rparr>)) s)"

definition logout :: "Request \<Rightarrow> bff \<Rightarrow> bff \<times> bff_act" where
  "logout req s =
     (s\<lparr>sessions := session_destroy (own (cookies req) SESSION_COOKIE) (sessions s)\<rparr>,
      Respond \<lparr>code = 200, payload = P_ok, cookie_changes = [Clear_cookie SESSION_COOKIE ''/'']\<rparr>)"

end
