(* ===== verification/Routes.thy ===== *)
theory Routes
  imports Operations Auth
begin

text \<open>
  The handlers of \<^verbatim>\<open>bff/src/routes/\<close>: limits, operations, reviews, services, audit and usage. Each
  is the code between the 401 and CSRF gates and the response. A handler is given the session the
  gates let through.
\<close>

type_synonym handler = "Deps \<Rightarrow> Request \<Rightarrow> jsv \<Rightarrow> Session \<Rightarrow> bff \<Rightarrow> bff \<times> bff_act"

section \<open>Shared by the routes\<close>

text \<open>\<^verbatim>\<open>String(req.query.k ?? "")\<close>, \<^verbatim>\<open>req.query.k ? String(req.query.k) : ""\<close> and the same for numbers.\<close>

definition query_text :: "Request \<Rightarrow> string \<Rightarrow> string js" where
  "query_text req k = js_String (or_default (prop_opt (query req) k) (JStr []))"

definition query_string :: "Request \<Rightarrow> string \<Rightarrow> string js" where
  "query_string req k =
     (let x = prop_opt (query req) k in if truthy x then js_String x else Inr [])"

definition query_number :: "Request \<Rightarrow> string \<Rightarrow> jsnum js" where
  "query_number req k =
     (let x = prop_opt (query req) k in if truthy x then js_Number x else Inr (Fin 0))"

definition page_token :: "rpc_response \<Rightarrow> string option" where
  \<comment> \<open>\<^verbatim>\<open>resp.next_page_token || null\<close>\<close>
  "page_token res = (if res_page_token res \<noteq> [] then Some (res_page_token res) else None)"

definition list_or_empty :: "'a list option \<Rightarrow> 'a list" where
  "list_or_empty xs = (case xs of None \<Rightarrow> [] | Some ys \<Rightarrow> ys)"

definition opContext :: "bff \<Rightarrow> Session \<Rightarrow> OpContext" where
  "opContext s sess =
     \<lparr>ctx_actor = email (session_user s sess), ctx_initiator = None, ctx_approver = None\<rparr>"

definition reviews_create :: "Deps \<Rightarrow> PendingOp \<Rightarrow> string \<Rightarrow> string \<Rightarrow> bff \<Rightarrow> Review \<times> bff" where
  "reviews_create d op who why s =
     (let (i, s1) = random_hex d 12 s;
          (now, s2) = iso_now d s1;
          (r, rs) = review_create i now op who why (reviews s2)
      in (r, s2\<lparr>reviews := rs\<rparr>))"

text \<open>
  \<^verbatim>\<open>decide\<close> reads the clock only when it records a decision.
\<close>

definition reviews_decide :: "Deps \<Rightarrow> string \<Rightarrow> string \<Rightarrow> Decision \<Rightarrow> bff \<Rightarrow> ((nat \<times> string) + Review) \<times> bff" where
  "reviews_decide d i who dec s =
     (let (now, s1) = iso_now d s;
          (res, rs) = review_decide i who dec now (reviews s)
      in (res, case res of Inl _ \<Rightarrow> s | Inr _ \<Rightarrow> s1\<lparr>reviews := rs\<rparr>))"

text \<open>
  The tail four routes share: file a review when the policy gives a reason, and otherwise apply
  the change at once.
\<close>

definition review_or_apply ::
  "Deps \<Rightarrow> Session \<Rightarrow> PendingOp \<Rightarrow> (bff \<Rightarrow> bff \<times> bff_act) \<Rightarrow> bff \<Rightarrow> bff \<times> bff_act" where
  "review_or_apply d sess op direct s =
     (case reviewReason op (reviewPolicy d) of
        Some (c # cs) \<Rightarrow>
          let (r, s') = reviews_create d op (email (session_user s sess)) (c # cs) s
          in respond 202 (P_pending_review r) s'
      | _ \<Rightarrow> direct s)"

text \<open>A validation result: the errors are the response.\<close>

definition with_valid :: "'a validated js \<Rightarrow> 'a cont \<Rightarrow> bff \<Rightarrow> bff \<times> bff_act" where
  "with_valid v k =
     try_do v (\<lambda>r s. case r of Invalid es \<Rightarrow> respond 400 (P_errors es) s | Valid x \<Rightarrow> k x s)"

section \<open>Limits\<close>

definition get_limits :: handler where
  "get_limits d req b sess =
     try_do (query_text req ''service_name'') (\<lambda>sn s.
       if sn = [] then respond 400 (P_error ''service_name is required'') s
       else guard d sess Limits_read (Some sn)
         (try_do (query_string req ''customer_id'') (\<lambda>ci.
          try_do (query_string req ''rate_limit_id'') (\<lambda>ri.
          try_do (query_number req ''page_size'') (\<lambda>ps.
          try_do (query_string req ''page_token'') (\<lambda>pt.
          call (quotamgmt (ListLimits sn ci ri ps pt) []) (\<lambda>res.
          try_do (map_throw (\<lambda>l. toLimitView (Some l) None) (list_or_empty (res_limits res))) (\<lambda>ls.
            respond 200 (P_limits ls (page_token res))))))))) s)"

definition get_resolve :: handler where
  "get_resolve d req b sess =
     with_valid (validateKey (query req)) (\<lambda>lk.
       guard d sess Limits_read (Some (service_name lk))
         (call_or (quotamgmt (GetLimit lk True) [])
            (\<lambda>res. try_do (toLimitView (res_limit res) (res_is_default res)) (\<lambda>v.
               respond 200 (P_resolved v)))
            (\<lambda>e s. case e of
                RpcError http m c \<Rightarrow>
                  if http = 404 then respond 200 (P_unconfigured lk) s else throw e s
              | OtherError m \<Rightarrow> throw e s)))"

definition post_limits :: handler where
  "post_limits d req b sess =
     with_valid (validateLimit b) (\<lambda>v.
       guard d sess Limit_write (Some (service_name v))
         (\<lambda>s. createLimit d (opContext s sess) v (\<lambda>lim. respond 201 (P_limit lim)) s))"

definition put_limits :: handler where
  "put_limits d req b sess =
     with_valid (validateLimit b) (\<lambda>v.
       guard d sess Limit_write (Some (service_name v))
         (review_or_apply d sess (PLimitUpdate (key v) (limit_value v) (time_unit v))
           (\<lambda>s. updateLimit d (opContext s sess) (key v) (limit_value v) (time_unit v)
                  (Some (truthy (prop_opt b ''create_if_absent'')))
                  (\<lambda>lim. respond 200 (P_limit lim)) s)))"

definition delete_limits :: handler where
  "delete_limits d req b sess =
     with_valid (validateKey b) (\<lambda>lk.
       guard d sess Limit_delete (Some (service_name lk))
         (review_or_apply d sess (PLimitDelete lk)
           (\<lambda>s. deleteLimit d (opContext s sess) lk (Some (truthy (prop_opt b ''allow_missing'')))
                  (\<lambda>_. respond 204 P_empty) s)))"

section \<open>Manual operations\<close>

definition post_refund :: handler where
  "post_refund d req b sess =
     with_valid (validateKey b) (\<lambda>lk s.
       case validateAmount (prop_opt b ''amount'') AMOUNT_CAP of
         Inl e \<Rightarrow> respond 400 (P_error e) s
       | Inr amount \<Rightarrow>
           guard d sess Op_refund (Some (service_name lk))
             (review_or_apply d sess (PRefund lk amount)
               (\<lambda>s. refund d (opContext s sess) lk amount (\<lambda>r. respond 200 (P_refund r)) s)) s)"

definition post_reset :: handler where
  "post_reset d req b sess =
     with_valid (validateKey b) (\<lambda>lk.
       guard d sess Op_reset (Some (service_name lk))
         (review_or_apply d sess (PReset lk)
           (\<lambda>s. resetWindow d (opContext s sess) lk (\<lambda>u. respond 200 (P_usage u)) s)))"

section \<open>Reviews\<close>

definition get_reviews :: handler where
  "get_reviews d req b sess =
     guard d sess Review_approve None (\<lambda>s. respond 200 (P_reviews (listPending (reviews s))) s)"

text \<open>
  The review in the response is the object \<^verbatim>\<open>decide\<close> returned; a decided review is not changed
  again, so its value at the time of the decision is its value at the time of the response.
\<close>

definition post_approve :: "string \<Rightarrow> handler" where
  "post_approve i d req b sess =
     guard d sess Review_approve None (\<lambda>s.
       let approver = email (session_user s sess);
           (decision, s') = reviews_decide d i approver Approve s
       in case decision of
            Inl (n, e) \<Rightarrow> respond n (P_error e) s'
          | Inr r \<Rightarrow>
              executePendingOp d
                \<lparr>ctx_actor = approver, ctx_initiator = Some (initiator r), ctx_approver = Some approver\<rparr>
                (rop r) (\<lambda>result. respond 200 (P_approved r result)) s')"

definition post_reject :: "string \<Rightarrow> handler" where
  "post_reject i d req b sess =
     guard d sess Review_approve None (\<lambda>s.
       let (decision, s') = reviews_decide d i (email (session_user s sess)) Reject s
       in case decision of
            Inl (n, e) \<Rightarrow> respond n (P_error e) s'
          | Inr r \<Rightarrow> respond 200 (P_rejected r) s')"

section \<open>Services\<close>

definition get_services :: handler where
  "get_services d req b sess =
     guard d sess Limits_read None
       (try_do (query_number req ''page_size'') (\<lambda>ps.
        try_do (query_string req ''page_token'') (\<lambda>pt.
        call (quotamgmt (ListServices ps pt) []) (\<lambda>res.
        try_do (map_throw (\<lambda>v. toServiceView (Some v)) (list_or_empty (res_services res))) (\<lambda>vs.
          respond 200 (P_services vs (page_token res)))))))"

definition get_service :: "string \<Rightarrow> handler" where
  "get_service name d req b sess =
     guard d sess Limits_read None
       (call (quotamgmt (GetService name) []) (\<lambda>res.
        try_do (toServiceView (res_service res)) (\<lambda>v. respond 200 (P_service v))))"

definition register_service ::
  "Deps \<Rightarrow> Session \<Rightarrow> string \<Rightarrow> nat \<Rightarrow> ServiceView \<Rightarrow> bff \<Rightarrow> bff \<times> bff_act" where
  "register_service d sess act n v s =
     call (quotamgmt (RegisterService v) (actorMetadata (email (session_user s sess))))
       (\<lambda>res s.
         let s' = append_log d
               \<lparr>actor = email (session_user s sess), action = act, target = Target_service (svc_name v),
                details = Some (Detail_service (display_name v) (owner v)), request_id = None,
                log_initiator = None, log_approver = None\<rparr> s
         in try_do (toServiceView (res_service res)) (\<lambda>v. respond n (P_service v)) s') s"

definition post_services :: handler where
  "post_services d req b sess =
     with_valid (validateServiceBody b) (\<lambda>v.
       guard d sess Service_create (Some (svc_name v))
         (register_service d sess ''service:create'' 201 v))"

text \<open>\<^verbatim>\<open>{ ...req.body, service_name: req.params.name }\<close>; only an object contributes named fields.\<close>

definition with_service_name :: "jsv \<Rightarrow> string \<Rightarrow> jsv" where
  "with_service_name b name =
     JObj (map_set ''service_name'' (JStr name) (case b of JObj ob \<Rightarrow> ob | _ \<Rightarrow> []))"

definition put_service :: "string \<Rightarrow> handler" where
  "put_service name d req b sess =
     with_valid (validateServiceBody (with_service_name b name)) (\<lambda>v.
       guard d sess Service_edit (Some (svc_name v))
         (register_service d sess ''service:edit'' 200 v))"

section \<open>Audit\<close>

text \<open>The remainder of JavaScript has the sign of the dividend.\<close>

fun num_rem :: "jsnum \<Rightarrow> rat \<Rightarrow> jsnum" where
  "num_rem (Fin q) m = Fin (if q < 0 then q - m * of_int \<lceil>q / m\<rceil> else q - m * of_int \<lfloor>q / m\<rfloor>)"
| "num_rem _ m = NaN"

definition isoToTimestamp :: "Deps \<Rightarrow> string \<Rightarrow> (jsnum \<times> jsnum) option" where
  "isoToTimestamp d txt =
     (if txt = [] then None
      else let ms = date_parse d txt
           in if ms = NaN then None
              else Some (num_floor_div ms 1000, num_times (num_rem ms 1000) (Fin 1000000)))"

text \<open>\<^verbatim>\<open>toUpperCase\<close> on the letters whose capital is a Latin-1 character.\<close>

definition upper_char :: "char \<Rightarrow> string" where
  "upper_char c =
     (let n = of_char c :: nat
      in if 97 \<le> n \<and> n \<le> 122 \<or> 224 \<le> n \<and> n \<le> 254 \<and> n \<noteq> 247 then [char_of (n - 32)]
         else if n = 223 then ''SS'' else [c])"

definition toUpperCase :: "string \<Rightarrow> string" where
  "toUpperCase s = concat (map upper_char s)"

definition filter_unless_empty :: "string \<Rightarrow> ('a \<Rightarrow> string) \<Rightarrow> 'a list \<Rightarrow> 'a list" where
  "filter_unless_empty w f xs = (if w \<noteq> [] then filter (\<lambda>x. f x = w) xs else xs)"

definition audit_key :: "Request \<Rightarrow> string \<Rightarrow> limit_key option js" where
  "audit_key req sn =
     (if truthy (prop_opt (query req) ''customer_id'') \<and> truthy (prop_opt (query req) ''rate_limit_id'')
      then then_do (js_String (prop_opt (query req) ''customer_id'')) (\<lambda>ci.
           then_do (js_String (prop_opt (query req) ''rate_limit_id'')) (\<lambda>ri.
             Inr (Some \<lparr>service_name = sn, customer_id = ci, rate_limit_id = ri\<rparr>)))
      else Inr None)"

definition get_audit :: handler where
  "get_audit d req b sess =
     try_do (query_text req ''service_name'') (\<lambda>sn s.
       if sn = [] then respond 400 (P_error ''service_name is required'') s
       else guard d sess Audit_read (Some sn)
         (try_do (audit_key req sn) (\<lambda>lk.
          try_do (query_number req ''config_id'') (\<lambda>cid.
          try_do (query_string req ''since'') (\<lambda>since.
          try_do (query_number req ''page_size'') (\<lambda>ps.
          try_do (query_string req ''page_token'') (\<lambda>pt.
          call (quotamgmt (ListAuditEntries sn lk cid (isoToTimestamp d since) ps pt) []) (\<lambda>res.
          try_do (map_throw toAuditView (list_or_empty (res_entries res))) (\<lambda>es.
          try_do (query_string req ''changed_by'') (\<lambda>by_whom.
          try_do (query_string req ''operation'') (\<lambda>op.
            respond 200 (P_audit
              (filter_unless_empty (toUpperCase op) av_operation
                (filter_unless_empty by_whom av_changed_by es))
              (page_token res)))))))))))) s)"

definition get_audit_config :: "string \<Rightarrow> handler" where
  "get_audit_config configId d req b sess =
     try_do (query_text req ''service_name'') (\<lambda>sn s.
       if sn = [] then respond 400 (P_error ''service_name is required'') s
       else guard d sess Audit_read (Some sn)
         (call (quotamgmt (ListAuditEntries sn None (string_to_number configId) None (Fin 0) []) [])
           (\<lambda>res. try_do (map_throw toAuditView (list_or_empty (res_entries res))) (\<lambda>es.
              respond 200 (P_history es)))) s)"

section \<open>Usage\<close>

definition get_usage :: handler where
  "get_usage d req b sess =
     with_valid (validateKey (query req)) (\<lambda>lk.
       guard d sess Usage_read (Some (service_name lk)) (\<lambda>s.
         let (fetchedAt, s') = iso_now d s
         in call (quotaenforcer (GetUsage lk) []) (\<lambda>res.
              try_do (toUsageView lk (res_usage res) fetchedAt) (\<lambda>u. respond 200 (P_usage u))) s'))"

end
