(* ===== verification/App.thy ===== *)
theory App
  imports Routes
begin

text \<open>
  \<^verbatim>\<open>bff/src/app.ts\<close>: the order of the middleware and the table of routes. Matching a path is
  Express's: literal segments are compared without regard to case, one trailing slash is ignored,
  a parameter matches any segment that is not empty, and \<^verbatim>\<open>HEAD\<close> runs the \<^verbatim>\<open>GET\<close> handlers.
\<close>

section \<open>Matching\<close>

definition lower_char :: "char \<Rightarrow> char" where
  "lower_char c = (let n = of_char c :: nat in if 65 \<le> n \<and> n \<le> 90 then char_of (n + 32) else c)"

definition is_segment :: "string \<Rightarrow> string \<Rightarrow> bool" where
  "is_segment pat x \<longleftrightarrow> map lower_char x = pat"

definition drop_slash :: "string list \<Rightarrow> string list" where
  "drop_slash p = (if p \<noteq> [] \<and> last p = [] then butlast p else p)"

definition is_path :: "string list \<Rightarrow> string list \<Rightarrow> bool" where
  "is_path pats p \<longleftrightarrow> list_all2 is_segment pats (drop_slash p)"

definition gets :: "Method \<Rightarrow> bool" where
  "gets m \<longleftrightarrow> m = GET \<or> m = HEAD"

text \<open>
  What Express and the file server behind it contribute: decoding a path parameter (which may
  fail), the directory of the built console if there is one, which paths name a file in it, and
  the reply for a request nothing handles.
\<close>

record Platform =
  decode_param :: "string \<Rightarrow> string option"
  spa_dir :: bool
  static_file :: "string list \<Rightarrow> bool"
  unhandled :: "Request \<Rightarrow> Response"

definition with_param :: "Platform \<Rightarrow> string \<Rightarrow> string cont \<Rightarrow> bff \<Rightarrow> bff \<times> bff_act" where
  "with_param pl x k s =
     (case decode_param pl x of
        None \<Rightarrow> (s, Throw (OtherError (''Failed to decode param '' @ CHR 0x27 # x @ [CHR 0x27])))
      | Some v \<Rightarrow> k v s)"

section \<open>The routes below /api\<close>

text \<open>One route per capability-guarded handler; \<open>None\<close> when no route matches.\<close>

definition param_route :: "Platform \<Rightarrow> (string \<Rightarrow> handler) \<Rightarrow> string \<Rightarrow> handler" where
  "param_route pl h x d req b sess = with_param pl x (\<lambda>v. h v d req b sess)"

definition session_route :: handler where
  "session_route d req b sess s = respond 200 (P_session (sessionPayload s sess)) s"

definition actionlog_route :: handler where
  "actionlog_route d req b sess =
     guard d sess Review_approve None
       (\<lambda>s. respond 200 (P_actionlog (log_list None (Some 200) (action_log s))) s)"

definition api_route :: "Platform \<Rightarrow> Method \<Rightarrow> string list \<Rightarrow> handler option" where
  "api_route pl m p =
     (case drop_slash p of
        [a] \<Rightarrow>
          if gets m \<and> is_segment ''session'' a then Some session_route
          else if gets m \<and> is_segment ''limits'' a then Some get_limits
          else if m = POST \<and> is_segment ''limits'' a then Some post_limits
          else if m = PUT \<and> is_segment ''limits'' a then Some put_limits
          else if m = DELETE \<and> is_segment ''limits'' a then Some delete_limits
          else if gets m \<and> is_segment ''services'' a then Some get_services
          else if m = POST \<and> is_segment ''services'' a then Some post_services
          else if gets m \<and> is_segment ''audit'' a then Some get_audit
          else if gets m \<and> is_segment ''usage'' a then Some get_usage
          else if gets m \<and> is_segment ''reviews'' a then Some get_reviews
          else if gets m \<and> is_segment ''actionlog'' a then Some actionlog_route
          else None
      | [a, x] \<Rightarrow>
          if gets m \<and> is_segment ''limits'' a \<and> is_segment ''resolve'' x then Some get_resolve
          else if gets m \<and> is_segment ''services'' a \<and> x \<noteq> [] then Some (param_route pl get_service x)
          else if m = PUT \<and> is_segment ''services'' a \<and> x \<noteq> [] then Some (param_route pl put_service x)
          else if m = POST \<and> is_segment ''ops'' a \<and> is_segment ''refund'' x then Some post_refund
          else if m = POST \<and> is_segment ''ops'' a \<and> is_segment ''reset'' x then Some post_reset
          else None
      | [a, x, y] \<Rightarrow>
          if gets m \<and> is_segment ''audit'' a \<and> is_segment ''config'' x \<and> y \<noteq> []
          then Some (param_route pl get_audit_config y)
          else if m = POST \<and> is_segment ''reviews'' a \<and> x \<noteq> [] \<and> is_segment ''approve'' y
          then Some (param_route pl post_approve x)
          else if m = POST \<and> is_segment ''reviews'' a \<and> x \<noteq> [] \<and> is_segment ''reject'' y
          then Some (param_route pl post_reject x)
          else None
      | _ \<Rightarrow> None)"

section \<open>The application\<close>

text \<open>
  After the routes: the built console, when it is served. Its fallback takes every \<^verbatim>\<open>GET\<close> whose path
  does not start with \<^verbatim>\<open>/api/\<close>, compared with regard to case.
\<close>

definition after_routes :: "Platform \<Rightarrow> Request \<Rightarrow> bff \<Rightarrow> bff \<times> bff_act" where
  "after_routes pl req s =
     (if spa_dir pl \<and> gets (meth req) \<and> static_file pl (path req) then respond 200 P_static s
      else if spa_dir pl \<and> gets (meth req) \<and> \<not> (case path req of a # x # xs \<Rightarrow> a = ''api'' | _ \<Rightarrow> False)
      then respond 200 P_index s
      else (s, Respond (unhandled pl req)))"

definition api :: "Platform \<Rightarrow> Deps \<Rightarrow> Request \<Rightarrow> jsv \<Rightarrow> Session option \<Rightarrow> string list \<Rightarrow> bff \<Rightarrow> bff \<times> bff_act" where
  "api pl d req b sess p =
     requireAuth sess (\<lambda>x.
       requireCsrf req sess
         (case api_route pl (meth req) p of
            Some h \<Rightarrow> h d req b x
          | None \<Rightarrow> after_routes pl req))"

definition serve :: "Platform \<Rightarrow> Deps \<Rightarrow> Request \<Rightarrow> bff \<Rightarrow> bff \<times> bff_act" where
  "serve pl d req s =
     (case body req of
        Inl message \<Rightarrow> (s, Throw (OtherError message))
      | Inr b \<Rightarrow>
          if gets (meth req) \<and> is_path [''healthz''] (path req) then respond 200 P_health s
          else let sess = attachSession req s in
            if meth req = POST \<and> is_path [''api'', ''auth'', ''login''] (path req) then devLogin d b s
            else if meth req = POST \<and> is_path [''api'', ''auth'', ''logout''] (path req) then logout req s
            else (case path req of
                    a # p \<Rightarrow> if is_segment ''api'' a then api pl d req b sess p s
                             else after_routes pl req s
                  | [] \<Rightarrow> after_routes pl req s))"

text \<open>What can happen to the grant store outside the handlers.\<close>

inductive administer :: "bff \<Rightarrow> bff \<Rightarrow> bool" where
  regrant: "administer s (s\<lparr>gstore := setGrants i gs (gstore s)\<rparr>)"
| replace: "administer s (s\<lparr>gstore := put_new u (gstore s)\<rparr>)"

abbreviation running :: "Platform \<Rightarrow> Deps \<Rightarrow> GrantStore \<Rightarrow> (Request, rpc_call, rpc_reply, bff, Response) server \<Rightarrow> bool" where
  "running pl d g \<equiv> reachable (serve pl d) administer (new_state g)"

end
