(* ===== verification/Conformance.thy ===== *)
theory Conformance
  imports App
begin

text \<open>
  Every handler keeps to a discipline: after its first stretch it leaves users, sessions and
  reviews alone, and it writes to the action log exactly when a reply reports that a change was
  applied. This theory states the discipline and shows, operation by operation and route by route,
  that the handlers conform to it.
\<close>

section \<open>Entries and the calls they record\<close>

fun describes :: "ActionLogEntry \<Rightarrow> rpc_request \<Rightarrow> bool" where
  "describes e (CreateLimit k v u) \<longleftrightarrow>
     action e = ''limit:create'' \<and> target e = Target_key k \<and> details e = Some (Detail_limit v u)"
| "describes e (UpdateLimit k v u _) \<longleftrightarrow>
     action e = ''limit:update'' \<and> target e = Target_key k \<and> details e = Some (Detail_limit v u)"
| "describes e (DeleteLimit k _) \<longleftrightarrow>
     action e = ''limit:delete'' \<and> target e = Target_key k \<and> details e = None"
| "describes e (RegisterService v) \<longleftrightarrow>
     (action e = ''service:create'' \<or> action e = ''service:edit'') \<and> target e = Target_service (svc_name v)
     \<and> details e = Some (Detail_service (display_name v) (owner v))"
| "describes e (Refund k a rq) \<longleftrightarrow>
     target e = Target_key k \<and> request_id e = Some rq
     \<and> (action e = ''op:refund'' \<and> details e = Some (Detail_amount a)
        \<or> action e = ''op:reset'' \<and> details e = Some (Detail_refunded a))"
| "describes e _ \<longleftrightarrow> False"

definition records :: "ActionLogEntry \<Rightarrow> rpc_call \<Rightarrow> bool" where
  "records e c \<longleftrightarrow> actor_of c = Some (actor e) \<and> describes e (request c)"

text \<open>A reset of a window that has nothing to refund is logged without a call that changes anything.\<close>

definition idle_reset :: "ActionLogEntry \<Rightarrow> bool" where
  "idle_reset e \<longleftrightarrow> action e = ''op:reset''
     \<and> (case details e of Some (Detail_refunded n) \<Rightarrow> \<not> num_less (Fin 0) n | _ \<Rightarrow> False)"

text \<open>What the delivery of a reply adds to the log.\<close>

definition log_effect :: "rpc_call \<Rightarrow> rpc_reply \<Rightarrow> ActionLogEntry list \<Rightarrow> bool" where
  "log_effect c r es \<longleftrightarrow>
     (case r of
        Inl _ \<Rightarrow> es = []
      | Inr _ \<Rightarrow>
          if mutating (request c) then (\<exists>e. es = [e] \<and> records e c \<and> \<not> idle_reset e)
          else list_all idle_reset es)"

section \<open>The guarantee\<close>

definition guarantee :: "rpc_call \<Rightarrow> rpc_reply \<Rightarrow> bff \<Rightarrow> bff \<Rightarrow> bool" where
  "guarantee c r s s' \<longleftrightarrow>
     gstore s' = gstore s \<and> sessions s' = sessions s \<and> reviews s' = reviews s \<and> draws s \<le> draws s'
     \<and> (log_ok (action_log s) \<longrightarrow> log_ok (action_log s'))
     \<and> (\<exists>es. entries (action_log s') = entries (action_log s) @ es \<and> log_effect c r es)"

lemma guarantee_error [simp]: "guarantee c (Inl e) s s"
  by (simp add: guarantee_def log_effect_def)

lemma guarantee_read [simp]: "\<not> mutating (request c) \<Longrightarrow> guarantee c (Inr res) s s"
  by (simp add: guarantee_def log_effect_def)

lemma append_log_simps [simp]:
  "gstore (append_log d e s) = gstore s" "sessions (append_log d e s) = sessions s"
  "reviews (append_log d e s) = reviews s" "draws (append_log d e s) = draws s"
  "log_ok (action_log s) \<Longrightarrow> log_ok (action_log (append_log d e s))"
  by (simp_all add: append_log_def iso_now_def date_now_def)

lemma append_log_entries:
  "\<exists>n t. entries (action_log (append_log d e s))
     = entries (action_log s) @ [NewEntry.extend e \<lparr>seq = n, at_time = t\<rparr>]"
  by (auto simp: append_log_def iso_now_def date_now_def log_append_def Let_def)

lemma guarantee_append:
  assumes "\<And>n t. log_effect c r [NewEntry.extend e \<lparr>seq = n, at_time = t\<rparr>]"
  shows "guarantee c r s (append_log d e s)"
  using assms append_log_entries [of d e s] by (fastforce simp: guarantee_def)

lemma guarantee_draw:
  "guarantee c r s s' \<Longrightarrow> guarantee c r s (s'\<lparr>draws := Suc (draws s')\<rparr>)"
  by (auto simp: guarantee_def)

lemma guarantee_after_draw:
  "guarantee c r (s\<lparr>draws := Suc (draws s)\<rparr>) s' \<Longrightarrow> guarantee c r s s'"
  by (auto simp: guarantee_def)

section \<open>Ends of handlers\<close>

fun final :: "bff_act \<Rightarrow> bool" where
  "final (Await c k) = False"
| "final _ = True"

lemma final_conforms [simp]: "final a \<Longrightarrow> conforms may pre guar a"
  by (cases a) auto

definition finishing :: "'a cont \<Rightarrow> bool" where
  "finishing k \<longleftrightarrow> (\<forall>x s. fst (k x s) = s \<and> final (snd (k x s)))"

lemma finishingD [simp]:
  "finishing k \<Longrightarrow> fst (k x s) = s"
  "finishing k \<Longrightarrow> final (snd (k x s))"
  by (simp_all add: finishing_def)

lemma finishing_respond [simp]: "finishing (\<lambda>x. respond n (p x))"
  by (simp add: finishing_def respond_def)

lemma try_do_finishing [simp]:
  "finishing k \<Longrightarrow> fst (try_do x k s) = s"
  "finishing k \<Longrightarrow> final (snd (try_do x k s))"
  by (cases x; simp)+

lemma finishing_try_do [simp]: "(\<And>x. finishing (k x)) \<Longrightarrow> finishing (\<lambda>x. try_do (f x) (k x))"
  by (simp add: finishing_def [of "\<lambda>x. try_do (f x) (k x)"])

lemma throw_simps [simp]: "fst (throw e s) = s" "snd (throw e s) = Throw e"
  by (simp_all add: throw_def)

lemma respond_simps [simp]: "fst (respond n p s) = s" "snd (respond n p s) = Respond (reply n p)"
  by (simp_all add: respond_def)

section \<open>Calls\<close>

lemma fst_call [simp]: "well_addressed c \<Longrightarrow> fst (call c k s) = s"
  by (simp add: call_def)

lemma conforms_call:
  assumes "well_addressed c" "may c"
    and "\<And>res s. pre s \<Longrightarrow> guarantee c (Inr res) s (fst (k res s)) \<and> conforms may pre guarantee (snd (k res s))"
  shows "conforms may pre guarantee (snd (call c k s0))"
proof -
  have "guarantee c r s (fst (case call_result r of Inl e \<Rightarrow> throw e s | Inr res \<Rightarrow> k res s)) \<and>
      conforms may pre guarantee (snd (case call_result r of Inl e \<Rightarrow> throw e s | Inr res \<Rightarrow> k res s))"
    if "pre s" for r s
    using assms(3) [OF that] by (cases r) auto
  then show ?thesis using assms(1,2) by (simp add: call_def conforms_Await)
qed

lemma conforms_read:
  assumes "well_addressed c" "may c" "\<not> mutating (request c)" "finishing k"
  shows "conforms may pre guarantee (snd (call c k s))"
  using assms by (intro conforms_call) auto

section \<open>The operations\<close>

lemma createLimit_conforms:
  assumes "finishing k"
    and "may (quotamgmt (CreateLimit (key v) (limit_value v) (time_unit v)) (actorMetadata (ctx_actor ctx)))"
  shows "conforms may pre guarantee (snd (createLimit d ctx v k s))"
  unfolding createLimit_def
  by (rule conforms_call)
     (use assms in \<open>auto intro!: guarantee_append
        simp: log_effect_def records_def idle_reset_def entry_of_def NewEntry.defs Let_def\<close>)

lemma updateLimit_conforms:
  assumes "finishing k"
    and "\<And>b. may (quotamgmt (UpdateLimit lk lv tu b) (actorMetadata (ctx_actor ctx)))"
  shows "conforms may pre guarantee (snd (updateLimit d ctx lk lv tu cia k s))"
  unfolding updateLimit_def
  by (rule conforms_call)
     (use assms in \<open>auto intro!: guarantee_append
        simp: log_effect_def records_def idle_reset_def entry_of_def NewEntry.defs Let_def\<close>)

lemma deleteLimit_conforms:
  assumes "finishing k"
    and "\<And>b. may (quotamgmt (DeleteLimit lk b) (actorMetadata (ctx_actor ctx)))"
  shows "conforms may pre guarantee (snd (deleteLimit d ctx lk am k s))"
  unfolding deleteLimit_def
  by (rule conforms_call)
     (use assms in \<open>auto intro!: guarantee_append
        simp: log_effect_def records_def idle_reset_def entry_of_def NewEntry.defs Let_def\<close>)

lemma refund_conforms:
  assumes "finishing k"
    and "\<And>rq. may (quotaenforcer (Refund lk a rq) (actorMetadata (ctx_actor ctx)))"
  shows "conforms may pre guarantee (snd (refund d ctx lk a k s))"
  unfolding refund_def Let_def split_def
  by (rule conforms_call)
     (use assms in \<open>auto intro!: guarantee_append
        simp: log_effect_def records_def idle_reset_def entry_of_def NewEntry.defs\<close>)

lemma max_zero_less:
  "num_less (Fin 0) n \<Longrightarrow> max_zero n = n"
  "num_less (Fin 0) (max_zero n) \<longleftrightarrow> num_less (Fin 0) n"
  by (cases n; simp add: max_zero_def)+

lemma reset_finish_conforms:
  assumes "finishing k" "may (quotaenforcer (GetUsage lk) [])"
  shows "conforms may pre guarantee (snd (reset_finish d ctx lk fetchedAt k consumed rq s))"
  unfolding reset_finish_def
  by (rule conforms_read) (use assms in simp_all)

lemma reset_finish_state [simp]:
  "fst (reset_finish d ctx lk fetchedAt k consumed rq s) =
     append_log d (entry_of ctx ''op:reset'' lk (Some (Detail_refunded (max_zero consumed))) (Some rq)) s"
  by (simp add: reset_finish_def)

lemma reset_refund_conforms:
  assumes "finishing k" "may (quotaenforcer (GetUsage lk) [])"
    and "\<And>a rq. num_less (Fin 0) a \<Longrightarrow> may (quotaenforcer (Refund lk a rq) (actorMetadata (ctx_actor ctx)))"
  shows "conforms may pre guarantee (snd (reset_refund d ctx lk fetchedAt k consumed s))"
proof (cases "num_less (Fin 0) consumed")
  case True
  then show ?thesis
    unfolding reset_refund_def Let_def split_def
    by (simp, intro conforms_call)
       (use assms True reset_finish_conforms [of k may lk pre] in \<open>auto intro!: guarantee_append
          simp: log_effect_def records_def idle_reset_def entry_of_def NewEntry.defs max_zero_less\<close>)
next
  case False
  with assms show ?thesis
    by (simp add: reset_refund_def reset_finish_conforms split_def Let_def)
qed

lemma reset_refund_guarantee:
  "guarantee (quotaenforcer (GetUsage lk) []) (Inr res) s (fst (reset_refund d ctx lk fetchedAt k consumed s))"
proof (cases "num_less (Fin 0) consumed")
  case True
  then show ?thesis
    by (simp add: reset_refund_def reqId_def random_hex_def guarantee_draw)
next
  case False
  then have "guarantee (quotaenforcer (GetUsage lk) []) (Inr res) (s\<lparr>draws := Suc (draws s)\<rparr>)
      (fst (reset_refund d ctx lk fetchedAt k consumed s))"
    by (simp add: reset_refund_def reqId_def random_hex_def)
       (rule guarantee_append, simp add: log_effect_def idle_reset_def entry_of_def NewEntry.defs max_zero_less)
  then show ?thesis by (rule guarantee_after_draw)
qed

lemma resetWindow_conforms:
  assumes "finishing k" "may (quotaenforcer (GetUsage lk) [])"
    and "\<And>a rq. num_less (Fin 0) a \<Longrightarrow> may (quotaenforcer (Refund lk a rq) (actorMetadata (ctx_actor ctx)))"
  shows "conforms may pre guarantee (snd (resetWindow d ctx lk k s0))"
proof -
  have "guarantee (quotaenforcer (GetUsage lk) []) (Inr res) s (fst (try_do x (reset_refund d ctx lk f k) s))
      \<and> conforms may pre guarantee (snd (try_do x (reset_refund d ctx lk f k) s))" for x f res s
    using reset_refund_guarantee reset_refund_conforms [of k may lk ctx pre] assms
    by (cases x) auto
  then show ?thesis
    unfolding resetWindow_def Let_def split_def
    by (intro conforms_call) (use assms(2) in auto)
qed

section \<open>What a request may do\<close>

text \<open>The capability and the service a pending operation is guarded with.\<close>

fun op_key :: "PendingOp \<Rightarrow> limit_key" where
  "op_key (PLimitUpdate k _ _) = k"
| "op_key (PLimitDelete k) = k"
| "op_key (PRefund k _) = k"
| "op_key (PReset k) = k"

fun op_capability :: "PendingOp \<Rightarrow> Capability" where
  "op_capability (PLimitUpdate _ _ _) = Limit_write"
| "op_capability (PLimitDelete _) = Limit_delete"
| "op_capability (PRefund _ _) = Op_refund"
| "op_capability (PReset _) = Op_reset"

text \<open>
  The calls a request of user \<open>u\<close> may make, given the reviews \<open>rs\<close>: any read; and, in the user's own
  name, a change that needs no review and that the user is authorised for, or a change that an
  approved review asks for and that this user approved.
\<close>

definition direct_change :: "Deps \<Rightarrow> User \<Rightarrow> rpc_request \<Rightarrow> bool" where
  "direct_change d u q \<longleftrightarrow>
     (\<exists>op. carries_out op q \<and> reviewReason op (reviewPolicy d) = None
        \<and> authorize u (op_capability op) (Some (service_name (op_key op))) (policy d) = Authz_ok)
     \<or> (\<exists>k v t. q = CreateLimit k v t \<and> authorize u Limit_write (Some (service_name k)) (policy d) = Authz_ok)
     \<or> (\<exists>v. q = RegisterService v
          \<and> (authorize u Service_create (Some (svc_name v)) (policy d) = Authz_ok
             \<or> authorize u Service_edit (Some (svc_name v)) (policy d) = Authz_ok))"

definition reviewed_change :: "review_store \<Rightarrow> string \<Rightarrow> rpc_request \<Rightarrow> bool" where
  "reviewed_change rs who q \<longleftrightarrow>
     (\<exists>i r. map_get rs i = Some r \<and> status r = Approved \<and> decidedBy r = Some who \<and> carries_out (rop r) q)"

definition permitted :: "Deps \<Rightarrow> review_store \<Rightarrow> User \<Rightarrow> rpc_call \<Rightarrow> bool" where
  "permitted d rs u c \<longleftrightarrow>
     \<not> mutating (request c)
     \<or> actor_of c = Some (email u) \<and> (direct_change d u (request c) \<or> reviewed_change rs (email u) (request c))"

text \<open>What the first stretch of a request does to the state.\<close>

definition advance :: "Deps \<Rightarrow> bff \<Rightarrow> bff \<Rightarrow> bool" where
  "advance d s s' \<longleftrightarrow>
     gstore s' = gstore s \<and> sessions s' = sessions s \<and> action_log s' = action_log s \<and> draws s \<le> draws s'
     \<and> (reviews s' = reviews s
        \<or> (\<exists>n now op who why. draws s \<le> n \<and> n < draws s'
             \<and> reviews s' = snd (review_create (hex d 12 n) now op who why (reviews s)))
        \<or> (\<exists>i who dec now. reviews s' = snd (review_decide i who dec now (reviews s))))"

lemma advance_refl [simp]: "advance d s s"
  by (simp add: advance_def)

abbreviation keeps_email :: "Session \<Rightarrow> string \<Rightarrow> bff \<Rightarrow> bool" where
  "keeps_email sess e s \<equiv> email (session_user s sess) = e"

definition decent :: "Deps \<Rightarrow> Session \<Rightarrow> bff \<Rightarrow> bff \<times> bff_act \<Rightarrow> bool" where
  "decent d sess s res \<longleftrightarrow> advance d s (fst res)
     \<and> conforms (permitted d (reviews (fst res)) (session_user s sess))
         (keeps_email sess (email (session_user s sess))) guarantee (snd res)"

section \<open>Building blocks\<close>

lemma decent_respond [simp]: "decent d sess s (respond n p s)"
  by (simp add: decent_def)

lemma decent_throw [simp]: "decent d sess s (s, Throw e)"
  by (simp add: decent_def)

lemma decent_try_do: "(\<And>a. x = Inr a \<Longrightarrow> decent d sess s (k a s)) \<Longrightarrow> decent d sess s (try_do x k s)"
  by (cases x) auto

lemma decent_with_valid:
  "(\<And>a. v = Inr (Valid a) \<Longrightarrow> decent d sess s (k a s)) \<Longrightarrow> decent d sess s (with_valid v k s)"
  unfolding with_valid_def by (rule decent_try_do) (auto split: validated.splits)

lemma decent_guard:
  "(authorize (session_user s sess) cap svc (policy d) = Authz_ok \<Longrightarrow> decent d sess s (k s)) \<Longrightarrow>
     decent d sess s (guard d sess cap svc k s)"
  by (auto simp: guard_def split: AuthzResult.splits)

lemma decent_read:
  "well_addressed c \<Longrightarrow> \<not> mutating (request c) \<Longrightarrow> finishing k \<Longrightarrow> decent d sess s (call c k s)"
  by (auto simp: decent_def permitted_def intro!: conforms_read)

lemma advance_create:
  assumes "reviews_create d op who why s = (r, s')"
  shows "advance d s s'"
proof -
  from assms have s': "gstore s' = gstore s" "sessions s' = sessions s" "action_log s' = action_log s"
      "draws s' = Suc (draws s)"
      "reviews s' = snd (review_create (hex d 12 (draws s)) (iso_of_ms (clock d (ticks s))) op who why (reviews s))"
    by (auto simp: reviews_create_def random_hex_def iso_now_def date_now_def Let_def split: prod.splits)
  show ?thesis unfolding advance_def s' by (auto intro!: exI [of _ "draws s"])
qed

lemma advance_decide:
  assumes "reviews_decide d i who dec s = (res, s')"
  shows "advance d s s'"
proof (cases res)
  case (Inl e)
  with assms show ?thesis
    by (auto simp: reviews_decide_def iso_now_def date_now_def Let_def split: prod.splits)
next
  case (Inr r)
  with assms have s': "gstore s' = gstore s" "sessions s' = sessions s" "action_log s' = action_log s"
      "draws s' = draws s"
      "reviews s' = snd (review_decide i who dec (iso_of_ms (clock d (ticks s))) (reviews s))"
    by (auto simp: reviews_decide_def iso_now_def date_now_def Let_def split: prod.splits)
  show ?thesis unfolding advance_def s' by blast
qed

lemma decent_review_or_apply:
  assumes "reviewReason op (reviewPolicy d) = None \<Longrightarrow> decent d sess s (direct s)"
  shows "decent d sess s (review_or_apply d sess op direct s)"
proof (cases "reviewReason op (reviewPolicy d)")
  case None
  with assms show ?thesis by (simp add: review_or_apply_def)
next
  case (Some why)
  then obtain c cs where why: "why = c # cs" using reviewReason_nonempty by (cases why) auto
  obtain r s' where eq: "reviews_create d op (email (session_user s sess)) (c # cs) s = (r, s')" by force
  show ?thesis using Some why eq advance_create [OF eq] by (simp add: review_or_apply_def decent_def)
qed

lemma permitted_read [simp]: "\<not> mutating (request c) \<Longrightarrow> permitted d rs u c"
  by (simp add: permitted_def)

lemma permitted_change:
  "actor_of c = Some (email u) \<Longrightarrow> direct_change d u (request c) \<Longrightarrow> permitted d rs u c"
  by (simp add: permitted_def)

lemma direct_op:
  "carries_out op q \<Longrightarrow> reviewReason op (reviewPolicy d) = None \<Longrightarrow>
     authorize u (op_capability op) (Some (service_name (op_key op))) (policy d) = Authz_ok \<Longrightarrow>
     direct_change d u q"
  by (auto simp: direct_change_def)

lemma actor_of_calls [simp]:
  "actor_of (quotamgmt q (actorMetadata who)) = Some who"
  "actor_of (quotaenforcer q (actorMetadata who)) = Some who"
  by (rule actor_of_actorMetadata; simp)+

lemma opContext_actor [simp]: "ctx_actor (opContext s sess) = email (session_user s sess)"
  by (simp add: opContext_def)

lemma operation_state [simp]:
  "fst (createLimit d ctx v k s) = s"
  "fst (updateLimit d ctx lk lv tu b k s) = s"
  "fst (deleteLimit d ctx lk am ku s) = s"
  "fst (refund d ctx lk a kr s) = s\<lparr>draws := Suc (draws s)\<rparr>"
  "fst (resetWindow d ctx lk kw s) = s\<lparr>ticks := Suc (ticks s)\<rparr>"
  by (simp_all add: operation_defs reqId_def random_hex_def iso_now_def date_now_def)

lemma advance_draw [simp]: "advance d s (s\<lparr>draws := Suc (draws s)\<rparr>)" "advance d s (s\<lparr>ticks := t\<rparr>)"
  by (simp_all add: advance_def)

section \<open>The routes\<close>

lemmas decent_intros =
  decent_try_do decent_with_valid decent_guard decent_review_or_apply decent_read
  decent_respond decent_throw

end
