(* ===== verification/Guarded.thy ===== *)
theory Guarded
  imports Conformance
begin

text \<open>The routes, one by one, keep to the discipline of the theory \<open>Conformance\<close>.\<close>

section \<open>Reads\<close>

lemma get_limits_decent: "decent d sess s (get_limits d req b sess s)"
  unfolding get_limits_def by (auto intro!: decent_intros)

lemma get_services_decent: "decent d sess s (get_services d req b sess s)"
  unfolding get_services_def by (auto intro!: decent_intros)

lemma get_service_decent: "decent d sess s (get_service name d req b sess s)"
  unfolding get_service_def by (auto intro!: decent_intros)

lemma get_audit_decent: "decent d sess s (get_audit d req b sess s)"
  unfolding get_audit_def by (auto intro!: decent_intros)

lemma get_audit_config_decent: "decent d sess s (get_audit_config i d req b sess s)"
  unfolding get_audit_config_def by (auto intro!: decent_intros)

lemma get_reviews_decent: "decent d sess s (get_reviews d req b sess s)"
  unfolding get_reviews_def by (auto intro!: decent_intros)

lemma actionlog_route_decent: "decent d sess s (actionlog_route d req b sess s)"
  unfolding actionlog_route_def by (auto intro!: decent_intros)

lemma session_route_decent: "decent d sess s (session_route d req b sess s)"
  unfolding session_route_def by (auto intro!: decent_intros)

lemma get_usage_decent: "decent d sess s (get_usage d req b sess s)"
proof -
  have "decent d sess s (call (quotaenforcer (GetUsage lk) []) (\<lambda>res.
      try_do (toUsageView lk (res_usage res) f) (\<lambda>u. respond 200 (P_usage u))) (s\<lparr>ticks := t\<rparr>))" for lk f t
    by (auto simp: decent_def intro!: conforms_read)
  then show ?thesis
    unfolding get_usage_def
    by (auto intro!: decent_with_valid decent_guard simp: iso_now_def date_now_def)
qed

lemma conforms_read_or:
  assumes "well_addressed c" "may c" "\<not> mutating (request c)" "finishing k" "finishing h"
  shows "conforms may pre guarantee (snd (call_or c k h s))"
proof -
  have "guarantee c r s (fst (case call_result r of Inl e \<Rightarrow> h e s | Inr res \<Rightarrow> k res s)) \<and>
      final (snd (case call_result r of Inl e \<Rightarrow> h e s | Inr res \<Rightarrow> k res s))" for r s
    using assms(3-5) by (cases r) auto
  with assms(1,2) show ?thesis by (simp add: conforms_Await)
qed

lemma get_resolve_decent: "decent d sess s (get_resolve d req b sess s)"
proof -
  have "finishing (\<lambda>e s. case e of
      RpcError http m c \<Rightarrow> if http = 404 then respond 200 (P_unconfigured lk) s else throw e s
    | OtherError m \<Rightarrow> throw e s)" for lk
    by (auto simp: finishing_def split: js_error.splits)
  then have "decent d sess s (call_or (quotamgmt (GetLimit lk True) [])
      (\<lambda>res. try_do (toLimitView (res_limit res) (res_is_default res)) (\<lambda>v. respond 200 (P_resolved v)))
      (\<lambda>e s. case e of RpcError http m c \<Rightarrow> if http = 404 then respond 200 (P_unconfigured lk) s else throw e s
              | OtherError m \<Rightarrow> throw e s) s)" for lk
    unfolding decent_def by (intro conjI conforms_read_or) simp_all
  then show ?thesis
    unfolding get_resolve_def by (intro decent_with_valid decent_guard)
qed

section \<open>Changes\<close>

lemma key_service_name [simp]: "service_name (key v) = service_name v"
  by (simp add: key_def)

lemma post_limits_decent: "decent d sess s (post_limits d req b sess s)"
  unfolding post_limits_def
  by (intro decent_with_valid decent_guard)
     (auto simp: decent_def direct_change_def intro!: createLimit_conforms permitted_change)

lemma put_limits_decent: "decent d sess s (put_limits d req b sess s)"
  unfolding put_limits_def
  by (intro decent_with_valid decent_guard decent_review_or_apply)
     (auto simp: decent_def intro!: updateLimit_conforms permitted_change
        direct_op [of "PLimitUpdate _ _ _"])

lemma delete_limits_decent: "decent d sess s (delete_limits d req b sess s)"
  unfolding delete_limits_def
  by (intro decent_with_valid decent_guard decent_review_or_apply)
     (auto simp: decent_def intro!: deleteLimit_conforms permitted_change
        direct_op [of "PLimitDelete _"])

lemma post_refund_decent: "decent d sess s (post_refund d req b sess s)"
proof -
  have "decent d sess s (guard d sess Op_refund (Some (service_name lk))
      (review_or_apply d sess (PRefund lk a)
        (\<lambda>s. refund d (opContext s sess) lk a (\<lambda>r. respond 200 (P_refund r)) s)) s)" for lk a
    by (intro decent_guard decent_review_or_apply)
       (auto simp: decent_def intro!: refund_conforms permitted_change direct_op [of "PRefund _ _"])
  then show ?thesis
    unfolding post_refund_def by (intro decent_with_valid) (auto split: sum.splits)
qed

lemma permitted_reset:
  "reviewReason (PReset lk) (reviewPolicy d) = None \<Longrightarrow> num_less (Fin 0) a \<Longrightarrow>
     authorize u Op_reset (Some (service_name lk)) (policy d) = Authz_ok \<Longrightarrow>
     permitted d rs u (quotaenforcer (Refund lk a rq) (actorMetadata (email u)))"
  by (rule permitted_change) (simp_all add: direct_op [of "PReset lk"])

lemma post_reset_decent: "decent d sess s (post_reset d req b sess s)"
  unfolding post_reset_def
  by (intro decent_with_valid decent_guard decent_review_or_apply)
     (simp add: decent_def resetWindow_conforms permitted_reset del: reviewReason.simps)

lemma register_service_decent:
  assumes "authorize (session_user s sess) Service_create (Some (svc_name v)) (policy d) = Authz_ok
      \<and> act = ''service:create''
    \<or> authorize (session_user s sess) Service_edit (Some (svc_name v)) (policy d) = Authz_ok
      \<and> act = ''service:edit''"
  shows "decent d sess s (register_service d sess act n v s)"
proof -
  have "permitted d rs (session_user s sess)
      (quotamgmt (RegisterService v) (actorMetadata (email (session_user s sess))))" for rs
    using assms by (intro permitted_change) (auto simp: direct_change_def)
  then show ?thesis
    unfolding register_service_def
    using assms
    by (auto simp: decent_def log_effect_def records_def idle_reset_def NewEntry.defs Let_def
        intro!: conforms_call guarantee_append)
qed

lemma post_services_decent: "decent d sess s (post_services d req b sess s)"
  unfolding post_services_def
  by (intro decent_with_valid decent_guard register_service_decent) auto

lemma put_service_decent: "decent d sess s (put_service name d req b sess s)"
  unfolding put_service_def
  by (intro decent_with_valid decent_guard register_service_decent) auto

section \<open>Decisions\<close>

lemma finishing_comp: "finishing k \<Longrightarrow> finishing (\<lambda>x. k (f x))"
  unfolding finishing_def by blast

lemma executePendingOp_conforms:
  assumes "finishing k" and "\<And>c. \<not> mutating (request c) \<Longrightarrow> may c"
    and "\<And>c. actor_of c = Some (ctx_actor ctx) \<Longrightarrow> carries_out op (request c) \<Longrightarrow> may c"
  shows "conforms may pre guarantee (snd (executePendingOp d ctx op k s))"
proof (cases op)
  case (PLimitUpdate lk lv tu)
  then show ?thesis using assms(3) by (simp add: updateLimit_conforms finishing_comp [OF assms(1)])
next
  case (PLimitDelete lk)
  then show ?thesis using assms(3) by (simp add: deleteLimit_conforms finishing_comp [OF assms(1)])
next
  case (PRefund lk a)
  then show ?thesis using assms(3) by (simp add: refund_conforms finishing_comp [OF assms(1)])
next
  case (PReset lk)
  then show ?thesis using assms(2,3) by (simp add: resetWindow_conforms finishing_comp [OF assms(1)])
qed

lemma executePendingOp_state:
  "fst (executePendingOp d ctx op k s) \<in> {s, s\<lparr>draws := Suc (draws s)\<rparr>, s\<lparr>ticks := Suc (ticks s)\<rparr>}"
  by (cases op) auto

lemma decide_approved:
  assumes "reviews_decide d i who Approve s = (Inr r, s')"
  shows "map_get (reviews s') i = Some r" "status r = Approved" "decidedBy r = Some who"
    "initiator r \<noteq> who" "\<exists>r0. map_get (reviews s) i = Some r0 \<and> status r0 = Pending \<and> rop r0 = rop r \<and> initiator r0 = initiator r"
  using assms
  by (auto simp: reviews_decide_def review_decide_def iso_now_def date_now_def Let_def
      split: option.splits if_splits prod.splits)

lemma advance_more:
  "advance d s s1 \<Longrightarrow> s2 \<in> {s1, s1\<lparr>draws := Suc (draws s1)\<rparr>, s1\<lparr>ticks := Suc (ticks s1)\<rparr>} \<Longrightarrow>
     advance d s s2 \<and> reviews s2 = reviews s1"
  by (auto simp: advance_def; force)

lemma post_reject_decent: "decent d sess s (post_reject i d req b sess s)"
proof -
  obtain res s' where eq: "reviews_decide d i (email (session_user s sess)) Reject s = (res, s')"
    by force
  show ?thesis
    unfolding post_reject_def using advance_decide [OF eq]
    by (intro decent_guard) (auto simp: eq decent_def split: sum.splits)
qed

lemma post_approve_decent: "decent d sess s (post_approve i d req b sess s)"
proof -
  define who where "who = email (session_user s sess)"
  obtain res s' where eq: "reviews_decide d i who Approve s = (res, s')" by force
  have adv: "advance d s s'" by (rule advance_decide [OF eq])
  have "decent d sess s (executePendingOp d
      \<lparr>ctx_actor = who, ctx_initiator = Some (initiator r), ctx_approver = Some who\<rparr>
      (rop r) (\<lambda>result. respond 200 (P_approved r result)) s')" (is "decent _ _ _ ?run")
    if "res = Inr r" for r
  proof -
    have r: "map_get (reviews s') i = Some r" "status r = Approved" "decidedBy r = Some who"
      using decide_approved [of d i who s r s'] eq that by auto
    have st: "advance d s (fst ?run)" "reviews (fst ?run) = reviews s'"
      using advance_more [OF adv executePendingOp_state] by auto
    have "reviewed_change (reviews s') who q" if "carries_out (rop r) q" for q
      using r that by (auto simp: reviewed_change_def)
    then show ?thesis
      unfolding decent_def st(2) using st(1)
      by (auto simp: permitted_def who_def intro!: executePendingOp_conforms)
  qed
  then show ?thesis
    unfolding post_approve_def who_def [symmetric]
    by (intro decent_guard) (use adv in \<open>auto simp: eq who_def [symmetric] decent_def [of _ _ _ "respond _ _ s'"] Let_def split: sum.splits\<close>)
qed

end
