(* ===== verification/Server.thy ===== *)
theory Server
  imports Guarded
begin

text \<open>
  The whole server: every route conforms, so the server is an instance of the licensed and of the
  bookkeeping server of the theory \<open>Async\<close>. What follows holds for every interleaving of requests and replies,
  for every reply a backend may give, and while grants are changed under way.
\<close>

section \<open>Dispatch\<close>

lemma param_route_decent:
  "(\<And>v. decent d sess s (h v d req b sess s)) \<Longrightarrow> decent d sess s (param_route pl h x d req b sess s)"
  by (simp add: param_route_def with_param_def split: option.splits)

lemmas route_decent =
  get_limits_decent get_resolve_decent post_limits_decent put_limits_decent delete_limits_decent
  post_refund_decent post_reset_decent get_reviews_decent post_approve_decent post_reject_decent
  get_services_decent get_service_decent post_services_decent put_service_decent get_audit_decent
  get_audit_config_decent get_usage_decent session_route_decent actionlog_route_decent param_route_decent

lemma api_route_decent:
  assumes "api_route pl m p = Some h"
  shows "decent d sess s (h d req b sess s)"
  using assms unfolding api_route_def
  by (auto split: list.splits if_splits simp: route_decent)

lemma after_routes_final: "fst (after_routes pl req s) = s" "final (snd (after_routes pl req s))"
  by (simp_all add: after_routes_def)

lemma after_routes_decent: "decent d sess s (after_routes pl req s)"
  by (simp add: decent_def after_routes_final)

lemma api_decent: "decent d x s (api pl d req b (Some x) p s)"
  by (auto simp: api_def requireAuth_def requireCsrf_def after_routes_decent
      split: option.splits dest: api_route_decent)

lemma api_no_session: "api pl d req b None p s = respond 401 (P_error ''not authenticated'') s"
  by (simp add: api_def requireAuth_def)

text \<open>What the first stretch of any request comes to.\<close>

lemma devLogin_cases:
  obtains (refused) "fst (devLogin d b s) = s" "final (snd (devLogin d b s))"
  | (opened) i u where "authMode d = Dev" "grants_get i (gstore s) = Some u"
      "fst (devLogin d b s) = snd (sessions_create d u s)" "final (snd (devLogin d b s))"
proof (cases "authMode d")
  case Oidc
  then show ?thesis by (intro refused) (simp_all add: devLogin_def)
next
  case Dev
  show ?thesis
  proof (cases "js_String (or_default (prop_opt b ''user'') (JStr []))")
    case (Inl e)
    with Dev show ?thesis by (intro refused) (simp_all add: devLogin_def)
  next
    case (Inr i)
    show ?thesis
    proof (cases "grants_get i (gstore s)")
      case None
      with Dev Inr show ?thesis by (intro refused) (simp_all add: devLogin_def)
    next
      case (Some u)
      with Dev Inr show ?thesis by (intro opened) (simp_all add: devLogin_def split_def Let_def)
    qed
  qed
qed

lemma serve_shape:
  "fst (serve pl d req s) = s \<and> final (snd (serve pl d req s))
   \<or> (\<exists>b p. serve pl d req s = api pl d req b (attachSession req s) p s)
   \<or> (\<exists>b. serve pl d req s = devLogin d b s)
   \<or> serve pl d req s = Auth.logout req s"
proof (cases "body req")
  case (Inl m)
  then show ?thesis by (simp add: serve_def)
next
  case (Inr b)
  then show ?thesis
    by (cases "path req") (simp_all add: serve_def Let_def after_routes_final, blast+)
qed

lemma serve_cases:
  obtains (api) sess where "attachSession req s = Some sess" "decent d sess s (serve pl d req s)"
  | (still) "fst (serve pl d req s) = s" "final (snd (serve pl d req s))"
  | (login) i u where "authMode d = Dev" "grants_get i (gstore s) = Some u"
      "fst (serve pl d req s) = snd (sessions_create d u s)" "final (snd (serve pl d req s))"
  | (logout) "fst (serve pl d req s) = s\<lparr>sessions := session_destroy (own (cookies req) SESSION_COOKIE) (sessions s)\<rparr>"
      "final (snd (serve pl d req s))"
proof -
  consider (halt) "fst (serve pl d req s) = s \<and> final (snd (serve pl d req s))"
    | (api_path) b p where "serve pl d req s = api pl d req b (attachSession req s) p s"
    | (dev) b where "serve pl d req s = devLogin d b s"
    | (out) "serve pl d req s = Auth.logout req s"
    using serve_shape [of pl d req s] by blast
  then show ?thesis
  proof cases
    case halt
    then show ?thesis using still by blast
  next
    case (api_path b p)
    show ?thesis
    proof (cases "attachSession req s")
      case None
      then show ?thesis using api_path by (intro still) (simp_all add: api_no_session)
    next
      case (Some x)
      then show ?thesis using api_path api_decent by (intro api) simp_all
    qed
  next
    case (dev b)
    show ?thesis
      by (rule devLogin_cases [of d b s]) (use dev still login in auto)
  next
    case out
    then show ?thesis using logout by (simp add: logout_def)
  qed
qed

section \<open>The invariant\<close>

text \<open>
  Identifiers of reviews are random. That no two of the draws agree is what the code relies on; it is
  a hypothesis of the results below.
\<close>

definition distinct_draws :: "Deps \<Rightarrow> bool" where
  "distinct_draws d \<longleftrightarrow> (\<forall>m n. hex d 12 m = hex d 12 n \<longrightarrow> m = n)"

definition drawn :: "Deps \<Rightarrow> bff \<Rightarrow> bool" where
  "drawn d s \<longleftrightarrow> (\<forall>i r. map_get (reviews s) i = Some r \<longrightarrow> (\<exists>n < draws s. i = hex d 12 n))"

definition bff_ok :: "Deps \<Rightarrow> bff \<Rightarrow> bool" where
  "bff_ok d s \<longleftrightarrow> distinct_draws d \<and> grants_ok (gstore s) \<and> sessions_ok (length (heap (gstore s))) (sessions s)
     \<and> store_ok (reviews s) \<and> log_ok (action_log s) \<and> drawn d s"

lemma bff_ok_init: "distinct_draws d \<Longrightarrow> bff_ok d (new_state (new_grants seed))"
  by (simp add: bff_ok_def new_state_def grants_ok_new drawn_def)

lemma drawn_mono: "drawn d s \<Longrightarrow> reviews s' = reviews s \<Longrightarrow> draws s \<le> draws s' \<Longrightarrow> drawn d s'"
  unfolding drawn_def by (metis order_less_le_trans)

lemma reviews_kept_create:
  assumes "distinct_draws d" "drawn d s" "draws s \<le> n" "map_get (reviews s) i = Some r"
  shows "map_get (snd (review_create (hex d 12 n) now op who why (reviews s))) i = Some r"
proof -
  obtain m where "m < draws s" "i = hex d 12 m" using assms(2,4) by (auto simp: drawn_def)
  moreover from this have "m \<noteq> n" using assms(3) by simp
  ultimately have "i \<noteq> hex d 12 n" using assms(1) unfolding distinct_draws_def by blast
  then show ?thesis using assms(4) by (simp add: review_create_def Let_def)
qed

lemma reviews_kept_decide:
  assumes "map_get rs i = Some r" "status r \<noteq> Pending"
  shows "map_get (snd (review_decide j who dec now rs)) i = Some r"
  using assms by (auto simp: review_decide_def Let_def split: option.splits)

lemma advance_keeps:
  assumes "bff_ok d s" "advance d s s'" "map_get (reviews s) i = Some r" "status r \<noteq> Pending"
  shows "map_get (reviews s') i = Some r"
  using assms(2) unfolding advance_def
  using assms(1,3,4) reviews_kept_create [of d s] reviews_kept_decide [of "reviews s" i r]
  by (auto simp: bff_ok_def)

lemma decide_dom:
  "map_get (snd (review_decide j who dec now rs)) i = Some r \<Longrightarrow> \<exists>r0. map_get rs i = Some r0"
  by (auto simp: review_decide_def Let_def split: option.splits if_splits)

lemma advance_drawn:
  assumes "drawn d s" "advance d s s'"
  shows "drawn d s'"
proof -
  from assms(2) have le: "draws s \<le> draws s'" by (simp add: advance_def)
  have old: "\<exists>n < draws s'. i = hex d 12 n" if "map_get (reviews s) i = Some r" for i r
    using assms(1) that le unfolding drawn_def by (meson order_less_le_trans)
  from assms(2) show ?thesis
    unfolding advance_def drawn_def using old
    by (auto simp: review_create_def Let_def dest!: decide_dom split: if_splits)
qed

lemma advance_ok:
  assumes "bff_ok d s" "advance d s s'" shows "bff_ok d s'"
proof -
  have "store_ok (reviews s')"
    using assms unfolding advance_def bff_ok_def by (auto intro: store_ok_create store_ok_decide)
  then show ?thesis
    using assms advance_drawn [OF _ assms(2)] by (auto simp: bff_ok_def advance_def)
qed

lemma sessions_create_simps:
  "gstore (snd (sessions_create d u s)) = gstore s" "reviews (snd (sessions_create d u s)) = reviews s"
  "action_log (snd (sessions_create d u s)) = action_log s" "draws s \<le> draws (snd (sessions_create d u s))"
  "\<exists>i t now. sessions (snd (sessions_create d u s)) = snd (session_create i t now u (sessions s))"
  by (simp_all add: sessions_create_def random_hex_def date_now_def Let_def split_def) blast

lemma sessions_create_ok:
  assumes "bff_ok d s" "grants_get i (gstore s) = Some u"
  shows "bff_ok d (snd (sessions_create d u s))"
proof -
  have "u < length (heap (gstore s))" using assms by (auto simp: bff_ok_def grants_ok_def grants_get_def)
  then have "sessions_ok (length (heap (gstore s))) (sessions (snd (sessions_create d u s)))"
    using assms(1) sessions_create_simps(5) [of d u s] by (auto simp: bff_ok_def sessions_ok_create)
  moreover have "drawn d (snd (sessions_create d u s))"
    using assms(1) by (auto simp: bff_ok_def sessions_create_simps elim!: drawn_mono)
  ultimately show ?thesis using assms(1) by (simp add: bff_ok_def sessions_create_simps)
qed

lemma serve_ok:
  assumes "bff_ok d s" shows "bff_ok d (fst (serve pl d req s))"
proof (rule serve_cases [of req s d pl])
  fix sess assume "decent d sess s (serve pl d req s)"
  then show ?thesis using assms advance_ok by (auto simp: decent_def)
next
  fix i u assume "grants_get i (gstore s) = Some u" "fst (serve pl d req s) = snd (sessions_create d u s)"
  then show ?thesis using assms sessions_create_ok by simp
qed (use assms in \<open>auto simp: bff_ok_def sessions_ok_destroy drawn_def\<close>)

lemma guarantee_ok: "bff_ok d s \<Longrightarrow> guarantee c r s s' \<Longrightarrow> bff_ok d s'"
  by (auto simp: bff_ok_def guarantee_def elim!: drawn_mono)

lemma administer_ok: "bff_ok d s \<Longrightarrow> administer s s' \<Longrightarrow> bff_ok d s'"
  by (auto simp: bff_ok_def drawn_def grants_ok_setGrants grants_ok_put_new length_heap_put_new
      elim!: administer.cases intro: sessions_ok_mono)

section \<open>Licences\<close>

definition emails :: "bff \<Rightarrow> string set" where
  "emails s = email ` set (heap (gstore s))"

text \<open>A change that no review has to precede.\<close>

definition unreviewed :: "Deps \<Rightarrow> rpc_request \<Rightarrow> bool" where
  "unreviewed d q \<longleftrightarrow> (\<exists>op. carries_out op q \<and> reviewReason op (reviewPolicy d) = None)
     \<or> (\<exists>k v t. q = CreateLimit k v t) \<or> (\<exists>v. q = RegisterService v)"

definition warrant :: "Deps \<Rightarrow> bff \<Rightarrow> rpc_call \<Rightarrow> bool" where
  "warrant d s c \<longleftrightarrow> \<not> mutating (request c)
     \<or> (\<exists>who \<in> emails s. actor_of c = Some who
          \<and> (unreviewed d (request c) \<or> reviewed_change (reviews s) who (request c)))"

definition bff_licence :: "Deps \<Rightarrow> bff \<Rightarrow> (rpc_call \<Rightarrow> bool) \<Rightarrow> (bff \<Rightarrow> bool) \<Rightarrow> bool" where
  "bff_licence d s may pre \<longleftrightarrow> (\<forall>c. may c \<longrightarrow> warrant d s c) \<and> pre s
     \<and> (pre = (\<lambda>_. True) \<or> (\<exists>sess e. suser sess < length (heap (gstore s)) \<and> pre = keeps_email sess e))"

lemma emails_mono:
  assumes "\<And>a. a < length (heap (gstore s)) \<Longrightarrow>
      a < length (heap (gstore s')) \<and> email (user_at (gstore s') a) = email (user_at (gstore s) a)"
  shows "emails s \<subseteq> emails s'"
proof
  fix e assume "e \<in> emails s"
  then obtain a where "a < length (heap (gstore s))" "e = email (user_at (gstore s) a)"
    by (auto simp: emails_def user_at_def in_set_conv_nth)
  with assms [of a] have "a < length (heap (gstore s'))" "e = email (heap (gstore s') ! a)"
    by (simp_all add: user_at_def)
  then show "e \<in> emails s'" unfolding emails_def by (metis imageI nth_mem)
qed

text \<open>What a step of anybody leaves in place: the users' addresses, and settled reviews.\<close>

definition stable :: "bff \<Rightarrow> bff \<Rightarrow> bool" where
  "stable s s' \<longleftrightarrow>
     (\<forall>a < length (heap (gstore s)). a < length (heap (gstore s'))
        \<and> email (user_at (gstore s') a) = email (user_at (gstore s) a))
     \<and> (\<forall>i r. map_get (reviews s) i = Some r \<and> status r \<noteq> Pending \<longrightarrow> map_get (reviews s') i = Some r)"

lemma reviewed_change_stable:
  "stable s s' \<Longrightarrow> reviewed_change (reviews s) who q \<Longrightarrow> reviewed_change (reviews s') who q"
  unfolding stable_def reviewed_change_def by (metis ReviewStatus.distinct(1))

lemma warrant_stable: "stable s s' \<Longrightarrow> warrant d s c \<Longrightarrow> warrant d s' c"
  using emails_mono [of s s'] reviewed_change_stable [of s s']
  unfolding warrant_def by (auto simp: stable_def)

lemma licence_stable:
  assumes "stable s s'" "bff_licence d s may pre"
  shows "bff_licence d s' may pre"
proof -
  have "\<forall>c. may c \<longrightarrow> warrant d s' c"
    using assms(2) warrant_stable [OF assms(1)] by (simp add: bff_licence_def)
  moreover have "pre s' \<and> (pre = (\<lambda>_. True) \<or>
      (\<exists>sess e. suser sess < length (heap (gstore s')) \<and> pre = keeps_email sess e))"
  proof (cases "pre = (\<lambda>_. True)")
    case False
    then obtain sess e where p: "suser sess < length (heap (gstore s))" "pre = keeps_email sess e" "pre s"
      using assms(2) by (auto simp: bff_licence_def)
    then have "keeps_email sess e s'" "suser sess < length (heap (gstore s'))"
      using assms(1) by (simp_all add: stable_def session_user_def)
    then show ?thesis unfolding p(2) by blast
  qed simp
  ultimately show ?thesis by (simp add: bff_licence_def)
qed

lemma stable_same: "gstore s' = gstore s \<Longrightarrow> reviews s' = reviews s \<Longrightarrow> stable s s'"
  by (simp add: stable_def)

lemma advance_stable:
  assumes "bff_ok d s" "advance d s s'"
  shows "stable s s'"
proof -
  have "gstore s' = gstore s" using assms(2) by (simp add: advance_def)
  then show ?thesis using advance_keeps [OF assms] by (simp add: stable_def)
qed

lemma serve_stable:
  assumes "bff_ok d s" shows "stable s (fst (serve pl d req s))"
proof (rule serve_cases [of req s d pl])
  fix sess assume "decent d sess s (serve pl d req s)"
  then show ?thesis using advance_stable [OF assms] by (simp add: decent_def)
qed (auto intro!: stable_same simp: sessions_create_simps)

lemma guarantee_stable: "guarantee c r s s' \<Longrightarrow> stable s s'"
  by (auto simp: guarantee_def intro: stable_same)

lemma administer_stable: "administer s s' \<Longrightarrow> stable s s'"
  by (auto simp: stable_def user_at_put_new length_heap_put_new elim!: administer.cases)

lemma permitted_warrant: "permitted d (reviews s) u c \<Longrightarrow> email u \<in> emails s \<Longrightarrow> warrant d s c"
  by (auto simp: permitted_def warrant_def direct_change_def unreviewed_def)

lemma attach_user:
  assumes "bff_ok d s" "attachSession req s = Some sess"
  shows "suser sess < length (heap (gstore s))"
  using assms session_get_ok by (fastforce simp: bff_ok_def attachSession_def)

lemma no_licence: "bff_licence d s (\<lambda>_. False) (\<lambda>_. True)"
  by (simp add: bff_licence_def)

lemma serve_licensed:
  assumes ok: "bff_ok d s"
  shows "\<exists>may pre. bff_licence d (fst (serve pl d req s)) may pre
    \<and> conforms may pre guarantee (snd (serve pl d req s))"
proof (rule serve_cases [of req s d pl])
  fix sess assume sess: "attachSession req s = Some sess" and dec: "decent d sess s (serve pl d req s)"
  define s' where "s' = fst (serve pl d req s)"
  have adv: "advance d s s'" using dec by (simp add: decent_def s'_def)
  have lt: "suser sess < length (heap (gstore s))" by (rule attach_user [OF ok sess])
  then have "email (session_user s sess) \<in> emails s'"
    using adv by (simp add: emails_def session_user_def user_at_def advance_def)
  then have "bff_licence d s' (permitted d (reviews s') (session_user s sess))
      (keeps_email sess (email (session_user s sess)))"
    using adv lt permitted_warrant by (auto simp: bff_licence_def advance_def session_user_def)
  then show ?thesis using dec unfolding decent_def s'_def by blast
qed (use final_conforms no_licence in blast)+

section \<open>The server as an instance\<close>

abbreviation log_entries :: "bff \<Rightarrow> ActionLogEntry list" where
  "log_entries s \<equiv> entries (action_log s)"

lemma serve_log: "log_entries (fst (serve pl d req s)) = log_entries s"
proof (rule serve_cases [of req s d pl])
  fix sess assume "decent d sess s (serve pl d req s)"
  then show ?thesis by (simp add: decent_def advance_def)
qed (auto simp: sessions_create_simps)

interpretation bff: bookkeeping_server "serve pl d" administer "bff_ok d" "bff_licence d" guarantee
    log_entries log_effect
  for pl d
proof (unfold_locales, goal_cases)
  case (1 s q s' a)
  then show ?case using serve_ok [of d s pl q] serve_licensed [of d s pl q] by simp
next
  case (2 s may pre)
  then show ?case by (simp add: bff_licence_def)
next
  case (3 s q s' a may pre)
  then show ?case using serve_stable [of d s pl q] licence_stable by simp
next
  case (4 s c r s')
  then show ?case by (rule guarantee_ok)
next
  case (5 s c r s' may pre)
  then show ?case using guarantee_stable licence_stable by blast
next
  case (6 s s')
  then show ?case by (rule administer_ok)
next
  case (7 s s' may pre)
  then show ?case using administer_stable licence_stable by blast
next
  case (8 s q s' a)
  then show ?case using serve_log [of pl d q s] by simp
next
  case (9 s c r s')
  then show ?case by (auto simp: guarantee_def)
next
  case (10 s s')
  then show ?case by (auto elim: administer.cases)
qed

text \<open>The state of the server at any moment of any run.\<close>

lemma running_ok: "distinct_draws d \<Longrightarrow> running pl d (new_grants seed) w \<Longrightarrow> bff_ok d (store w)"
  by (rule bff.reachable_inv [OF bff_ok_init])

lemma running_warrant:
  assumes "distinct_draws d" "running pl d (new_grants seed) w" "Issued t c \<in> set (trace w)"
  shows "warrant d (store w) c"
  using bff.every_call_licensed [OF bff_ok_init [OF assms(1)] assms(2,3)]
  by (auto simp: bff_licence_def)

section \<open>The log and the replies\<close>

definition applied :: "(rpc_call \<times> rpc_reply) list \<Rightarrow> rpc_call list" where
  "applied xs = map fst (filter (\<lambda>(c, r). mutating (request c) \<and> (case r of Inl _ \<Rightarrow> False | Inr _ \<Rightarrow> True)) xs)"

lemma effect_records:
  assumes "log_effect c r es"
  shows "list_all2 records (filter (\<lambda>e. \<not> idle_reset e) es) (applied [(c, r)])"
  using assms
  by (cases r) (auto simp: log_effect_def applied_def list_all_iff filter_empty_conv split: if_splits)

lemma applied_Cons: "applied (x # xs) = applied [x] @ applied xs"
  by (simp add: applied_def)

lemma effects_record:
  assumes "list_all2 (\<lambda>(c, r) es. log_effect c r es) xs ess"
  shows "list_all2 records (filter (\<lambda>e. \<not> idle_reset e) (concat ess)) (applied xs)"
  using assms
proof (induction rule: list_all2_induct)
  case Nil
  then show ?case by (simp add: applied_def)
next
  case (Cons x xs es ess)
  obtain c r where x: "x = (c, r)" by force
  with Cons.hyps(1) have "log_effect c r es" by simp
  from list_all2_appendI [OF effect_records [OF this] Cons.IH] show ?case
    by (simp add: x applied_Cons [of "(c, r)" xs])
qed

lemma running_log:
  assumes "distinct_draws d" "running pl d (new_grants seed) w"
  shows "list_all2 records (filter (\<lambda>e. \<not> idle_reset e) (log_entries (store w)))
    (applied (settlements (trace w)))"
proof -
  obtain ess where ess: "log_entries (store w) = log_entries (new_state (new_grants seed)) @ concat ess"
      "list_all2 (\<lambda>(c, r) es. log_effect c r es) (settlements (trace w)) ess"
    using bff.books_balance [OF bff_ok_init [OF assms(1)] assms(2)] by blast
  then have "log_entries (store w) = concat ess" by (simp add: new_state_def new_log_def)
  with effects_record [OF ess(2)] show ?thesis by simp
qed

end
