(* ===== verification/Gates.thy ===== *)
theory Gates
  imports Server
begin

text \<open>
  The gates in front of the routes: what happens without a session, without a CSRF token, in the
  mode without dev login, around login and logout, and on methods that must not change anything.
\<close>

section \<open>Dispatch of an API path\<close>

definition api_request :: "Request \<Rightarrow> bool" where
  "api_request req \<longleftrightarrow>
     (case body req of Inl _ \<Rightarrow> False | Inr _ \<Rightarrow> True)
     \<and> (case path req of a # p \<Rightarrow> is_segment ''api'' a | [] \<Rightarrow> False)
     \<and> \<not> (meth req = POST \<and> is_path [''api'', ''auth'', ''login''] (path req))
     \<and> \<not> (meth req = POST \<and> is_path [''api'', ''auth'', ''logout''] (path req))"

lemma api_not_healthz: "is_segment ''api'' a \<Longrightarrow> \<not> is_path [''healthz''] (a # p)"
  by (cases p) (auto simp: is_path_def is_segment_def drop_slash_def list_all2_Cons1 split: if_splits)

lemma api_request_serve:
  assumes "api_request req"
  obtains b p where "body req = Inr b" "tl (path req) = p"
    "serve pl d req s = api pl d req b (attachSession req s) p s"
  using assms api_not_healthz
  by (auto simp: api_request_def serve_def Let_def split: sum.splits list.splits)

lemma no_session_401:
  assumes "api_request req" "attachSession req s = None"
  shows "serve pl d req s = (s, Respond (reply 401 (P_error ''not authenticated'')))"
  by (rule api_request_serve [OF assms(1), of pl d s]) (simp add: assms(2) api_no_session respond_def)

lemma no_token_403:
  assumes "api_request req" "attachSession req s = Some sess"
    and "state_changing (meth req)" "\<not> csrf_passes req (Some sess)"
  shows "serve pl d req s = (s, Respond (reply 403 (P_error ''bad or missing CSRF token'')))"
  by (rule api_request_serve [OF assms(1), of pl d s])
     (simp add: assms(2-4) api_def requireAuth_def requireCsrf_def respond_def)

lemma csrf_passes_iff:
  "csrf_passes req (Some sess) \<longleftrightarrow>
     map_get (headers req) CSRF_HEADER = Some (csrfToken sess) \<and> csrfToken sess \<noteq> []"
  by (auto simp: csrf_passes_def split: option.splits)

section \<open>Safe methods\<close>

text \<open>A run that changes nothing but the count of clock readings and calls no method that changes anything.\<close>

abbreviation unchanged :: "rpc_call \<Rightarrow> rpc_reply \<Rightarrow> bff \<Rightarrow> bff \<Rightarrow> bool" where
  "unchanged c r s s' \<equiv> s' = s"

definition reads_only :: "bff \<Rightarrow> bff \<times> bff_act \<Rightarrow> bool" where
  "reads_only s res \<longleftrightarrow> (\<exists>t. fst res = s\<lparr>ticks := t\<rparr>)
     \<and> conforms (\<lambda>c. \<not> mutating (request c)) (\<lambda>_. True) unchanged (snd res)"

lemma ticks_self [simp]: "\<exists>t. s = s\<lparr>ticks := t\<rparr>"
  by (rule exI [of _ "ticks s"]) simp

lemma reads_only_final: "final (snd res) \<Longrightarrow> fst res = s \<Longrightarrow> reads_only s res"
  by (simp add: reads_only_def)

lemma reads_only_respond [simp]: "reads_only s (respond n p s)" "reads_only s (s, Throw e)"
  by (simp_all add: reads_only_def)

lemma reads_only_try_do: "(\<And>a. reads_only s (k a s)) \<Longrightarrow> reads_only s (try_do x k s)"
  by (cases x) auto

lemma reads_only_with_valid: "(\<And>a. reads_only s (k a s)) \<Longrightarrow> reads_only s (with_valid v k s)"
  unfolding with_valid_def by (rule reads_only_try_do) (auto split: validated.splits)

lemma reads_only_guard: "reads_only s (k s) \<Longrightarrow> reads_only s (guard d sess cap svc k s)"
  by (auto simp: guard_def split: AuthzResult.splits)

lemma reads_only_call_or:
  assumes "well_addressed c" "\<not> mutating (request c)" "finishing k" "finishing h"
  shows "reads_only s (call_or c k h (s\<lparr>ticks := t\<rparr>))"
proof -
  have "unchanged c r s (fst (case call_result r of Inl e \<Rightarrow> h e s | Inr res \<Rightarrow> k res s)) \<and>
      final (snd (case call_result r of Inl e \<Rightarrow> h e s | Inr res \<Rightarrow> k res s))" for r s
    using assms(3,4) by (cases r) auto
  then show ?thesis using assms(1,2) by (auto simp: reads_only_def conforms_Await)
qed

lemma finishing_throw [simp]: "finishing throw"
  by (simp add: finishing_def)

lemma reads_only_call:
  assumes "well_addressed c" "\<not> mutating (request c)" "finishing k"
  shows "reads_only s (call c k s)" "reads_only s (call c k (s\<lparr>ticks := t\<rparr>))"
  using reads_only_call_or [OF assms finishing_throw, of s "ticks s"]
    reads_only_call_or [OF assms finishing_throw, of s t]
  by (simp_all add: call_def)

lemmas reads_only_intros =
  reads_only_try_do reads_only_with_valid reads_only_guard reads_only_call reads_only_respond

lemma resolve_reads_only: "reads_only s (get_resolve d req b sess s)"
proof -
  have "finishing (\<lambda>e s. case e of
      RpcError http m c \<Rightarrow> if http = 404 then respond 200 (P_unconfigured lk) s else throw e s
    | OtherError m \<Rightarrow> throw e s)" for lk
    by (auto simp: finishing_def split: js_error.splits)
  then have "reads_only s (call_or (quotamgmt (GetLimit lk True) [])
      (\<lambda>res. try_do (toLimitView (res_limit res) (res_is_default res)) (\<lambda>v. respond 200 (P_resolved v)))
      (\<lambda>e s. case e of RpcError http m c \<Rightarrow> if http = 404 then respond 200 (P_unconfigured lk) s else throw e s
              | OtherError m \<Rightarrow> throw e s) s)" for lk
    using reads_only_call_or [of "quotamgmt (GetLimit lk True) []" _ _ s "ticks s"] by simp
  then show ?thesis
    unfolding get_resolve_def by (intro reads_only_with_valid reads_only_guard)
qed

lemma get_routes_read_only:
  "reads_only s (get_limits d req b sess s)" "reads_only s (get_services d req b sess s)"
  "reads_only s (get_service name d req b sess s)" "reads_only s (get_audit d req b sess s)"
  "reads_only s (get_audit_config i d req b sess s)" "reads_only s (get_reviews d req b sess s)"
  "reads_only s (actionlog_route d req b sess s)" "reads_only s (session_route d req b sess s)"
  "reads_only s (get_usage d req b sess s)"
  unfolding get_limits_def get_services_def get_service_def get_audit_def get_audit_config_def
    get_reviews_def actionlog_route_def session_route_def get_usage_def
  by (auto intro!: reads_only_intros simp: iso_now_def date_now_def)

lemma param_reads_only:
  "(\<And>v. reads_only s (h v d req b sess s)) \<Longrightarrow> reads_only s (param_route pl h x d req b sess s)"
  by (simp add: param_route_def with_param_def split: option.splits)

lemma get_route_reads_only:
  assumes "gets m" "api_route pl m p = Some h"
  shows "reads_only s (h d req b sess s)"
  using assms unfolding api_route_def
  by (auto simp: gets_def get_routes_read_only resolve_reads_only
      split: list.splits if_splits intro!: param_reads_only)

lemma get_reads_only:
  assumes "gets (meth req)"
  shows "reads_only s (serve pl d req s)"
proof -
  have np: "meth req \<noteq> POST" using assms by (auto simp: gets_def)
  have af: "reads_only s (after_routes pl req s)"
    by (rule reads_only_final) (simp_all add: after_routes_final)
  have "reads_only s (api pl d req b sess p s)" for b sess p
    using assms af by (cases sess)
      (auto simp: api_def requireAuth_def requireCsrf_def get_route_reads_only split: option.splits)
  then show ?thesis
    using af np unfolding serve_def by (auto simp: Let_def split: sum.splits list.splits)
qed

section \<open>Without the dev login\<close>

lemma attach_empty: "sessions s = [] \<Longrightarrow> attachSession req s = None"
  by (cases "own (cookies req) SESSION_COOKIE") (auto simp: attachSession_def session_get_def)

lemma oidc_serve:
  assumes "authMode d = Oidc" "sessions s = []"
  shows "sessions (fst (serve pl d req s)) = [] \<and> final (snd (serve pl d req s))"
proof (rule serve_cases [of req s d pl])
  fix sess assume "attachSession req s = Some sess"
  then show ?thesis using attach_empty [OF assms(2)] by simp
qed (use assms in \<open>auto simp: session_destroy_def split: jsv.splits\<close>)

lemma final_issues [simp]: "final a \<Longrightarrow> issues t a = []"
  by (cases a) auto

lemma oidc_closed:
  assumes "authMode d = Oidc" "running pl d (new_grants seed) w"
  shows "sessions (store w) = [] \<and> (\<forall>a \<in> set (threads w). final a) \<and> (\<forall>t c. Issued t c \<notin> set (trace w))"
  using assms(2)
proof (induction rule: reachable.induct)
  case init
  show ?case by (simp add: boot_def new_state_def)
next
  case (more w w')
  from more.hyps(2) show ?case
  proof cases
    case (arrive q s a)
    then show ?thesis using more.IH oidc_serve [OF assms(1), of "store w" pl q] by auto
  next
    case (settle t c k r s a)
    then have "Await c k \<in> set (threads w)" using nth_mem by fastforce
    then show ?thesis using more.IH by auto
  next
    case (other s)
    then show ?thesis using more.IH by (auto elim!: administer.cases)
  qed
qed

section \<open>Login and logout\<close>

lemma login_then_attach:
  assumes "sessions_create d u s = (sess, s')" "\<And>n. hex d 24 n \<noteq> []"
    and "own (cookies req) SESSION_COOKIE = JStr (session_id sess)"
  shows "attachSession req s' = Some sess" "suser sess = u" "csrfToken sess \<noteq> []"
  using assms
  by (auto simp: attachSession_def session_get_def sessions_create_def random_hex_def date_now_def
      session_create_def Let_def)

lemma devLogin_known:
  assumes "authMode d = Dev" "prop_opt b ''user'' = JStr i" "grants_get i (gstore s) = Some u"
  shows "devLogin d b s =
    (let (sess, s') = sessions_create d u s
     in (s', Respond \<lparr>code = 200, payload = P_session (sessionPayload s' sess),
                      cookie_changes = [setSessionCookie d sess]\<rparr>))"
  using assms by (simp add: devLogin_def or_default_def nullish_def)

lemma logout_ends_session:
  assumes "own (cookies req) SESSION_COOKIE = own (cookies req') SESSION_COOKIE"
  shows "attachSession req' (fst (Auth.logout req s)) = None"
proof (cases "own (cookies req') SESSION_COOKIE")
  case (JStr k)
  then show ?thesis using assms by (simp add: logout_def attachSession_def session_get_def session_destroy_def)
qed (use assms in \<open>auto simp: logout_def attachSession_def session_get_def\<close>)

lemma logout_keeps_others:
  assumes "own (cookies req) SESSION_COOKIE \<noteq> own (cookies req') SESSION_COOKIE"
  shows "attachSession req' (fst (Auth.logout req s)) = attachSession req' s"
  using assms
  by (auto simp: logout_def attachSession_def session_get_def session_destroy_def split: jsv.splits)

end
