(* ===== verification/Liveness.thy ===== *)
theory Liveness
  imports Gates
begin

text \<open>
  Every handler comes to an end: whatever the replies and the states it is resumed in, it awaits at
  most three of them, and then it has responded or thrown.
\<close>

fun bounded :: "nat \<Rightarrow> bff_act \<Rightarrow> bool" where
  "bounded n (Respond r) = True"
| "bounded n (Throw e) = True"
| "bounded 0 (Await c k) = False"
| "bounded (Suc n) (Await c k) = (\<forall>r s. bounded n (snd (k r s)))"

lemma bounded_final [simp]: "final a \<Longrightarrow> bounded n a"
  by (cases a) auto

lemma bounded_Suc: "bounded n a \<Longrightarrow> bounded (Suc n) a"
  by (induction n a rule: bounded.induct) auto

lemma bounded_mono: "bounded m a \<Longrightarrow> m \<le> n \<Longrightarrow> bounded n a"
  by (induction n rule: nat_induct) (auto simp: le_Suc_eq bounded_Suc)

lemma bounded_call_or:
  assumes "well_addressed c" "\<And>res s. bounded n (snd (k res s))" "\<And>e s. bounded n (snd (h e s))"
  shows "bounded (Suc n) (snd (call_or c k h s))"
proof -
  have "bounded n (snd (case call_result r of Inl e \<Rightarrow> h e s | Inr res \<Rightarrow> k res s))" for r s
    using assms(2,3) by (cases r) auto
  then show ?thesis using assms(1) by simp
qed

lemma bounded_call:
  "well_addressed c \<Longrightarrow> (\<And>res s. bounded n (snd (k res s))) \<Longrightarrow> bounded (Suc n) (snd (call c k s))"
  unfolding call_def by (rule bounded_call_or) auto

lemma bounded_try_do: "(\<And>a. bounded n (snd (k a s))) \<Longrightarrow> bounded n (snd (try_do x k s))"
  by (cases x) auto

lemma bounded_with_valid: "(\<And>a. bounded n (snd (k a s))) \<Longrightarrow> bounded n (snd (with_valid v k s))"
  unfolding with_valid_def by (rule bounded_try_do) (auto split: validated.splits)

lemma bounded_guard: "bounded n (snd (k s)) \<Longrightarrow> bounded n (snd (guard d sess cap svc k s))"
  by (auto simp: guard_def split: AuthzResult.splits)

lemma bounded_review_or_apply:
  "bounded n (snd (direct s)) \<Longrightarrow> bounded n (snd (review_or_apply d sess op direct s))"
  by (auto simp: review_or_apply_def split_def Let_def split: option.splits list.splits)

lemmas bounded_intros =
  bounded_try_do bounded_with_valid bounded_guard bounded_review_or_apply

lemma operations_bounded:
  assumes "\<And>x s. final (snd (k x s))"
  shows "bounded 1 (snd (createLimit d ctx v k s))"
    "bounded 1 (snd (updateLimit d ctx lk lv tu b k s))"
  unfolding createLimit_def updateLimit_def One_nat_def
  using assms by (auto intro!: bounded_call bounded_try_do simp: Let_def)

lemma deleteLimit_bounded:
  "(\<And>x s. final (snd (k x s))) \<Longrightarrow> bounded 1 (snd (deleteLimit d ctx lk am k s))"
  unfolding deleteLimit_def One_nat_def by (auto intro!: bounded_call)

lemma refund_bounded:
  "(\<And>x s. final (snd (k x s))) \<Longrightarrow> bounded 1 (snd (refund d ctx lk a k s))"
  unfolding refund_def One_nat_def Let_def split_def by (auto intro!: bounded_call bounded_try_do)

lemma resetWindow_bounded:
  assumes "\<And>x s. final (snd (k x s))"
  shows "bounded 3 (snd (resetWindow d ctx lk k s))"
proof -
  have fin: "bounded 1 (snd (reset_finish d ctx lk f k n rq s))" for f n rq s
    unfolding reset_finish_def One_nat_def using assms by (auto intro!: bounded_call bounded_try_do)
  have "bounded 2 (snd (reset_refund d ctx lk f k n s))" for f n s
    unfolding reset_refund_def Let_def split_def numeral_2_eq_2
    using fin bounded_mono [OF fin, of "Suc (Suc 0)"] by (auto intro!: bounded_call)
  then show ?thesis
    unfolding resetWindow_def Let_def split_def numeral_3_eq_3 numeral_2_eq_2
    by (auto intro!: bounded_call bounded_try_do)
qed

lemma executePendingOp_bounded:
  assumes "\<And>x s. final (snd (k x s))"
  shows "bounded 3 (snd (executePendingOp d ctx op k s))"
  by (cases op)
     (auto intro!: resetWindow_bounded assms
        bounded_mono [OF operations_bounded(2)] bounded_mono [OF deleteLimit_bounded]
        bounded_mono [OF refund_bounded])

lemma bounded_read: "well_addressed c \<Longrightarrow> finishing k \<Longrightarrow> bounded 3 (snd (call c k s))"
  by (rule bounded_mono [OF bounded_call [of c 0]]) auto

lemma read_routes_bounded:
  "bounded 3 (snd (get_limits d req b sess s))" "bounded 3 (snd (get_services d req b sess s))"
  "bounded 3 (snd (get_service name d req b sess s))" "bounded 3 (snd (get_audit d req b sess s))"
  "bounded 3 (snd (get_audit_config i d req b sess s))" "bounded 3 (snd (get_reviews d req b sess s))"
  "bounded 3 (snd (actionlog_route d req b sess s))" "bounded 3 (snd (session_route d req b sess s))"
  "bounded 3 (snd (get_usage d req b sess s))"
  unfolding get_limits_def get_services_def get_service_def get_audit_def get_audit_config_def
    get_reviews_def actionlog_route_def session_route_def get_usage_def
  by (auto intro!: bounded_intros bounded_read simp: iso_now_def date_now_def)

lemma resolve_bounded: "bounded 3 (snd (get_resolve d req b sess s))"
  unfolding get_resolve_def
  by (intro bounded_with_valid bounded_guard bounded_mono [OF bounded_call_or [where n = 0]])
     (auto intro!: bounded_try_do split: js_error.splits)

lemma change_routes_bounded:
  "bounded 3 (snd (post_limits d req b sess s))" "bounded 3 (snd (put_limits d req b sess s))"
  "bounded 3 (snd (delete_limits d req b sess s))" "bounded 3 (snd (post_reset d req b sess s))"
  unfolding post_limits_def put_limits_def delete_limits_def post_reset_def
  by (auto intro!: bounded_intros resetWindow_bounded bounded_mono [OF operations_bounded(1)]
      bounded_mono [OF operations_bounded(2)] bounded_mono [OF deleteLimit_bounded])

lemma refund_route_bounded: "bounded 3 (snd (post_refund d req b sess s))"
proof -
  have "bounded 3 (snd (guard d sess Op_refund svc (review_or_apply d sess op
      (\<lambda>s. refund d (opContext s sess) lk a (\<lambda>r. respond 200 (P_refund r)) s)) s))" for svc op lk a
    by (intro bounded_guard bounded_review_or_apply bounded_mono [OF refund_bounded]) auto
  then show ?thesis
    unfolding post_refund_def by (intro bounded_with_valid) (auto split: sum.splits)
qed

lemma register_bounded: "bounded 3 (snd (register_service d sess act n v s))"
  unfolding register_service_def
  by (rule bounded_mono [OF bounded_call [where n = 0]]) (auto intro!: bounded_try_do simp: Let_def)

lemma service_routes_bounded:
  "bounded 3 (snd (post_services d req b sess s))" "bounded 3 (snd (put_service name d req b sess s))"
  unfolding post_services_def put_service_def
  by (auto intro!: bounded_intros register_bounded)

lemma review_routes_bounded:
  "bounded 3 (snd (post_approve i d req b sess s))" "bounded 3 (snd (post_reject i d req b sess s))"
  unfolding post_approve_def post_reject_def
  by (auto intro!: bounded_guard executePendingOp_bounded simp: Let_def split_def split: sum.splits)

lemma param_bounded:
  "(\<And>v. bounded n (snd (h v d req b sess s))) \<Longrightarrow> bounded n (snd (param_route pl h x d req b sess s))"
  by (simp add: param_route_def with_param_def split: option.splits)

lemmas all_routes_bounded =
  read_routes_bounded resolve_bounded change_routes_bounded refund_route_bounded
  service_routes_bounded review_routes_bounded param_bounded

lemma api_route_bounded:
  "api_route pl m p = Some h \<Longrightarrow> bounded 3 (snd (h d req b sess s))"
  unfolding api_route_def
  by (auto split: list.splits if_splits simp: all_routes_bounded)

lemma serve_bounded: "bounded 3 (snd (serve pl d req s))"
proof -
  have "bounded 3 (snd (api pl d req b sess p s))" for b sess p
    by (cases sess) (auto simp: api_def requireAuth_def requireCsrf_def api_route_bounded
        after_routes_final split: option.splits)
  moreover have "bounded 3 (snd (devLogin d b s))" for b
    by (rule devLogin_cases [of d b s]) auto
  ultimately show ?thesis
    using serve_shape [of pl d req s] by (auto simp: logout_def)
qed

text \<open>Enough replies: a handler that has been given three replies has produced its response.\<close>

fun feed :: "(rpc_reply \<times> bff) list \<Rightarrow> bff_act \<Rightarrow> bff_act" where
  "feed ((r, s) # rs) (Await c k) = feed rs (snd (k r s))"
| "feed rs a = a"

lemma feed_bounded: "bounded n a \<Longrightarrow> n \<le> length rs \<Longrightarrow> final (feed rs a)"
proof (induction rs a arbitrary: n rule: feed.induct)
  case (1 r s rs c k)
  then show ?case by (cases n) auto
qed (auto elim: bounded.elims)

lemma final_outcome: "final a \<longleftrightarrow> outcome a \<noteq> None"
  by (cases a) auto

end
