(* ===== verification/Mock_Backends.thy ===== *)
theory Mock_Backends
  imports Rpc
begin

text \<open>
  \<^verbatim>\<open>bff/dev/mocks.ts\<close>: the in-memory stand-ins for the two backends, which the mock dev server
  and the integration tests run against. Both store by the text of a key, three parts joined by
  bars, so that two keys are kept apart only if no part contains a bar.

  The locales \<open>limit_registry\<close> and \<open>usage_window\<close> state what the console expects of the two
  backends; the stand-ins are instances.
\<close>

section \<open>Shared\<close>

definition nowTs :: "int \<Rightarrow> jsv" where
  "nowTs ms =
     JObj [(''seconds'', JNum (num_of_int (ms div 1000))),
           (''nanos'', JNum (num_of_int ((if ms < 0 then - ((- ms) mod 1000) else ms mod 1000) * 1000000)))]"

definition actorOf :: "rpc_call \<Rightarrow> string" where
  "actorOf c = (case map_get (metadata c) ''x-actor'' of None \<Rightarrow> [] | Some v \<Rightarrow> v)"

definition k_of :: "limit_key \<Rightarrow> string" where
  "k_of lk = service_name lk @ ''|'' @ customer_id lk @ ''|'' @ rate_limit_id lk"

text \<open>The error a stand-in passes to its callback; the library composes the message.\<close>

definition grpc_error :: "int \<Rightarrow> string \<Rightarrow> rpc_reply" where
  "grpc_error c text = Inl \<lparr>err_code = Some c, err_details = text, err_message = text\<rparr>"

section \<open>quotamgmt\<close>

record StoredLimit =
  st_config_id :: int
  st_key :: limit_key
  st_limit_value :: jsnum
  st_time_unit :: string

record AuditRecord =
  ar_audit_id :: int
  ar_config_id :: int
  ar_operation :: string
  ar_old_row :: jsv
  ar_new_row :: jsv
  ar_changed_by :: string
  ar_changed_at :: jsv

record FakeQuotamgmt =
  limits :: "(string, StoredLimit) jsmap"
  services :: "(string, ServiceView) jsmap"
  audit :: "AuditRecord list"
  nextConfigId :: int
  nextAuditId :: int

definition new_mgmt :: FakeQuotamgmt where
  "new_mgmt = \<lparr>limits = [], services = [], audit = [], nextConfigId = 1, nextAuditId = 1\<rparr>"

definition row_of :: "limit_key \<Rightarrow> jsnum \<Rightarrow> string \<Rightarrow> jsv" where
  "row_of lk v u =
     JObj [(''service_name'', JStr (service_name lk)), (''customer_id'', JStr (customer_id lk)),
           (''rate_limit_id'', JStr (rate_limit_id lk)), (''limit_value'', JNum v), (''time_unit'', JStr u)]"

definition writeAudit ::
  "int \<Rightarrow> string \<Rightarrow> jsv \<Rightarrow> jsv \<Rightarrow> string \<Rightarrow> int \<Rightarrow> FakeQuotamgmt \<Rightarrow> FakeQuotamgmt" where
  "writeAudit ms op oldRow newRow who configId m =
     m\<lparr>audit := audit m @
         [\<lparr>ar_audit_id = nextAuditId m, ar_config_id = configId, ar_operation = op, ar_old_row = oldRow,
           ar_new_row = newRow, ar_changed_by = who, ar_changed_at = nowTs ms\<rparr>],
       nextAuditId := nextAuditId m + 1\<rparr>"

definition raw_of :: "StoredLimit \<Rightarrow> RawLimit" where
  "raw_of l =
     \<lparr>raw_key = Some (st_key l), raw_limit_value = JNum (st_limit_value l),
      raw_time_unit = st_time_unit l, raw_config_id = JNum (num_of_int (st_config_id l))\<rparr>"

definition insert_limit ::
  "int \<Rightarrow> string \<Rightarrow> limit_key \<Rightarrow> jsnum \<Rightarrow> string \<Rightarrow> FakeQuotamgmt \<Rightarrow> StoredLimit \<times> FakeQuotamgmt" where
  \<comment> \<open>the lines CreateLimit and an upserting UpdateLimit share\<close>
  "insert_limit ms who lk v u m =
     (let stored = \<lparr>st_config_id = nextConfigId m, st_key = lk, st_limit_value = v, st_time_unit = u\<rparr>;
          m1 = m\<lparr>nextConfigId := nextConfigId m + 1, limits := map_set (k_of lk) stored (limits m)\<rparr>
      in (stored, writeAudit ms ''INSERT'' JNull (row_of lk v u) who (st_config_id stored) m1))"

definition mock_create ::
  "int \<Rightarrow> string \<Rightarrow> limit_key \<Rightarrow> jsnum \<Rightarrow> string \<Rightarrow> FakeQuotamgmt \<Rightarrow> rpc_reply \<times> FakeQuotamgmt" where
  "mock_create ms who lk v u m =
     (if who = [] then (grpc_error 3 ''app.actor must be set'', m)
      else if map_get (limits m) (k_of lk) \<noteq> None then (grpc_error 6 ''limit already exists'', m)
      else let (stored, m') = insert_limit ms who lk v u m
           in (Inr (R_limit (Some (raw_of stored))), m'))"

definition mock_update ::
  "int \<Rightarrow> string \<Rightarrow> limit_key \<Rightarrow> jsnum \<Rightarrow> string \<Rightarrow> bool \<Rightarrow> FakeQuotamgmt \<Rightarrow> rpc_reply \<times> FakeQuotamgmt" where
  "mock_update ms who lk v u create_if_absent m =
     (if who = [] then (grpc_error 3 ''app.actor must be set'', m)
      else (case map_get (limits m) (k_of lk) of
              None \<Rightarrow>
                if \<not> create_if_absent then (grpc_error 5 ''no such limit'', m)
                else let (stored, m') = insert_limit ms who lk v u m
                     in (Inr (R_limit (Some (raw_of stored))), m')
            | Some existing \<Rightarrow>
                let oldRow = row_of lk (st_limit_value existing) (st_time_unit existing);
                    changed = existing\<lparr>st_limit_value := v, st_time_unit := u\<rparr>
                in (Inr (R_limit (Some (raw_of changed))),
                    writeAudit ms ''UPDATE'' oldRow (row_of lk v u) who (st_config_id existing)
                      (m\<lparr>limits := map_set (k_of lk) changed (limits m)\<rparr>))))"

definition mock_delete ::
  "int \<Rightarrow> string \<Rightarrow> limit_key \<Rightarrow> bool \<Rightarrow> FakeQuotamgmt \<Rightarrow> rpc_reply \<times> FakeQuotamgmt" where
  "mock_delete ms who lk allow_missing m =
     (if who = [] then (grpc_error 3 ''app.actor must be set'', m)
      else (case map_get (limits m) (k_of lk) of
              None \<Rightarrow>
                if allow_missing then (Inr R_empty, m) else (grpc_error 5 ''no such limit'', m)
            | Some existing \<Rightarrow>
                (Inr R_empty,
                 writeAudit ms ''DELETE'' (row_of lk (st_limit_value existing) (st_time_unit existing)) JNull
                   who (st_config_id existing) (m\<lparr>limits := map_delete (k_of lk) (limits m)\<rparr>))))"

definition mock_get :: "limit_key \<Rightarrow> bool \<Rightarrow> FakeQuotamgmt \<Rightarrow> rpc_reply" where
  "mock_get lk resolve m =
     (case map_get (limits m) (k_of lk) of
        Some exact \<Rightarrow> Inr (R_got_limit (Some (raw_of exact)) (customer_id lk = ''*''))
      | None \<Rightarrow>
          (case if resolve then map_get (limits m) (k_of (lk\<lparr>customer_id := ''*''\<rparr>)) else None of
             Some def \<Rightarrow> Inr (R_got_limit (Some (raw_of def)) True)
           | None \<Rightarrow> grpc_error 5 ''unconfigured''))"

definition mock_list :: "string \<Rightarrow> string \<Rightarrow> string \<Rightarrow> FakeQuotamgmt \<Rightarrow> rpc_reply" where
  "mock_list sn ci ri m =
     Inr (R_limits (Some (map raw_of (filter
       (\<lambda>l. service_name (st_key l) = sn \<and> (ci = [] \<or> customer_id (st_key l) = ci)
            \<and> (ri = [] \<or> rate_limit_id (st_key l) = ri)) (map snd (limits m))))) [])"

text \<open>\<^verbatim>\<open>e.new_row ?? e.old_row\<close>, and the rows on the wire.\<close>

definition audited_row :: "AuditRecord \<Rightarrow> jsv" where
  "audited_row e = or_default (ar_new_row e) (ar_old_row e)"

definition wire_row :: "jsv \<Rightarrow> jsv" where
  "wire_row row = (case row of JObj ob \<Rightarrow> objectToStruct ob | _ \<Rightarrow> JNull)"

definition mock_audit :: "string \<Rightarrow> limit_key option \<Rightarrow> jsnum \<Rightarrow> FakeQuotamgmt \<Rightarrow> AuditRecord list" where
  "mock_audit sn lk cid m =
     (let es = filter (\<lambda>e. prop_opt (audited_row e) ''service_name'' = JStr sn) (audit m);
          es = (if num_less (Fin 0) cid then filter (\<lambda>e. num_of_int (ar_config_id e) = cid) es else es)
      in (case lk of
            Some k \<Rightarrow>
              if customer_id k \<noteq> [] \<and> rate_limit_id k \<noteq> []
              then filter (\<lambda>e. prop_opt (audited_row e) ''customer_id'' = JStr (customer_id k)
                             \<and> prop_opt (audited_row e) ''rate_limit_id'' = JStr (rate_limit_id k)) es
              else es
          | None \<Rightarrow> es))"

definition raw_audit :: "AuditRecord \<Rightarrow> RawAudit" where
  "raw_audit e =
     \<lparr>raw_audit_id = JNum (num_of_int (ar_audit_id e)), raw_audit_config_id = JNum (num_of_int (ar_config_id e)),
      raw_operation = ar_operation e, raw_old_row = wire_row (ar_old_row e),
      raw_new_row = wire_row (ar_new_row e), raw_changed_by = ar_changed_by e,
      raw_changed_at = ar_changed_at e\<rparr>"

fun mgmt_impl :: "int \<Rightarrow> string \<Rightarrow> rpc_request \<Rightarrow> FakeQuotamgmt \<Rightarrow> rpc_reply \<times> FakeQuotamgmt" where
  "mgmt_impl ms who (CreateLimit lk v u) m = mock_create ms who lk v u m"
| "mgmt_impl ms who (UpdateLimit lk v u b) m = mock_update ms who lk v u b m"
| "mgmt_impl ms who (DeleteLimit lk b) m = mock_delete ms who lk b m"
| "mgmt_impl ms who (GetLimit lk b) m = (mock_get lk b m, m)"
| "mgmt_impl ms who (ListLimits sn ci ri _ _) m = (mock_list sn ci ri m, m)"
| "mgmt_impl ms who (RegisterService v) m =
     (Inr (R_service (Some v)), m\<lparr>services := map_set (svc_name v) v (services m)\<rparr>)"
| "mgmt_impl ms who (GetService n) m =
     ((case map_get (services m) n of None \<Rightarrow> grpc_error 5 ''no such service''
       | Some v \<Rightarrow> Inr (R_service (Some v))), m)"
| "mgmt_impl ms who (ListServices _ _) m = (Inr (R_services (Some (map snd (services m))) []), m)"
| "mgmt_impl ms who (ListAuditEntries sn lk cid _ _ _) m =
     (Inr (R_audit (Some (map raw_audit (mock_audit sn lk cid m))) []), m)"
| "mgmt_impl ms who (GetUsage lk) m = (grpc_error 12 ''unimplemented'', m)"
| "mgmt_impl ms who (Refund lk a rq) m = (grpc_error 12 ''unimplemented'', m)"

section \<open>quotaenforcer\<close>

record Counter =
  cn_consumed :: jsnum
  cn_limit :: jsnum
  cn_configured :: bool

record FakeQuotaenforcer =
  counters :: "(string, Counter) jsmap"
  lastRefund :: "(string \<times> jsnum \<times> string) option"

definition new_enforcer :: FakeQuotaenforcer where
  "new_enforcer = \<lparr>counters = [], lastRefund = None\<rparr>"

definition seed_counter :: "limit_key \<Rightarrow> jsnum \<Rightarrow> jsnum \<Rightarrow> bool option \<Rightarrow> FakeQuotaenforcer \<Rightarrow> FakeQuotaenforcer" where
  "seed_counter lk con cap conf e =
     e\<lparr>counters := map_set (k_of lk)
         \<lparr>cn_consumed = con, cn_limit = cap, cn_configured = (case conf of Some b \<Rightarrow> b | None \<Rightarrow> True)\<rparr>
         (counters e)\<rparr>"

definition counter_at :: "FakeQuotaenforcer \<Rightarrow> limit_key \<Rightarrow> Counter" where
  "counter_at e lk =
     (case map_get (counters e) (k_of lk) of
        Some c \<Rightarrow> c
      | None \<Rightarrow> \<lparr>cn_consumed = Fin 0, cn_limit = Fin 0, cn_configured = False\<rparr>)"

fun num_neg :: "jsnum \<Rightarrow> jsnum" where
  "num_neg NaN = NaN"
| "num_neg (Infinity s) = Infinity (\<not> s)"
| "num_neg (Fin q) = Fin (- q)"

definition num_minus :: "jsnum \<Rightarrow> jsnum \<Rightarrow> jsnum" where
  "num_minus a b = num_plus a (num_neg b)"

definition floor_zero :: "jsnum \<Rightarrow> jsnum" where
  \<comment> \<open>\<^verbatim>\<open>Math.max(0, n)\<close>\<close>
  "floor_zero n = (if n = NaN then NaN else if num_less (Fin 0) n then n else Fin 0)"

definition mock_usage :: "int \<Rightarrow> limit_key \<Rightarrow> FakeQuotaenforcer \<Rightarrow> RawUsage" where
  "mock_usage ms lk e =
     (let c = counter_at e lk
      in \<lparr>raw_consumed = JNum (cn_consumed c),
          raw_remaining = JNum (if cn_configured c then num_minus (cn_limit c) (cn_consumed c) else Fin 0),
          raw_limit = JNum (cn_limit c), raw_reset_at = nowTs ms, raw_configured = cn_configured c\<rparr>)"

definition mock_refund ::
  "int \<Rightarrow> string \<Rightarrow> limit_key \<Rightarrow> jsnum \<Rightarrow> string \<Rightarrow> FakeQuotaenforcer \<Rightarrow> RawRefundRes \<times> FakeQuotaenforcer" where
  "mock_refund ms who lk amount rq e =
     (let c0 = counter_at e lk;
          c = c0\<lparr>cn_consumed := floor_zero (num_minus (cn_consumed c0) amount)\<rparr>
      in (\<lparr>ref_remaining = JNum (num_minus (cn_limit c) (cn_consumed c)), ref_limit = JNum (cn_limit c),
           ref_reset_at = nowTs ms\<rparr>,
          e\<lparr>lastRefund := Some (who, amount, rq), counters := map_set (k_of lk) c (counters e)\<rparr>))"

fun enforcer_impl :: "int \<Rightarrow> string \<Rightarrow> rpc_request \<Rightarrow> FakeQuotaenforcer \<Rightarrow> rpc_reply \<times> FakeQuotaenforcer" where
  "enforcer_impl ms who (GetUsage lk) e = (Inr (R_usage (mock_usage ms lk e)), e)"
| "enforcer_impl ms who (Refund lk a rq) e =
     (let (res, e') = mock_refund ms who lk a rq e in (Inr (R_refund res), e'))"
| "enforcer_impl ms who _ e = (grpc_error 12 ''unimplemented'', e)"

text \<open>Both behind their addresses.\<close>

record mocks =
  mgmt :: FakeQuotamgmt
  enforcer :: FakeQuotaenforcer

definition mock_handle :: "int \<Rightarrow> rpc_call \<Rightarrow> mocks \<Rightarrow> rpc_reply \<times> mocks" where
  "mock_handle ms c b =
     (case backend c of
        Quotamgmt \<Rightarrow>
          let (r, m) = mgmt_impl ms (actorOf c) (request c) (mgmt b) in (r, b\<lparr>mgmt := m\<rparr>)
      | Quotaenforcer \<Rightarrow>
          let (r, e) = enforcer_impl ms (actorOf c) (request c) (enforcer b) in (r, b\<lparr>enforcer := e\<rparr>))"

section \<open>Keys\<close>

definition no_bar :: "limit_key \<Rightarrow> bool" where
  "no_bar lk \<longleftrightarrow> CHR ''|'' \<notin> set (service_name lk) \<and> CHR ''|'' \<notin> set (customer_id lk)
     \<and> CHR ''|'' \<notin> set (rate_limit_id lk)"

lemma split_at_bar:
  assumes "x @ c # y = x' @ c # y'" "c \<notin> set x" "c \<notin> set x'"
  shows "x = x' \<and> y = y'"
  using assms
proof (induction x arbitrary: x')
  case Nil
  then show ?case by (cases x') auto
next
  case (Cons a x)
  then show ?case by (cases x') auto
qed

lemma k_of_inj:
  assumes "no_bar a" "no_bar b"
  shows "k_of a = k_of b \<longleftrightarrow> a = b"
proof
  assume eq: "k_of a = k_of b"
  have "service_name a = service_name b
      \<and> customer_id a @ CHR ''|'' # rate_limit_id a = customer_id b @ CHR ''|'' # rate_limit_id b"
    using eq assms by (intro split_at_bar) (auto simp: k_of_def no_bar_def)
  moreover from this have "customer_id a = customer_id b \<and> rate_limit_id a = rate_limit_id b"
    using assms by (intro split_at_bar) (auto simp: no_bar_def)
  ultimately show "a = b" by simp
qed simp

section \<open>The registry of limits\<close>

text \<open>The abstract registry: a partial map from keys to a limit and its unit.\<close>

datatype registry_op =
    Op_create limit_key "jsnum \<times> string"
  | Op_update limit_key "jsnum \<times> string" bool
  | Op_delete limit_key bool

fun registry_key :: "registry_op \<Rightarrow> limit_key" where
  "registry_key (Op_create k _) = k"
| "registry_key (Op_update k _ _) = k"
| "registry_key (Op_delete k _) = k"

type_synonym registry = "limit_key \<Rightarrow> (jsnum \<times> string) option"

fun registry_spec :: "registry_op \<Rightarrow> registry \<Rightarrow> bool \<times> registry" where
  "registry_spec (Op_create k v) f = (if f k = None then (True, f(k \<mapsto> v)) else (False, f))"
| "registry_spec (Op_update k v upsert) f =
     (if f k = None \<and> \<not> upsert then (False, f) else (True, f(k \<mapsto> v)))"
| "registry_spec (Op_delete k missing_ok) f =
     (if f k = None then (missing_ok, f) else (True, f(k := None)))"

fun registry_run :: "registry_op list \<Rightarrow> registry \<Rightarrow> bool list \<times> registry" where
  "registry_run [] f = ([], f)"
| "registry_run (x # xs) f =
     (let (ok, f') = registry_spec x f; (oks, f'') = registry_run xs f' in (ok # oks, f''))"

text \<open>The effective limit of a customer: the customer's own, or else the default.\<close>

definition effective :: "registry \<Rightarrow> limit_key \<Rightarrow> (jsnum \<times> string) option" where
  "effective f k = (case f k of Some v \<Rightarrow> Some v | None \<Rightarrow> f (k\<lparr>customer_id := ''*''\<rparr>))"

locale limit_registry =
  fixes view :: "'b \<Rightarrow> registry"
    and perform :: "registry_op \<Rightarrow> 'b \<Rightarrow> bool \<times> 'b"
    and resolve :: "limit_key \<Rightarrow> 'b \<Rightarrow> (jsnum \<times> string) option"
    and sane :: "limit_key \<Rightarrow> bool"
  assumes simulates: "sane (registry_key x) \<Longrightarrow> perform x b = (ok, b') \<Longrightarrow>
      registry_spec x (view b) = (ok, view b')"
    and resolves: "sane k \<Longrightarrow> resolve k b = effective (view b) k"
begin

fun perform_all :: "registry_op list \<Rightarrow> 'b \<Rightarrow> bool list \<times> 'b" where
  "perform_all [] b = ([], b)"
| "perform_all (x # xs) b =
     (let (ok, b') = perform x b; (oks, b'') = perform_all xs b' in (ok # oks, b''))"

lemma refines:
  "\<forall>x \<in> set xs. sane (registry_key x) \<Longrightarrow> perform_all xs b = (oks, b') \<Longrightarrow>
     registry_run xs (view b) = (oks, view b')"
proof (induction xs arbitrary: b oks b')
  case (Cons x xs)
  obtain ok b1 where 1: "perform x b = (ok, b1)" by force
  obtain oks2 b2 where 2: "perform_all xs b1 = (oks2, b2)" by force
  have "registry_run xs (view b1) = (oks2, view b2)" using Cons.IH [OF _ 2] Cons.prems(1) by simp
  moreover have "registry_spec x (view b) = (ok, view b1)" using simulates [OF _ 1] Cons.prems(1) by simp
  ultimately show ?case using Cons.prems(2) 1 2 by auto
qed simp

lemma upsert_then_resolve:
  assumes "sane k" "perform (Op_update k v True) b = (ok, b')"
  shows "ok \<and> resolve k b' = Some v"
proof -
  have "ok \<and> view b' = (view b)(k \<mapsto> v)" using simulates [OF _ assms(2)] assms(1) by simp
  then show ?thesis using resolves [OF assms(1), of b'] by (simp add: effective_def)
qed

lemma delete_reveals_default:
  assumes "sane k" "customer_id k \<noteq> ''*''" "perform (Op_delete k mo) b = (ok, b')"
  shows "resolve k b' = view b (k\<lparr>customer_id := ''*''\<rparr>)"
proof -
  have "k\<lparr>customer_id := ''*''\<rparr> \<noteq> k" using assms(2) by (metis limit_key.surjective limit_key.select_convs(2) limit_key.update_convs(2))
  moreover have "view b' = (view b)(k := None)"
    using simulates [OF _ assms(3)] assms(1) by (auto split: if_splits)
  ultimately show ?thesis using resolves [OF assms(1), of b'] by (simp add: effective_def)
qed

end

text \<open>The stand-in for quotamgmt, called in the name of somebody.\<close>

definition mock_view :: "FakeQuotamgmt \<Rightarrow> registry" where
  "mock_view m lk =
     (if no_bar lk
      then map_option (\<lambda>l. (st_limit_value l, st_time_unit l)) (map_get (limits m) (k_of lk)) else None)"

fun registry_request :: "registry_op \<Rightarrow> rpc_request" where
  "registry_request (Op_create k v) = CreateLimit k (fst v) (snd v)"
| "registry_request (Op_update k v b) = UpdateLimit k (fst v) (snd v) b"
| "registry_request (Op_delete k b) = DeleteLimit k b"

definition reply_ok :: "rpc_reply \<Rightarrow> bool" where
  "reply_ok r = (case r of Inl _ \<Rightarrow> False | Inr _ \<Rightarrow> True)"

definition mock_perform :: "int \<Rightarrow> string \<Rightarrow> registry_op \<Rightarrow> FakeQuotamgmt \<Rightarrow> bool \<times> FakeQuotamgmt" where
  "mock_perform ms who x m = (let (r, m') = mgmt_impl ms who (registry_request x) m in (reply_ok r, m'))"

definition mock_resolve :: "limit_key \<Rightarrow> FakeQuotamgmt \<Rightarrow> (jsnum \<times> string) option" where
  "mock_resolve lk m =
     (case mock_get lk True m of
        Inr (R_got_limit (Some l) _) \<Rightarrow> Some (as_number (raw_limit_value l), raw_time_unit l)
      | _ \<Rightarrow> None)"

lemma grpc_error_not_ok [simp]: "\<not> reply_ok (grpc_error c t)" "reply_ok (Inr x)"
  by (simp_all add: reply_ok_def grpc_error_def)

lemma limits_writeAudit [simp]: "limits (writeAudit ms op old new who cid m) = limits m"
  by (simp add: writeAudit_def)

lemma view_set:
  assumes "no_bar lk"
  shows "mock_view (m\<lparr>limits := map_set (k_of lk) l (limits m)\<rparr>)
    = (mock_view m)(lk \<mapsto> (st_limit_value l, st_time_unit l))"
  using assms by (auto simp: mock_view_def k_of_inj)

lemma view_delete:
  assumes "no_bar lk"
  shows "mock_view (m\<lparr>limits := map_delete (k_of lk) (limits m)\<rparr>) = (mock_view m)(lk := None)"
  using assms by (auto simp: mock_view_def k_of_inj)

lemma view_cong: "limits m = limits m' \<Longrightarrow> mock_view m = mock_view m'"
  by (rule ext) (simp add: mock_view_def)

lemma view_insert:
  assumes "no_bar lk"
  shows "mock_view (snd (insert_limit ms who lk v u m)) = (mock_view m)(lk \<mapsto> (v, u))"
proof -
  define l where "l = \<lparr>st_config_id = nextConfigId m, st_key = lk, st_limit_value = v, st_time_unit = u\<rparr>"
  have "mock_view (snd (insert_limit ms who lk v u m)) = mock_view (m\<lparr>limits := map_set (k_of lk) l (limits m)\<rparr>)"
    by (rule view_cong) (simp add: insert_limit_def Let_def l_def)
  then show ?thesis by (simp add: view_set [OF assms] l_def)
qed

lemma view_key: "no_bar lk \<Longrightarrow> mock_view m lk = None \<longleftrightarrow> map_get (limits m) (k_of lk) = None"
  by (simp add: mock_view_def)

lemma view_update:
  assumes "no_bar lk"
  shows "mock_view (writeAudit ms op old new who cid (m\<lparr>limits := map_set (k_of lk) l (limits m)\<rparr>))
    = (mock_view m)(lk \<mapsto> (st_limit_value l, st_time_unit l))"
  using view_set [OF assms, of l m] view_cong [OF limits_writeAudit] by metis

lemma view_remove:
  assumes "no_bar lk"
  shows "mock_view (writeAudit ms op old new who cid (m\<lparr>limits := map_delete (k_of lk) (limits m)\<rparr>))
    = (mock_view m)(lk := None)"
  using view_delete [OF assms, of m] view_cong [OF limits_writeAudit] by metis

interpretation mock_registry: limit_registry mock_view "mock_perform ms (c # cs)" mock_resolve no_bar
  for ms c cs
proof (unfold_locales, goal_cases)
  case (1 x b ok b')
  then show ?case
    by (cases x)
       (auto simp: mock_perform_def mock_create_def mock_update_def mock_delete_def view_key
          view_insert view_update view_remove Let_def split_def split: option.splits if_splits)
next
  case (2 k b)
  have "no_bar (k\<lparr>customer_id := ''*''\<rparr>)" using 2 by (simp add: no_bar_def)
  with 2 show ?case
    by (auto simp: mock_resolve_def mock_get_def effective_def mock_view_def grpc_error_def raw_of_def
        as_number_def split: option.splits)
qed

section \<open>The audit trail\<close>

definition stored_row :: "limit_key \<Rightarrow> StoredLimit option \<Rightarrow> jsv" where
  "stored_row lk l = (case l of None \<Rightarrow> JNull | Some x \<Rightarrow> row_of lk (st_limit_value x) (st_time_unit x))"

text \<open>\<open>e\<close> accounts for the step from \<open>m\<close> to \<open>m'\<close>: who made it, and the row before and after.\<close>

definition explains :: "string \<Rightarrow> limit_key \<Rightarrow> AuditRecord \<Rightarrow> FakeQuotamgmt \<Rightarrow> FakeQuotamgmt \<Rightarrow> bool" where
  "explains who lk e m m' \<longleftrightarrow>
     ar_changed_by e = who \<and> who \<noteq> [] \<and> ar_audit_id e = nextAuditId m
     \<and> ar_old_row e = stored_row lk (map_get (limits m) (k_of lk))
     \<and> ar_new_row e = stored_row lk (map_get (limits m') (k_of lk))
     \<and> (\<forall>j. j \<noteq> k_of lk \<longrightarrow> map_get (limits m') j = map_get (limits m) j)"

definition audited :: "string \<Rightarrow> FakeQuotamgmt \<Rightarrow> FakeQuotamgmt \<Rightarrow> bool" where
  "audited who m m' \<longleftrightarrow> limits m' = limits m \<and> audit m' = audit m
     \<or> (\<exists>lk e. audit m' = audit m @ [e] \<and> explains who lk e m m')"

lemma audited_same [simp]: "audited who m m"
  by (simp add: audited_def)

lemma audited_insert:
  "who \<noteq> [] \<Longrightarrow> map_get (limits m) (k_of lk) = None \<Longrightarrow>
     audited who m (snd (insert_limit ms who lk v u m))"
  unfolding audited_def
  by (rule disjI2, rule exI [of _ lk])
     (simp add: insert_limit_def writeAudit_def explains_def stored_row_def Let_def)

lemma audited_set:
  "who \<noteq> [] \<Longrightarrow> audited who m (writeAudit ms op (stored_row lk (map_get (limits m) (k_of lk)))
     (row_of lk (st_limit_value l) (st_time_unit l)) who cid (m\<lparr>limits := map_set (k_of lk) l (limits m)\<rparr>))"
  unfolding audited_def
  by (rule disjI2, rule exI [of _ lk]) (simp add: writeAudit_def explains_def stored_row_def)

lemma audited_delete:
  "who \<noteq> [] \<Longrightarrow> audited who m (writeAudit ms op (stored_row lk (map_get (limits m) (k_of lk)))
     JNull who cid (m\<lparr>limits := map_delete (k_of lk) (limits m)\<rparr>))"
  unfolding audited_def
  by (rule disjI2, rule exI [of _ lk]) (simp add: writeAudit_def explains_def stored_row_def)

lemma mgmt_impl_audited: "audited who m (snd (mgmt_impl ms who q m))"
proof (cases q)
  case (CreateLimit lk v u)
  then show ?thesis by (simp add: mock_create_def split_def Let_def audited_insert)
next
  case (UpdateLimit lk v u b)
  then show ?thesis
    using audited_set [of who m ms "''UPDATE''" lk "the (map_get (limits m) (k_of lk))\<lparr>st_limit_value := v, st_time_unit := u\<rparr>"]
    by (auto simp: mock_update_def split_def Let_def audited_insert stored_row_def split: option.splits)
next
  case (DeleteLimit lk b)
  then show ?thesis
    using audited_delete [of who m ms "''DELETE''" lk]
    by (auto simp: mock_delete_def stored_row_def split: option.splits)
next
  case (RegisterService v)
  then show ?thesis by (simp add: audited_def)
qed auto

text \<open>Identifiers: configurations keep distinct ones, and the audit trail is numbered from one.\<close>

definition mgmt_ok :: "FakeQuotamgmt \<Rightarrow> bool" where
  "mgmt_ok m \<longleftrightarrow> map_wf (limits m)
     \<and> (\<forall>i l. map_get (limits m) i = Some l \<longrightarrow> k_of (st_key l) = i \<and> st_config_id l < nextConfigId m)
     \<and> (\<forall>i j l l'. map_get (limits m) i = Some l \<and> map_get (limits m) j = Some l'
          \<and> st_config_id l = st_config_id l' \<longrightarrow> i = j)
     \<and> map ar_audit_id (audit m) = map int [1..<Suc (length (audit m))]
     \<and> nextAuditId m = int (length (audit m)) + 1"

lemma mgmt_ok_new [simp]: "mgmt_ok new_mgmt"
  by (simp add: mgmt_ok_def new_mgmt_def)

lemma mgmt_ok_audit:
  "mgmt_ok m \<Longrightarrow> mgmt_ok (writeAudit ms op old new who cid m)"
  by (auto simp: mgmt_ok_def writeAudit_def)

lemma mgmt_ok_insert:
  assumes "mgmt_ok m" "map_get (limits m) (k_of lk) = None"
  shows "mgmt_ok (snd (insert_limit ms who lk v u m))"
proof -
  have "mgmt_ok (m\<lparr>nextConfigId := nextConfigId m + 1, limits := map_set (k_of lk)
      \<lparr>st_config_id = nextConfigId m, st_key = lk, st_limit_value = v, st_time_unit = u\<rparr> (limits m)\<rparr>)"
    using assms unfolding mgmt_ok_def
    by (auto simp del: map_of_eq_Some_iff split: if_splits dest: less_imp_neq) force+
  then show ?thesis by (simp add: insert_limit_def Let_def mgmt_ok_audit)
qed

lemma mgmt_ok_change:
  assumes "mgmt_ok m" "map_get (limits m) (k_of lk) = Some l" "st_key l' = st_key l" "st_config_id l' = st_config_id l"
  shows "mgmt_ok (m\<lparr>limits := map_set (k_of lk) l' (limits m)\<rparr>)"
  using assms unfolding mgmt_ok_def by (auto simp del: map_of_eq_Some_iff split: if_splits)

lemma mgmt_ok_remove:
  assumes "mgmt_ok m" shows "mgmt_ok (m\<lparr>limits := map_delete i (limits m)\<rparr>)"
  using assms unfolding mgmt_ok_def by (auto simp del: map_of_eq_Some_iff split: if_splits)

lemma mgmt_impl_ok:
  assumes "mgmt_ok m" shows "mgmt_ok (snd (mgmt_impl ms who q m))"
proof (cases q)
  case (CreateLimit lk v u)
  then show ?thesis using assms
    by (auto simp: mock_create_def split_def Let_def mgmt_ok_insert)
next
  case (UpdateLimit lk v u b)
  then show ?thesis using assms
    by (auto simp: mock_update_def split_def Let_def mgmt_ok_insert split: option.splits
        intro!: mgmt_ok_audit mgmt_ok_change)
next
  case (DeleteLimit lk b)
  then show ?thesis using assms
    by (auto simp: mock_delete_def mgmt_ok_remove split: option.splits intro!: mgmt_ok_audit)
next
  case (RegisterService v)
  then show ?thesis using assms by (simp add: mgmt_ok_def)
qed (use assms in auto)

section \<open>The usage counters\<close>

text \<open>
  What a reset relies on: a refund lowers the counter of its key by the amount, not below zero,
  and touches no other key.
\<close>

locale usage_window =
  fixes used :: "'b \<Rightarrow> limit_key \<Rightarrow> jsnum"
    and give_back :: "limit_key \<Rightarrow> jsnum \<Rightarrow> 'b \<Rightarrow> 'b"
    and sane :: "limit_key \<Rightarrow> bool"
  assumes used_give_back: "sane k \<Longrightarrow> sane j \<Longrightarrow>
      used (give_back k a b) j = (if j = k then floor_zero (num_minus (used b k) a) else used b j)"
begin

lemma give_back_all:
  assumes "sane k" "used b k = Fin q"
  shows "used (give_back k (Fin q) b) k = Fin 0"
proof -
  have "used (give_back k (Fin q) b) k = floor_zero (num_minus (Fin q) (Fin q))"
    using used_give_back [OF assms(1) assms(1), of "Fin q" b] assms(2) by simp
  also have "\<dots> = Fin 0" by (simp add: floor_zero_def num_minus_def to_double_def)
  finally show ?thesis .
qed

text \<open>When something is consumed between the reading and the refund, that much is left.\<close>

lemma give_back_stale:
  assumes "sane k" "used b k = num_of_int (n + m)" "0 \<le> m" "m \<le> 2 ^ 53"
  shows "used (give_back k (num_of_int n) b) k = num_of_int m"
proof -
  have "used (give_back k (num_of_int n) b) k = floor_zero (to_double (of_int m))"
    using used_give_back [OF assms(1) assms(1), of "num_of_int n" b] assms(2) by (simp add: num_minus_def)
  also have "\<dots> = num_of_int m"
    using assms(3,4) by (simp add: to_double_of_int floor_zero_def)
  finally show ?thesis .
qed

lemma never_negative:
  assumes "sane k" "used b k = num_of_int n" "\<bar>n - a\<bar> \<le> 2 ^ 53"
  shows "used (give_back k (num_of_int a) b) k = num_of_int (max 0 (n - a))"
proof -
  have "used (give_back k (num_of_int a) b) k = floor_zero (to_double (of_int (n - a)))"
    using used_give_back [OF assms(1) assms(1), of "num_of_int a" b] assms(2) by (simp add: num_minus_def)
  also have "\<dots> = num_of_int (max 0 (n - a))"
    unfolding to_double_of_int [OF assms(3)] by (simp add: floor_zero_def max_def)
  finally show ?thesis .
qed

end

definition mock_used :: "FakeQuotaenforcer \<Rightarrow> limit_key \<Rightarrow> jsnum" where
  "mock_used e lk = cn_consumed (counter_at e lk)"

definition mock_give_back :: "int \<Rightarrow> string \<Rightarrow> string \<Rightarrow> limit_key \<Rightarrow> jsnum \<Rightarrow> FakeQuotaenforcer \<Rightarrow> FakeQuotaenforcer" where
  "mock_give_back ms who rq lk a e = snd (mock_refund ms who lk a rq e)"

interpretation mock_window: usage_window mock_used "mock_give_back ms who rq" no_bar
  for ms who rq
  by unfold_locales
     (auto simp: mock_used_def mock_give_back_def mock_refund_def counter_at_def k_of_inj Let_def)

section \<open>Properties\<close>



text \<open>
  C37. Every change of a limit is audited: a request to the stand-in for quotamgmt either leaves limits
  and audit trail as they are, or adds exactly one record with the caller's identity and the row before
  and after.
\<close>

theorem changes_are_audited:
  "limits (snd (mgmt_impl ms who q m)) = limits m \<and> audit (snd (mgmt_impl ms who q m)) = audit m
   \<or> (\<exists>lk e. audit (snd (mgmt_impl ms who q m)) = audit m @ [e]
        \<and> explains who lk e m (snd (mgmt_impl ms who q m)))"
  using mgmt_impl_audited by (simp add: audited_def)

text \<open>
  Whatever is requested of a fresh stand-in for quotamgmt, configurations keep distinct
  identifiers below the next one to be given out, and the audit trail is numbered from one.
\<close>

theorem identifiers_stay_distinct:
  "mgmt_ok (fold (\<lambda>(ms, who, q) m. snd (mgmt_impl ms who q m)) qs new_mgmt)"
proof -
  have "mgmt_ok m \<Longrightarrow> mgmt_ok (fold (\<lambda>(ms, who, q) m. snd (mgmt_impl ms who q m)) qs m)" for m
    by (induction qs arbitrary: m) (auto simp: mgmt_impl_ok)
  then show ?thesis by simp
qed

text \<open>
  A refund lowers the counter of its key by the amount, never below zero.
\<close>

theorem refund_never_negative:
  assumes "no_bar k" "mock_used e k = num_of_int n" "\<bar>n - a\<bar> \<le> 2 ^ 53"
  shows "mock_used (snd (mock_refund ms who k (num_of_int a) rq e)) k = num_of_int (max 0 (n - a))"
  using mock_window.never_negative [OF assms, of ms who rq] by (simp add: mock_give_back_def)

theorem refund_never_negative_witness:
  "mock_used (snd (mock_refund 0 ''a'' \<lparr>service_name = ''s'', customer_id = ''c'', rate_limit_id = ''l''\<rparr> (Fin 5) ''q''
     (seed_counter \<lparr>service_name = ''s'', customer_id = ''c'', rate_limit_id = ''l''\<rparr> (Fin 3) (Fin 10) None new_enforcer)))
     \<lparr>service_name = ''s'', customer_id = ''c'', rate_limit_id = ''l''\<rparr> = Fin 0"
proof -
  let ?k = "\<lparr>service_name = ''s'', customer_id = ''c'', rate_limit_id = ''l''\<rparr>"
  have "no_bar ?k" by (simp add: no_bar_def)
  moreover have "mock_used (seed_counter ?k (Fin 3) (Fin 10) None new_enforcer) ?k = num_of_int 3"
    by (simp add: mock_used_def counter_at_def seed_counter_def)
  ultimately show ?thesis using refund_never_negative [of ?k _ 3 5 0 "''a''" "''q''"] by simp
qed

end
