(* ===== verification/End_To_End.thy ===== *)
theory End_To_End
  imports Liveness Mock_Backends
begin

text \<open>
  The handlers run against the stand-ins for the backends: a request is served, and each call is
  answered at once. Time stamps survive the trip in both directions.
\<close>

section \<open>Running a handler to its response\<close>

fun drive :: "nat \<Rightarrow> int \<Rightarrow> bff \<times> bff_act \<Rightarrow> mocks \<Rightarrow> (Response \<times> bff \<times> mocks) option" where
  "drive n ms (s, Respond r) b = Some (r, s, b)"
| "drive n ms (s, Throw e) b = Some (errorMiddleware e, s, b)"
| "drive 0 ms (s, Await c k) b = None"
| "drive (Suc n) ms (s, Await c k) b = (let (r, b') = mock_handle ms c b in drive n ms (k r s) b')"

lemma drive_total: "bounded n (snd x) \<Longrightarrow> \<exists>y. drive n ms x b = Some y"
proof (induction n arbitrary: x b)
  case 0
  then show ?case by (cases x; cases "snd x") auto
next
  case (Suc n)
  obtain s a where x: "x = (s, a)" by force
  show ?case
  proof (cases a)
    case (Await c k)
    obtain r b' where r: "mock_handle ms c b = (r, b')" by force
    have "bounded n (snd (k r s))" using Suc.prems x Await by simp
    from Suc.IH [OF this] r show ?thesis by (simp add: x Await)
  qed (simp_all add: x)
qed

lemma drive_call:
  "well_addressed c \<Longrightarrow> drive (Suc n) ms (call c k s) b =
     (let (r, b') = mock_handle ms c b
      in drive n ms (case call_result r of Inl e \<Rightarrow> throw e s | Inr res \<Rightarrow> k res s) b')"
  by (simp add: call_def split_def)

lemma drive_respond [simp]: "drive n ms (respond c p s) b = Some (reply c p, s, b)"
  by (simp add: respond_def)

section \<open>Time stamps\<close>

text \<open>The milliseconds \<^verbatim>\<open>timestampToIso\<close> computes for a time stamp.\<close>

definition stamp_ms :: "jsnum \<Rightarrow> jsnum \<Rightarrow> jsnum" where
  "stamp_ms sec nanos = num_plus (num_times sec (Fin 1000)) (num_floor_div nanos 1000000)"

lemma MAX_TIME_exact: "\<bar>i\<bar> \<le> MAX_TIME + 1000 \<Longrightarrow> to_double (of_int i) = num_of_int i"
  by (rule to_double_of_int) (simp add: MAX_TIME_def)

lemma stamp_ms_int:
  assumes "\<bar>1000 * s\<bar> \<le> MAX_TIME + 1000" "\<bar>n\<bar> < 1000" "\<bar>1000 * s + n\<bar> \<le> MAX_TIME + 1000"
  shows "stamp_ms (num_of_int s) (num_of_int (n * 1000000)) = num_of_int (1000 * s + n)"
proof -
  have 1: "num_times (num_of_int s) (Fin 1000) = num_of_int (1000 * s)"
    using MAX_TIME_exact [OF assms(1)] by (simp add: mult.commute)
  have "of_int (n * 1000000) / (1000000 :: rat) = of_int n" by simp
  then have 2: "num_floor_div (num_of_int (n * 1000000)) 1000000 = num_of_int n"
    using MAX_TIME_exact [of n] assms(2) by (simp add: MAX_TIME_def)
  show ?thesis
    unfolding stamp_ms_def 1 2 using MAX_TIME_exact [OF assms(3)] by simp
qed

lemma timestampToIso_stamp:
  assumes "stamp_ms (num_of_int s) (num_of_int n) = num_of_int t" "\<bar>t\<bar> \<le> MAX_TIME"
  shows "timestampToIso (JObj [(''seconds'', JNum (num_of_int s)), (''nanos'', JNum (num_of_int n))])
    = Inr (Some (iso_of_ms t))"
proof -
  have "\<bar>of_int t :: rat\<bar> \<le> of_int MAX_TIME" using assms(2) by (metis of_int_abs of_int_le_iff)
  then have "time_value_iso (num_of_int t) = Inr (iso_of_ms t)"
    using assms(2) by (auto simp: time_value_iso_def toISOString_def)
  then show ?thesis
    using assms(1) by (simp add: timestampToIso_def nullish_def or_default_def stamp_ms_def)
qed

lemma nowTs_iso:
  assumes "0 \<le> ms" "ms \<le> MAX_TIME"
  shows "timestampToIso (nowTs ms) = Inr (Some (iso_of_ms ms))"
proof -
  have m: "1000 * (ms div 1000) + ms mod 1000 = ms" by simp
  have b: "0 \<le> ms mod 1000" "ms mod 1000 < 1000" by simp_all
  then have "\<bar>1000 * (ms div 1000)\<bar> \<le> MAX_TIME + 1000" using assms m by linarith
  then have "stamp_ms (num_of_int (ms div 1000)) (num_of_int (ms mod 1000 * 1000000)) = num_of_int ms"
    using stamp_ms_int [of "ms div 1000" "ms mod 1000"] b m assms by simp
  from timestampToIso_stamp [OF this] show ?thesis unfolding nowTs_def using assms by simp
qed

text \<open>
  Dividing a time value by a thousand does not cross an integer: the error is below half a
  thousandth.
\<close>

lemma floor_div_1000:
  assumes "\<bar>ms\<bar> \<le> MAX_TIME"
  shows "num_floor_div (num_of_int ms) 1000 = num_of_int (ms div 1000)"
proof -
  define x :: rat where "x = of_int ms / 1000"
  have "\<bar>of_int ms :: rat\<bar> \<le> of_int MAX_TIME" using assms by (metis of_int_abs of_int_le_iff)
  then have "\<bar>x\<bar> < pow2 (42 + 1)" by (simp add: x_def MAX_TIME_def pow2_def abs_le_iff abs_less_iff)
  from to_double_error [OF this] obtain v where v: "to_double x = Fin v" "\<bar>v - x\<bar> \<le> 1 / 2048"
    by (auto simp: pow2_def)
  have m: "ms = 1000 * (ms div 1000) + ms mod 1000" by simp
  have r: "0 \<le> ms mod 1000" "ms mod 1000 < 1000" by simp_all
  show ?thesis
  proof (cases "ms mod 1000 = 0")
    case True
    have "\<bar>ms div 1000\<bar> \<le> 2 ^ 53" using assms m r by (simp add: MAX_TIME_def)
    moreover have "x = of_int (ms div 1000)" using m True unfolding x_def by (metis add.right_neutral nonzero_mult_div_cancel_left of_int_mult of_int_numeral zero_neq_numeral)
    ultimately have "to_double x = num_of_int (ms div 1000)" by (simp add: to_double_of_int)
    then show ?thesis by (simp flip: x_def)
  next
    case False
    have "(of_int ms :: rat) = of_int (1000 * (ms div 1000) + ms mod 1000)" by (rule arg_cong [OF m])
    also have "\<dots> = 1000 * of_int (ms div 1000) + of_int (ms mod 1000)"
      by (simp only: of_int_add of_int_mult of_int_numeral)
    finally have x: "x = of_int (ms div 1000) + of_int (ms mod 1000) / 1000"
      unfolding x_def by simp
    have "1 \<le> ms mod 1000" "ms mod 1000 \<le> 999" using False r by linarith+
    then have "(1 :: rat) \<le> of_int (ms mod 1000)" "of_int (ms mod 1000) \<le> (999 :: rat)"
      by (simp_all only: of_int_1_le_iff of_int_le_numeral_iff)
    moreover have "v - x \<le> 1 / 2048" "x - v \<le> 1 / 2048" using v(2) by (simp_all only: abs_le_iff) simp_all
    ultimately have "of_int (ms div 1000) \<le> v" "v < of_int (ms div 1000) + 1" unfolding x by linarith+
    then have "\<lfloor>v\<rfloor> = ms div 1000" by (rule floor_unique)
    then show ?thesis using v(1) by (simp flip: x_def)
  qed
qed

lemma num_rem_1000:
  "num_rem (num_of_int ms) 1000 = num_of_int (if ms < 0 then - ((- ms) mod 1000) else ms mod 1000)"
proof -
  have f: "\<lfloor>(of_int a :: rat) / 1000\<rfloor> = a div 1000" for a
    using floor_divide_of_int_eq [of a 1000] by simp
  have c: "\<lceil>(of_int a :: rat) / 1000\<rceil> = - ((- a) div 1000)" for a
    using f [of "- a"] by (simp add: ceiling_def)
  have m: "a - 1000 * (a div 1000) = a mod 1000" for a :: int by (simp add: minus_mult_div_eq_mod)
  show ?thesis
  proof (cases "ms < 0")
    case True
    have "of_int ms - 1000 * of_int (- ((- ms) div 1000)) = (of_int (ms + 1000 * ((- ms) div 1000)) :: rat)" by simp
    also have "ms + 1000 * ((- ms) div 1000) = - ((- ms) mod 1000)" using m [of "- ms"] by simp
    finally show ?thesis using True by (simp add: c)
  next
    case False
    have "of_int ms - 1000 * of_int (ms div 1000) = (of_int (ms - 1000 * (ms div 1000)) :: rat)" by simp
    then show ?thesis using False by (simp add: f m)
  qed
qed

lemma isoToTimestamp_int:
  assumes "txt \<noteq> []" "date_parse d txt = num_of_int ms" "\<bar>ms\<bar> \<le> MAX_TIME"
  shows "isoToTimestamp d txt = Some (num_of_int (ms div 1000),
    num_of_int ((if ms < 0 then - ((- ms) mod 1000) else ms mod 1000) * 1000000))"
proof -
  define r where "r = (if ms < 0 then - ((- ms) mod 1000) else ms mod 1000)"
  have "\<bar>r\<bar> < 1000" by (simp add: r_def)
  then have "num_times (num_of_int r) (Fin 1000000) = num_of_int (r * 1000000)"
    using MAX_TIME_exact [of "r * 1000000"] by (simp add: MAX_TIME_def)
  then show ?thesis
    using assms floor_div_1000 [OF assms(3)] num_rem_1000 [of ms]
    by (simp add: isoToTimestamp_def r_def)
qed

lemma isoToTimestamp_reads_back:
  assumes "txt \<noteq> []" "date_parse d txt = num_of_int ms" "\<bar>ms\<bar> \<le> MAX_TIME"
    and "isoToTimestamp d txt = Some (sec, nanos)"
  shows "stamp_ms sec nanos = num_of_int (if ms < 0 \<and> ms mod 1000 \<noteq> 0 then ms - 1000 else ms)"
proof -
  define r where "r = (if ms < 0 then - ((- ms) mod 1000) else ms mod 1000)"
  have sn: "sec = num_of_int (ms div 1000)" "nanos = num_of_int (r * 1000000)"
    using isoToTimestamp_int [OF assms(1-3)] assms(4) by (simp_all add: r_def)
  have m: "1000 * (ms div 1000) + ms mod 1000 = ms" "0 \<le> ms mod 1000" "ms mod 1000 < 1000" by simp_all
  have neg: "(- ms) mod 1000 = (if ms mod 1000 = 0 then 0 else 1000 - ms mod 1000)"
    by (rule zmod_zminus1_eq_if)
  have "1000 * (ms div 1000) + r = (if ms < 0 \<and> ms mod 1000 \<noteq> 0 then ms - 1000 else ms)"
    using m by (cases "ms mod 1000 = 0") (simp_all add: r_def neg)
  moreover have "\<bar>r\<bar> < 1000" by (simp add: r_def)
  moreover have "\<bar>1000 * (ms div 1000)\<bar> \<le> MAX_TIME + 1000" using m assms(3) by linarith
  ultimately show ?thesis
    unfolding sn using stamp_ms_int [of "ms div 1000" r] assms(3) by (simp split: if_splits)
qed

section \<open>A reset resets\<close>

lemma handle_usage:
  "mock_handle ms (quotaenforcer (GetUsage lk) md) b = (Inr (R_usage (mock_usage ms lk (enforcer b))), b)"
  by (simp add: mock_handle_def)

lemma handle_refund:
  "mock_handle ms (quotaenforcer (Refund lk a rq) (actorMetadata who)) b =
     (Inr (R_refund (fst (mock_refund ms who lk a rq (enforcer b)))),
      b\<lparr>enforcer := mock_give_back ms who rq lk a (enforcer b)\<rparr>)"
  by (simp add: mock_handle_def mock_give_back_def actorOf_def actorMetadata_def ACTOR_METADATA_KEY_def
      split_def Let_def)

lemma counter_after_refund:
  "counter_at (mock_give_back ms who rq lk a e) lk =
     (counter_at e lk)\<lparr>cn_consumed := mock_used (mock_give_back ms who rq lk a e) lk\<rparr>"
  by (simp add: mock_give_back_def mock_refund_def counter_at_def mock_used_def Let_def)

text \<open>What the console shows of a counter.\<close>

lemma view_of_usage:
  assumes "mock_used e lk = num_of_int n" "cn_limit (counter_at e lk) = num_of_int l"
    "cn_configured (counter_at e lk)" "\<bar>l - n\<bar> \<le> 2 ^ 53" "0 \<le> ms" "ms \<le> MAX_TIME"
  shows "toUsageView lk (mock_usage ms lk e) f =
    Inr \<lparr>uv_key = lk, uv_configured = True, uv_limit = Some (num_of_int l), uv_consumed = num_of_int n,
         uv_remaining = num_of_int (l - n), uv_reset_at = Some (iso_of_ms ms), uv_fetched_at = f\<rparr>"
proof -
  have "num_minus (num_of_int l) (num_of_int n) = num_of_int (l - n)"
    using to_double_of_int [OF assms(4)] by (simp add: num_minus_def)
  then show ?thesis
    using assms nowTs_iso [OF assms(5,6)]
    by (simp add: toUsageView_def mock_usage_def mock_used_def Let_def)
qed

lemma drive_reset_finish:
  "drive 1 ms (reset_finish d ctx lk f (\<lambda>u. respond c (g u)) n rq s) b =
     (let s' = append_log d (entry_of ctx ''op:reset'' lk (Some (Detail_refunded (max_zero n))) (Some rq)) s
      in case toUsageView lk (mock_usage ms lk (enforcer b)) f of
           Inl e \<Rightarrow> Some (errorMiddleware e, s', b)
         | Inr u \<Rightarrow> Some (reply c (g u), s', b))"
  unfolding reset_finish_def One_nat_def
  by (simp add: drive_call handle_usage Let_def split: sum.splits)

lemma drive_mono: "drive m ms x b = Some y \<Longrightarrow> m \<le> n \<Longrightarrow> drive n ms x b = Some y"
proof (induction m ms x b arbitrary: n rule: drive.induct)
  case (4 m ms s c k b)
  then show ?case by (cases n) (auto simp: split_def Let_def)
qed auto

text \<open>The counters after a reset that found \<open>n\<close> consumed.\<close>

definition after_reset :: "int \<Rightarrow> string \<Rightarrow> string \<Rightarrow> limit_key \<Rightarrow> int \<Rightarrow> mocks \<Rightarrow> mocks" where
  "after_reset ms who rq lk n b =
     (if n = 0 then b else b\<lparr>enforcer := mock_give_back ms who rq lk (num_of_int n) (enforcer b)\<rparr>)"

lemma after_reset_used:
  assumes "no_bar lk" "mock_used (enforcer b) lk = num_of_int n"
  shows "mock_used (enforcer (after_reset ms who rq lk n b)) lk = Fin 0"
  using assms mock_window.give_back_all [OF assms] by (simp add: after_reset_def)

lemma after_reset_others:
  "no_bar lk \<Longrightarrow> no_bar j \<Longrightarrow> j \<noteq> lk \<Longrightarrow>
     mock_used (enforcer (after_reset ms who rq lk n b)) j = mock_used (enforcer b) j"
  using mock_window.used_give_back [of lk j] by (simp add: after_reset_def)

lemma after_reset_config [simp]:
  "cn_limit (counter_at (enforcer (after_reset ms who rq lk n b)) lk) = cn_limit (counter_at (enforcer b) lk)"
  "cn_configured (counter_at (enforcer (after_reset ms who rq lk n b)) lk) = cn_configured (counter_at (enforcer b) lk)"
  by (simp_all add: after_reset_def counter_after_refund)

lemma drive_reset_refund:
  fixes d s rq
  defines "rq \<equiv> fst (reqId d s)"
  assumes "0 \<le> n"
    and view: "toUsageView lk (mock_usage ms lk (enforcer (after_reset ms (ctx_actor ctx) rq lk n b))) f = Inr u"
  shows "drive 2 ms (reset_refund d ctx lk f (\<lambda>u. respond c (g u)) (num_of_int n) s) b
    = Some (reply c (g u),
        append_log d (entry_of ctx ''op:reset'' lk (Some (Detail_refunded (num_of_int n))) (Some rq)) (snd (reqId d s)),
        after_reset ms (ctx_actor ctx) rq lk n b)"
proof -
  have mz: "max_zero (num_of_int n) = num_of_int n" using assms(2) by (simp add: max_zero_def)
  have fin: "drive 1 ms (reset_finish d ctx lk f (\<lambda>u. respond c (g u)) (num_of_int n) rq (snd (reqId d s)))
      (after_reset ms (ctx_actor ctx) rq lk n b) = Some (reply c (g u),
        append_log d (entry_of ctx ''op:reset'' lk (Some (Detail_refunded (num_of_int n))) (Some rq)) (snd (reqId d s)),
        after_reset ms (ctx_actor ctx) rq lk n b)"
    unfolding drive_reset_finish by (simp add: view mz)
  show ?thesis
  proof (cases "n = 0")
    case True
    then show ?thesis
      using drive_mono [OF fin, of 2]
      by (simp add: reset_refund_def split_def after_reset_def Let_def flip: rq_def)
  next
    case False
    then have "num_less (Fin 0) (num_of_int n)" using assms(2) by simp
    then show ?thesis
      using fin False
      by (simp add: reset_refund_def split_def Let_def numeral_2_eq_2 drive_call handle_refund after_reset_def
          flip: rq_def)
  qed
qed

lemma log_after_reqId: "log_entries (snd (reqId d (snd (iso_now d s)))) = log_entries s"
  by (simp add: reqId_def random_hex_def iso_now_def date_now_def split_def Let_def)

lemma resets_to_zero:
  assumes lk: "no_bar lk" and used: "mock_used (enforcer b) lk = num_of_int n" "0 \<le> n"
    and conf: "cn_limit (counter_at (enforcer b) lk) = num_of_int l"
      "cn_configured (counter_at (enforcer b) lk)" "\<bar>l\<bar> \<le> 2 ^ 53"
    and ms: "0 \<le> ms" "ms \<le> MAX_TIME"
  shows "\<exists>u s' b'. drive 3 ms (resetWindow d ctx lk (\<lambda>u. respond c (g u)) s) b
      = Some (reply c (g u), s', b')
    \<and> uv_consumed u = Fin 0 \<and> uv_remaining u = num_of_int l \<and> uv_limit u = Some (num_of_int l)
    \<and> mock_used (enforcer b') lk = Fin 0
    \<and> (\<forall>j. no_bar j \<and> j \<noteq> lk \<longrightarrow> mock_used (enforcer b') j = mock_used (enforcer b) j)
    \<and> (\<exists>e. log_entries s' = log_entries s @ [e] \<and> action e = ''op:reset'' \<and> actor e = ctx_actor ctx
         \<and> target e = Target_key lk \<and> details e = Some (Detail_refunded (num_of_int n)))"
proof -
  define f where "f = fst (iso_now d s)"
  define s1 where "s1 = snd (iso_now d s)"
  define b' where "b' = after_reset ms (ctx_actor ctx) (fst (reqId d s1)) lk n b"
  define s' where "s' = append_log d (entry_of ctx ''op:reset'' lk (Some (Detail_refunded (num_of_int n)))
    (Some (fst (reqId d s1)))) (snd (reqId d s1))"
  have zero: "mock_used (enforcer b') lk = num_of_int 0"
    using after_reset_used [OF lk used(1)] by (simp add: b'_def)
  obtain u where u: "toUsageView lk (mock_usage ms lk (enforcer b')) f = Inr u"
      "uv_consumed u = Fin 0" "uv_remaining u = num_of_int l" "uv_limit u = Some (num_of_int l)"
    using view_of_usage [OF zero _ _ _ ms, of l f] conf by (simp add: b'_def)
  have "drive 3 ms (resetWindow d ctx lk (\<lambda>u. respond c (g u)) s) b = Some (reply c (g u), s', b')"
    using used(1) drive_reset_refund [OF used(2) u(1) [unfolded b'_def]]
    by (simp add: resetWindow_def split_def Let_def numeral_3_eq_3 numeral_2_eq_2 drive_call handle_usage
        mock_usage_def mock_used_def s'_def b'_def flip: f_def s1_def)
  moreover have "\<exists>e. log_entries s' = log_entries s @ [e] \<and> action e = ''op:reset'' \<and> actor e = ctx_actor ctx
      \<and> target e = Target_key lk \<and> details e = Some (Detail_refunded (num_of_int n))"
    using append_log_entries [of d _ "snd (reqId d s1)"] log_after_reqId [of d s]
    by (force simp: s'_def s1_def entry_of_def NewEntry.defs)
  moreover have "mock_used (enforcer b') j = mock_used (enforcer b) j" if "no_bar j" "j \<noteq> lk" for j
    unfolding b'_def by (rule after_reset_others [OF lk that])
  ultimately show ?thesis using u zero by auto
qed

section \<open>A created limit is there, audited under the actor\<close>

lemma handle_create:
  "mock_handle ms (quotamgmt (CreateLimit lk v u) (actorMetadata who)) b =
     (let (r, m) = mock_create ms who lk v u (mgmt b) in (r, b\<lparr>mgmt := m\<rparr>))"
  by (simp add: mock_handle_def actorOf_def actorMetadata_def ACTOR_METADATA_KEY_def)

lemma creates_limit:
  assumes "no_bar (key v)" "ctx_actor ctx \<noteq> []" "mock_view (mgmt b) (key v) = None"
  shows "\<exists>lv s' b' e. drive 1 ms (createLimit d ctx v (\<lambda>l. respond 201 (P_limit l)) s) b
      = Some (reply 201 (P_limit lv), s', b')
    \<and> lv_key lv = key v \<and> lv_limit_value lv = limit_value v \<and> lv_time_unit lv = time_unit v
    \<and> mock_view (mgmt b') = (mock_view (mgmt b))(key v \<mapsto> (limit_value v, time_unit v))
    \<and> audit (mgmt b') = audit (mgmt b) @ [e] \<and> ar_changed_by e = ctx_actor ctx
    \<and> ar_new_row e = row_of (key v) (limit_value v) (time_unit v)"
proof -
  define m where "m = snd (insert_limit ms (ctx_actor ctx) (key v) (limit_value v) (time_unit v) (mgmt b))"
  define st where "st = fst (insert_limit ms (ctx_actor ctx) (key v) (limit_value v) (time_unit v) (mgmt b))"
  have "map_get (limits (mgmt b)) (k_of (key v)) = None" using assms(1,3) by (simp add: view_key)
  then have h: "mock_handle ms (quotamgmt (CreateLimit (key v) (limit_value v) (time_unit v))
      (actorMetadata (ctx_actor ctx))) b = (Inr (R_limit (Some (raw_of st))), b\<lparr>mgmt := m\<rparr>)"
    using assms(2) by (simp add: handle_create mock_create_def split_def Let_def m_def st_def)
  have st: "st_key st = key v" "st_limit_value st = limit_value v" "st_time_unit st = time_unit v"
    by (simp_all add: st_def insert_limit_def Let_def)
  have view: "mock_view m = (mock_view (mgmt b))(key v \<mapsto> (limit_value v, time_unit v))"
    unfolding m_def by (rule view_insert [OF assms(1)])
  have aud: "\<exists>e. audit m = audit (mgmt b) @ [e] \<and> ar_changed_by e = ctx_actor ctx
      \<and> ar_new_row e = row_of (key v) (limit_value v) (time_unit v)"
    by (simp add: m_def insert_limit_def writeAudit_def Let_def)
  show ?thesis
    unfolding createLimit_def One_nat_def using aud view
    by (auto simp: drive_call h toLimitView_def raw_of_def st nullish_def Let_def)
qed

lemma refuses_duplicate:
  assumes "no_bar (key v)" "ctx_actor ctx \<noteq> []" "mock_view (mgmt b) (key v) \<noteq> None"
  shows "drive 1 ms (createLimit d ctx v (\<lambda>l. respond 201 (P_limit l)) s) b
    = Some (reply 409 (P_rpc_error ''limit already exists'' (Some 6)), s, b)"
  using assms
  by (auto simp: createLimit_def drive_call handle_create mock_create_def view_key grpc_error_def
      grpcToHttp_def throw_def)

end
