(* ===== verification/Backends.thy ===== *)
theory Backends
  imports Http
begin

text \<open>
  The part of \<^verbatim>\<open>bff/src/grpc.ts\<close> that is not a matter of the gRPC library: which address each client is
  created with, and the credential the server adds to its calls of quotamgmt.
\<close>

record BackendAddrs =
  quotamgmtAddr :: "string option"
  quotaenforcerAddr :: "string option"
  quotamgmtToken :: "string option"

text \<open>The variables of the environment it reads.\<close>

record BackendEnv =
  QUOTAMGMT_ADDR :: "string option"
  QUOTAENFORCER_ADDR :: "string option"
  QUOTAMGMT_TOKEN :: "string option"

record Client =
  client_addr :: string
  client_bearer :: "string option"

definition or_else :: "'a option \<Rightarrow> 'a option \<Rightarrow> 'a option" where
  "or_else x y = (case x of None \<Rightarrow> y | Some a \<Rightarrow> x)"

definition createBackends :: "BackendAddrs \<Rightarrow> BackendEnv \<Rightarrow> Backend \<Rightarrow> Client" where
  "createBackends addrs env b =
     (let or_text = (\<lambda>x t. case x of None \<Rightarrow> t | Some a \<Rightarrow> a) in
      case b of
        Quotamgmt \<Rightarrow>
          \<lparr>client_addr = or_text (or_else (quotamgmtAddr addrs) (QUOTAMGMT_ADDR env)) ''localhost:50051'',
           client_bearer = (case or_else (quotamgmtToken addrs) (QUOTAMGMT_TOKEN env) of
                              Some (c # cs) \<Rightarrow> Some (c # cs) | _ \<Rightarrow> None)\<rparr>
      | Quotaenforcer \<Rightarrow>
          \<lparr>client_addr = or_text (or_else (quotaenforcerAddr addrs) (QUOTAENFORCER_ADDR env)) ''localhost:50052'',
           client_bearer = None\<rparr>)"

definition bearerInterceptor :: "string \<Rightarrow> (string \<times> string) list \<Rightarrow> (string \<times> string) list" where
  "bearerInterceptor token md = map_set ''authorization'' (''Bearer '' @ token) md"

text \<open>A call as it leaves a client.\<close>

definition outgoing :: "Client \<Rightarrow> rpc_call \<Rightarrow> rpc_call" where
  "outgoing cl c =
     (case client_bearer cl of None \<Rightarrow> c | Some t \<Rightarrow> c\<lparr>metadata := bearerInterceptor t (metadata c)\<rparr>)"

text \<open>
  The credential travels beside the identity of the user, which stays as it is; and only calls of
  quotamgmt carry it.
\<close>

lemma outgoing_actor: "actor_of (outgoing cl c) = actor_of c \<and> request (outgoing cl c) = request c"
  by (simp add: outgoing_def bearerInterceptor_def actor_of_def ACTOR_METADATA_KEY_def split: option.splits)

lemma credential_only_for_quotamgmt:
  assumes "map_get (metadata c) ''authorization'' = None"
  shows "map_get (metadata (outgoing (createBackends addrs env b) c)) ''authorization'' =
    (case b of
       Quotaenforcer \<Rightarrow> None
     | Quotamgmt \<Rightarrow> (case or_else (quotamgmtToken addrs) (QUOTAMGMT_TOKEN env) of
                       Some (x # xs) \<Rightarrow> Some (''Bearer '' @ x # xs) | _ \<Rightarrow> None))"
  using assms
  by (simp add: outgoing_def createBackends_def bearerInterceptor_def Let_def split: Backend.splits option.splits list.splits)

end
