(* ===== verification/Dev_Server.thy ===== *)
theory Dev_Server
  imports End_To_End Backends
begin

text \<open>
  The set-ups of \<^verbatim>\<open>bff/src/index.ts\<close> and \<^verbatim>\<open>bff/dev/server.ts\<close>: the seeded users, and the data the
  mock dev server puts into the stand-ins before it listens. A short scenario on that server is
  worked out at the end.
\<close>

section \<open>Seeds\<close>

definition user :: "string \<Rightarrow> string \<Rightarrow> Grant list \<Rightarrow> User" where
  "user i e gs = \<lparr>user_id = i, email = e, grants = gs\<rparr>"

definition DEV_USERS :: "User list" where
  "DEV_USERS =
     [user ''alice'' ''alice@anthropic.com'' [\<lparr>role = Operator, service = None\<rparr>],
      user ''bob'' ''bob@anthropic.com'' [\<lparr>role = Service_editor, service = Some ''search-svc''\<rparr>],
      user ''vic'' ''vic@anthropic.com'' [\<lparr>role = Viewer, service = None\<rparr>],
      user ''admin'' ''admin@anthropic.com'' [\<lparr>role = Admin, service = None\<rparr>]]"

definition MOCK_USERS :: "User list" where
  "MOCK_USERS =
     [user ''alice'' ''alice@anthropic.com'' [\<lparr>role = Operator, service = None\<rparr>],
      user ''carol'' ''carol@anthropic.com'' [\<lparr>role = Operator, service = None\<rparr>],
      user ''bob'' ''bob@anthropic.com'' [\<lparr>role = Service_editor, service = Some ''search-svc''\<rparr>],
      user ''vic'' ''vic@anthropic.com'' [\<lparr>role = Viewer, service = None\<rparr>],
      user ''admin'' ''admin@anthropic.com'' [\<lparr>role = Admin, service = None\<rparr>]]"

text \<open>The grant store of the production entry point: empty in OIDC mode.\<close>

definition main_grants :: "string option \<Rightarrow> GrantStore" where
  "main_grants auth_mode_var = new_grants (if auth_mode_var = Some ''oidc'' then [] else DEV_USERS)"

definition mkkey :: "string \<Rightarrow> string \<Rightarrow> string \<Rightarrow> limit_key" where
  "mkkey s c r = \<lparr>service_name = s, customer_id = c, rate_limit_id = r\<rparr>"

definition seedLimits :: "(limit_key \<times> jsnum \<times> string) list" where
  "seedLimits =
     [(mkkey ''search-svc'' ''*'' ''default'', Fin 500, ''MINUTE''),
      (mkkey ''search-svc'' ''cust_42'' ''default'', Fin 1000, ''MINUTE''),
      (mkkey ''search-svc'' ''*'' ''export'', Fin 5, ''DAY''),
      (mkkey ''search-svc'' ''cust_99'' ''export'', Fin 10, ''DAY''),
      (mkkey ''payments-svc'' ''*'' ''charge'', Fin 100, ''MINUTE'')]"

fun seed_limits :: "int \<Rightarrow> int \<Rightarrow> (limit_key \<times> jsnum \<times> string) list \<Rightarrow> FakeQuotamgmt \<Rightarrow> FakeQuotamgmt" where
  "seed_limits ms cid [] m = m"
| "seed_limits ms cid ((lk, v, u) # xs) m =
     seed_limits ms (cid + 1) xs
       (m\<lparr>limits := map_set (k_of lk)
             \<lparr>st_config_id = cid, st_key = lk, st_limit_value = v, st_time_unit = u\<rparr> (limits m),
          audit := audit m @
             [\<lparr>ar_audit_id = cid, ar_config_id = cid, ar_operation = ''INSERT'', ar_old_row = JNull,
               ar_new_row = row_of lk v u, ar_changed_by = ''seed@anthropic.com'',
               ar_changed_at = JObj [(''seconds'', JNum (num_of_int (ms div 1000))), (''nanos'', JNum (Fin 0))]\<rparr>]\<rparr>)"

definition mock_services :: "(string, ServiceView) jsmap" where
  "mock_services =
     map_set ''payments-svc'' \<lparr>svc_name = ''payments-svc'', display_name = ''Payments'', owner = ''payments-team''\<rparr>
       (map_set ''search-svc'' \<lparr>svc_name = ''search-svc'', display_name = ''Search'', owner = ''search-team''\<rparr> [])"

definition seeded_mocks :: "int \<Rightarrow> mocks" where
  "seeded_mocks ms =
     \<lparr>mgmt = seed_limits ms 1 seedLimits (new_mgmt\<lparr>services := mock_services\<rparr>),
      enforcer =
        seed_counter (mkkey ''search-svc'' ''cust_99'' ''export'') (Fin 3) (Fin 10) None
          (seed_counter (mkkey ''search-svc'' ''cust_42'' ''default'') (Fin 1003) (Fin 1000) None new_enforcer)\<rparr>"

section \<open>A scenario\<close>

text \<open>
  An environment that draws identifiers from a counter, and four requests to it: two operators log
  in, one of them asks for a new default, and the other approves it.
\<close>

definition demo_deps :: Deps where
  "demo_deps =
     \<lparr>authMode = Dev, policy = DEFAULT_POLICY, reviewPolicy = DEFAULT_REVIEW_POLICY,
      cookie_secure_var = None, node_env_var = None,
      hex = (\<lambda>n i. CHR ''d'' # nat_str (int i)), clock = (\<lambda>i. 1700000000000 + int i),
      date_parse = (\<lambda>_. NaN)\<rparr>"

definition demo_platform :: Platform where
  "demo_platform =
     \<lparr>decode_param = Some, spa_dir = False, static_file = (\<lambda>_. False),
      unhandled = (\<lambda>_. reply 404 P_express)\<rparr>"

definition demo_request :: "Method \<Rightarrow> string list \<Rightarrow> jsv \<Rightarrow> string \<Rightarrow> string \<Rightarrow> Request" where
  "demo_request m p b cookie token =
     \<lparr>meth = m, path = p, query = JObj [], body = Inr b, cookies = [(SESSION_COOKIE, JStr cookie)],
      headers = [(CSRF_HEADER, token)]\<rparr>"

definition demo_login :: "string \<Rightarrow> Request" where
  "demo_login who = demo_request POST [''api'', ''auth'', ''login''] (JObj [(''user'', JStr who)]) [] []"

definition demo_change :: Request where
  "demo_change = demo_request PUT [''api'', ''limits'']
     (JObj [(''service_name'', JStr ''search-svc''), (''customer_id'', JStr ''*''),
            (''rate_limit_id'', JStr ''default''), (''limit_value'', JNum (Fin 700)),
            (''time_unit'', JStr ''MINUTE'')]) ''d0'' ''d1''"

definition demo_approve :: Request where
  "demo_approve = demo_request POST [''api'', ''reviews'', ''d4'', ''approve''] (JObj []) ''d2'' ''d3''"

lemma distinct_draws_demo: "distinct_draws demo_deps"
proof -
  have "m = n" if "nat_str (int m) = nat_str (int n)" for m n
    using that by (metis digits_value_nat_str of_nat_0_le_iff of_nat_eq_iff)
  then show ?thesis unfolding distinct_draws_def demo_deps_def by (metis Deps.select_convs(6) list.inject)
qed

text \<open>The states the four requests lead through.\<close>

definition demo_state0 :: bff where
  "demo_state0 = new_state (new_grants MOCK_USERS)"

definition demo_session :: "nat \<Rightarrow> string \<Rightarrow> string \<Rightarrow> Session" where
  "demo_session u i t =
     \<lparr>session_id = i, suser = u, csrfToken = t, sess_createdAt = clock demo_deps u\<rparr>"

definition demo_state1 :: bff where
  "demo_state1 =
     demo_state0\<lparr>sessions := [(''d0'', demo_session 0 ''d0'' ''d1'')], draws := 2, ticks := 1\<rparr>"

definition demo_state2 :: bff where
  "demo_state2 =
     demo_state0\<lparr>sessions := [(''d0'', demo_session 0 ''d0'' ''d1''), (''d2'', demo_session 1 ''d2'' ''d3'')],
                 draws := 4, ticks := 2\<rparr>"

definition demo_key :: limit_key where
  "demo_key = mkkey ''search-svc'' ''*'' ''default''"

definition demo_op :: PendingOp where
  "demo_op = PLimitUpdate demo_key (Fin 700) ''MINUTE''"

definition demo_review :: Review where
  "demo_review =
     \<lparr>rid = ''d4'', rop = demo_op, reason = the (reviewReason demo_op DEFAULT_REVIEW_POLICY),
      initiator = ''alice@anthropic.com'', status = Pending, createdAt = iso_of_ms (clock demo_deps 2),
      decidedBy = None, decidedAt = None\<rparr>"

definition demo_state3 :: bff where
  "demo_state3 = demo_state2\<lparr>reviews := [(''d4'', demo_review)], draws := 5, ticks := 3\<rparr>"

definition demo_approved :: Review where
  "demo_approved =
     demo_review\<lparr>status := Approved, decidedBy := Some ''carol@anthropic.com'',
                 decidedAt := Some (iso_of_ms (clock demo_deps 3))\<rparr>"

definition demo_state4 :: bff where
  "demo_state4 = demo_state3\<lparr>reviews := [(''d4'', demo_approved)], ticks := 4\<rparr>"

definition demo_update :: rpc_call where
  "demo_update =
     quotamgmt (UpdateLimit demo_key (Fin 700) ''MINUTE'' True) (actorMetadata ''carol@anthropic.com'')"

lemmas path_eval = is_path_def drop_slash_def is_segment_def lower_char_def gets_def

lemmas gate_eval =
  api_def requireAuth_def requireCsrf_def attachSession_def SESSION_COOKIE_def CSRF_HEADER_def
  session_get_def csrf_passes_def state_changing_def

lemma mock_grants:
  "new_grants MOCK_USERS =
     \<lparr>heap = MOCK_USERS,
      users = [(''alice'', 0), (''carol'', 1), (''bob'', 2), (''vic'', 3), (''admin'', 4)]\<rparr>"
  by (simp add: new_grants_def MOCK_USERS_def put_new_def grants_alloc_def grants_put_def user_at_def user_def)

lemma mock_users:
  "email (MOCK_USERS ! 0) = ''alice@anthropic.com''" "email (MOCK_USERS ! Suc 0) = ''carol@anthropic.com''"
  "authorize (MOCK_USERS ! 0) Limit_write (Some ''search-svc'') DEFAULT_POLICY = Authz_ok"
  "authorize (MOCK_USERS ! Suc 0) Review_approve None DEFAULT_POLICY = Authz_ok"
  by (simp_all add: MOCK_USERS_def user_def authorize_def rbac_simps)

lemmas demo_states = demo_state0_def demo_state1_def demo_state2_def demo_state3_def demo_state4_def

lemmas demo_eval = demo_states new_state_def mock_grants demo_session_def demo_deps_def digit_char_def Let_def

lemmas login_eval =
  devLogin_def or_default_def nullish_def grants_get_def sessions_create_def random_hex_def date_now_def
  session_create_def

lemma demo_step1: "fst (serve demo_platform demo_deps (demo_login ''alice'') demo_state0) = demo_state1"
  by (simp add: serve_def demo_login_def demo_request_def path_eval)
     (simp add: login_eval demo_eval numeral_2_eq_2)

lemma demo_step2: "fst (serve demo_platform demo_deps (demo_login ''carol'') demo_state1) = demo_state2"
  by (simp add: serve_def demo_login_def demo_request_def path_eval)
     (simp add: login_eval demo_eval numeral_2_eq_2)

lemma demo_parsed:
  "validateLimit (JObj [(''service_name'', JStr ''search-svc''), (''customer_id'', JStr ''*''),
      (''rate_limit_id'', JStr ''default''), (''limit_value'', JNum (Fin 700)), (''time_unit'', JStr ''MINUTE'')])
   = Inr (Valid \<lparr>service_name = ''search-svc'', customer_id = ''*'', rate_limit_id = ''default'',
                 limit_value = Fin 700, time_unit = ''MINUTE''\<rparr>)"
  by (simp add: validateLimit_def require_def isNonEmptyString_def limit_value_errors_def num_isInteger_def
      TIME_UNITS_def as_number_def)

lemmas guard_eval =
  guard_def session_user_def user_at_def mock_users random_hex_def iso_now_def date_now_def

lemma demo_step3: "fst (serve demo_platform demo_deps demo_change demo_state2) = demo_state3"
  by (simp add: serve_def demo_change_def demo_request_def path_eval)
     (simp add: gate_eval api_route_def path_eval put_limits_def with_valid_def demo_parsed guard_eval demo_eval
        key_def review_or_apply_def DEFAULT_REVIEW_POLICY_def default_change_reason_def reviews_create_def
        review_create_def demo_review_def demo_op_def demo_key_def mkkey_def)

lemma demo_step4:
  "\<exists>k. serve demo_platform demo_deps demo_approve demo_state3 = (demo_state4, Await demo_update k)"
  by (simp add: serve_def demo_approve_def demo_request_def path_eval)
     (simp add: gate_eval api_route_def path_eval param_route_def with_param_def demo_platform_def
        post_approve_def guard_eval demo_eval reviews_decide_def review_decide_def demo_review_def demo_op_def
        demo_approved_def demo_update_def updateLimit_def call_def)

lemma arrive_reachable:
  assumes "reachable (serve pl d) administer s0 w"
  obtains w' where "reachable (serve pl d) administer s0 w'" "store w' = fst (serve pl d q (store w))"
    "\<And>c k. snd (serve pl d q (store w)) = Await c k \<Longrightarrow> Issued (length (threads w)) c \<in> set (trace w')"
proof -
  obtain s a where sa: "serve pl d q (store w) = (s, a)" by force
  show ?thesis
    using that [OF reachable.more [OF assms step.arrive [where serve = "serve pl d" and q = q and w = w, OF sa]]]
    by (simp add: sa)
qed

lemma demo_run:
  obtains w t where "running demo_platform demo_deps (new_grants MOCK_USERS) w"
    "store w = demo_state4" "Issued t demo_update \<in> set (trace w)"
proof -
  have "running demo_platform demo_deps (new_grants MOCK_USERS) (boot demo_state0)"
    unfolding demo_state0_def by (rule reachable.init)
  moreover have "store (boot demo_state0) = demo_state0" by (simp add: boot_def)
  ultimately obtain w1 where 1: "running demo_platform demo_deps (new_grants MOCK_USERS) w1" "store w1 = demo_state1"
    using arrive_reachable [of demo_platform demo_deps _ _ "demo_login ''alice''"] demo_step1 by metis
  then obtain w2 where 2: "running demo_platform demo_deps (new_grants MOCK_USERS) w2" "store w2 = demo_state2"
    using arrive_reachable [of demo_platform demo_deps _ w1 "demo_login ''carol''"] demo_step2 by metis
  then obtain w3 where 3: "running demo_platform demo_deps (new_grants MOCK_USERS) w3" "store w3 = demo_state3"
    using arrive_reachable [of demo_platform demo_deps _ w2 demo_change] demo_step3 by metis
  obtain k where k: "serve demo_platform demo_deps demo_approve demo_state3 = (demo_state4, Await demo_update k)"
    using demo_step4 by blast
  from 3 obtain w where "running demo_platform demo_deps (new_grants MOCK_USERS) w" "store w = demo_state4"
      "Issued (length (threads w3)) demo_update \<in> set (trace w)"
    using arrive_reachable [of demo_platform demo_deps _ w3 demo_approve] k by (metis fst_conv snd_conv)
  then show ?thesis by (rule that)
qed

end
