(* ===== verification/Json.thy ===== *)
theory Json
  imports Js_Values
begin

text \<open>
  \<^verbatim>\<open>JSON.stringify\<close>, which the console uses for the bodies it sends and to compare the fields of two
  rows. The text of a value determines the value, as long as its numbers are integers a double holds
  exactly and nothing in it is \<^verbatim>\<open>undefined\<close>.
\<close>

section \<open>The text of a value\<close>

definition hex_digit :: "nat \<Rightarrow> char" where
  "hex_digit n = ''0123456789abcdef'' ! n"

definition escape_char :: "char \<Rightarrow> string" where
  "escape_char c =
     (let n = of_char c :: nat
      in if c = CHR 0x22 then [CHR 0x5C, CHR 0x22]
         else if c = CHR 0x5C then [CHR 0x5C, CHR 0x5C]
         else if c = CHR 0x08 then CHR 0x5C # ''b''
         else if c = CHR 0x09 then CHR 0x5C # ''t''
         else if c = CHR 0x0A then CHR 0x5C # ''n''
         else if c = CHR 0x0C then CHR 0x5C # ''f''
         else if c = CHR 0x0D then CHR 0x5C # ''r''
         else if n < 32 then CHR 0x5C # ''u00'' @ [hex_digit (n div 16), hex_digit (n mod 16)]
         else [c])"

definition quote :: "string \<Rightarrow> string" where
  "quote s = CHR 0x22 # concat (map escape_char s) @ [CHR 0x22]"

fun join :: "string \<Rightarrow> string list \<Rightarrow> string" where
  "join sep [] = []"
| "join sep [x] = x"
| "join sep (x # y # ys) = x @ sep @ join sep (y # ys)"

text \<open>\<open>None\<close> is \<^verbatim>\<open>undefined\<close>. An undefined element is written as \<^verbatim>\<open>null\<close>, an undefined property is left out.\<close>

fun stringify :: "jsv \<Rightarrow> string option" where
  "stringify JUndefined = None"
| "stringify JNull = Some ''null''"
| "stringify (JBool b) = Some (if b then ''true'' else ''false'')"
| "stringify (JNum n) = Some (if num_isFinite n then num_to_string n else ''null'')"
| "stringify (JStr s) = Some (quote s)"
| "stringify (JArr xs) =
     Some (CHR ''['' # join '','' (map (\<lambda>x. case stringify x of None \<Rightarrow> ''null'' | Some t \<Rightarrow> t) xs) @ '']'')"
| "stringify (JObj ob) =
     Some (CHR ''{'' # join '','' (concat (map (\<lambda>(k, v). case stringify v of None \<Rightarrow> []
             | Some t \<Rightarrow> [quote k @ '':'' @ t]) ob)) @ ''}'')"

section \<open>The text determines the value\<close>

fun exact :: "jsv \<Rightarrow> bool" where
  "exact JUndefined = False"
| "exact (JNum n) = (case n of Fin q \<Rightarrow> of_int \<lfloor>q\<rfloor> = q \<and> \<bar>\<lfloor>q\<rfloor>\<bar> \<le> 2 ^ 53 | _ \<Rightarrow> False)"
| "exact (JArr xs) = (\<forall>x \<in> set xs. exact x)"
| "exact (JObj ob) = (\<forall>p \<in> set ob. exact (snd p))"
| "exact _ = True"

lemma exact_int: "exact (JNum n) \<longleftrightarrow> (\<exists>i. n = num_of_int i \<and> \<bar>i\<bar> \<le> 2 ^ 53)"
proof (cases n)
  case (Fin q)
  then show ?thesis by (auto intro: exI [of _ "\<lfloor>q\<rfloor>"])
qed auto

text \<open>The text, for values that have one.\<close>

definition json :: "jsv \<Rightarrow> string" where
  "json v = (case stringify v of None \<Rightarrow> ''null'' | Some t \<Rightarrow> t)"

definition member :: "string \<times> jsv \<Rightarrow> string" where
  "member p = quote (fst p) @ '':'' @ json (snd p)"

lemma stringify_exact: "exact v \<Longrightarrow> stringify v = Some (json v)"
  by (cases v) (simp_all add: json_def)

lemma json_simps [simp]:
  "json JNull = ''null''" "json (JBool b) = (if b then ''true'' else ''false'')"
  "json (JStr s) = quote s" "json (JArr xs) = CHR ''['' # join '','' (map json xs) @ '']''"
  by (simp_all add: json_def [abs_def])

lemma json_int: "\<bar>i\<bar> \<le> 2 ^ 53 \<Longrightarrow> json (JNum (num_of_int i)) = int_str i"
  by (simp add: json_def num_to_string_int num_isFinite_def)

lemma json_object: "\<forall>p \<in> set ob. exact (snd p) \<Longrightarrow> json (JObj ob) = CHR ''{'' # join '','' (map member ob) @ ''}''"
proof -
  assume "\<forall>p \<in> set ob. exact (snd p)"
  then have "concat (map (\<lambda>(k, v). case stringify v of None \<Rightarrow> [] | Some t \<Rightarrow> [quote k @ '':'' @ t]) ob) = map member ob"
    by (induction ob) (auto simp: member_def stringify_exact)
  then show ?thesis by (simp add: json_def)
qed

lemma hex_digit_inject: "m < 16 \<Longrightarrow> n < 16 \<Longrightarrow> hex_digit m = hex_digit n \<longleftrightarrow> m = n"
  unfolding hex_digit_def by (rule nth_eq_iff_index_eq) simp_all

text \<open>Escaped characters are a prefix code, without the quotation mark.\<close>

lemma hex_pair_unique:
  assumes "of_char c < (32 :: nat)" "of_char d < (32 :: nat)"
    "hex_digit (of_char c div 16) = hex_digit (of_char d div 16)" "hex_digit (of_char c mod 16) = hex_digit (of_char d mod 16)"
  shows "c = d"
proof -
  have "of_char c div 16 = (of_char d div 16 :: nat)" "of_char c mod 16 = (of_char d mod 16 :: nat)"
    using assms by (simp_all add: hex_digit_inject)
  then have "of_char c = (of_char d :: nat)" by (metis div_mult_mod_eq)
  then show ?thesis by simp
qed

lemma escape_char_unique: "escape_char c @ r = escape_char d @ s \<Longrightarrow> c = d \<and> r = s"
  by (auto simp: escape_char_def Let_def split: if_splits dest: hex_pair_unique)

lemma escape_char_head: "\<exists>x xs. escape_char c = x # xs \<and> x \<noteq> CHR 0x22"
  by (simp add: escape_char_def Let_def)

lemma quote_unique: "quote a @ r = quote b @ s \<Longrightarrow> a = b \<and> r = s"
proof -
  have "concat (map escape_char a) @ CHR 0x22 # r = concat (map escape_char b) @ CHR 0x22 # s \<Longrightarrow> a = b \<and> r = s"
  proof (induction a arbitrary: b)
    case Nil
    then show ?case
    proof (cases b)
      case (Cons d b')
      then show ?thesis using Nil escape_char_head [of d] by auto
    qed simp
  next
    case (Cons c a)
    show ?case
    proof (cases b)
      case Nil
      then show ?thesis using Cons.prems escape_char_head [of c] by auto
    next
      case (Cons d b')
      then show ?thesis using Cons.prems Cons.IH [of b'] by (auto dest!: escape_char_unique)
    qed
  qed
  then show "quote a @ r = quote b @ s \<Longrightarrow> a = b \<and> r = s" by (simp add: quote_def)
qed

text \<open>What can follow a value inside a text: nothing, or a character that no number contains.\<close>

definition delim :: "string \<Rightarrow> bool" where
  "delim r \<longleftrightarrow> (case r of [] \<Rightarrow> True | c # _ \<Rightarrow> c \<in> {CHR '','', CHR '']'', CHR ''}''})"

lemma delim_simps [simp]: "delim []" "delim (c # r) \<longleftrightarrow> c \<in> {CHR '','', CHR '']'', CHR ''}''}"
  by (simp_all add: delim_def)

definition num_char :: "char \<Rightarrow> bool" where
  "num_char c \<longleftrightarrow> is_digit c \<or> c = CHR ''-''"

lemma num_char_int_str: "c \<in> set (int_str i) \<Longrightarrow> num_char c"
  using nat_str_digits [of "\<bar>i\<bar>"] by (auto simp: int_str_def num_char_def split: if_splits)

lemma not_num_char: "c \<in> {CHR '','', CHR '']'', CHR ''}'', CHR ''['', CHR ''{'', CHR 0x22, CHR ''n'', CHR ''t'', CHR ''f''} \<Longrightarrow> \<not> num_char c"
  by (auto simp: num_char_def is_digit_of_def digit_val_def)

lemma takeWhile_int_str: "delim r \<Longrightarrow> takeWhile num_char (int_str i @ r) = int_str i"
proof (cases r)
  case (Cons c r')
  assume "delim r"
  then have "\<not> num_char c" using Cons by (intro not_num_char) auto
  then show ?thesis using Cons num_char_int_str by (simp add: takeWhile_append2)
qed (use num_char_int_str in \<open>simp add: takeWhile_eq_all_conv\<close>)

lemma int_str_inject:
  assumes "int_str i = int_str j" "\<bar>i\<bar> \<le> 2 ^ 53" "\<bar>j\<bar> \<le> 2 ^ 53" shows "i = j"
proof -
  have "num_of_int i = num_of_int j"
    using string_to_number_int_str [OF assms(2)] string_to_number_int_str [OF assms(3)] unfolding assms(1) by (rule trans [OF sym])
  then show ?thesis by (simp only: jsnum.inject of_int_eq_iff)
qed

lemma int_str_unique:
  assumes "int_str i @ r = int_str j @ s" "delim r" "delim s" "\<bar>i\<bar> \<le> 2 ^ 53" "\<bar>j\<bar> \<le> 2 ^ 53"
  shows "i = j \<and> r = s"
proof -
  have "int_str i = int_str j"
    using takeWhile_int_str [OF assms(2), of i] takeWhile_int_str [OF assms(3), of j] assms(1) by simp
  with assms int_str_inject [of i j] show ?thesis by simp
qed

lemma int_str_head: "\<exists>c cs. int_str i = c # cs \<and> num_char c"
  using num_char_int_str [of _ i] by (cases "int_str i") (auto simp: int_str_def split: if_splits)

lemma join_Cons: "join sep (x # xs) = x @ (if xs = [] then [] else sep @ join sep xs)"
  by (cases xs) auto

lemma join_unique:
  assumes unique: "\<And>x y r s. x \<in> set xs \<Longrightarrow> ok y \<Longrightarrow> f x @ r = f y @ s \<Longrightarrow> delim r \<Longrightarrow> delim s \<Longrightarrow> x = y \<and> r = s"
    and head: "\<And>y. ok y \<Longrightarrow> \<exists>c cs. f y = c # cs \<and> c \<noteq> z"
    and z: "delim [z]" "z \<noteq> CHR '',''"
    and "\<forall>x \<in> set xs. ok x" "\<forall>y \<in> set ys. ok y"
    and "join '','' (map f xs) @ z # r = join '','' (map f ys) @ z # s"
  shows "xs = ys \<and> r = s"
  using assms(1,5-)
proof (induction xs arbitrary: ys)
  case Nil
  then show ?case using head [of "hd ys"] by (cases ys) (auto simp: join_Cons)
next
  case (Cons x xs)
  show ?case
  proof (cases ys)
    case Nil
    then show ?thesis using Cons.prems head [of x] by (auto simp: join_Cons)
  next
    case (Cons y ys')
    let ?t = "\<lambda>l r. (if l = [] then [] else '','' @ join '','' (map f l)) @ z # r"
    have t: "f x @ ?t xs r = f y @ ?t ys' s" "delim (?t xs r)" "delim (?t ys' s)" "ok y"
      using Cons.prems(3,4) Cons z(1) by (auto simp: join_Cons)
    have xy: "x = y" "?t xs r = ?t ys' s" using Cons.prems(1) [OF _ t(4,1,2,3)] by simp_all
    have j: "join '','' (map f xs) @ z # r = join '','' (map f ys') @ z # s"
      using xy(2) z(2) by (cases xs; cases ys') auto
    have "xs = ys' \<and> r = s"
      by (rule Cons.IH [OF Cons.prems(1) _ _ j]) (use Cons.prems(2,3) Cons in auto)
    with xy(1) Cons show ?thesis by simp
  qed
qed

text \<open>The first character of a text tells the kind of its value.\<close>

fun json_kind :: "jsv \<Rightarrow> nat" where
  "json_kind JUndefined = 0"
| "json_kind JNull = 0"
| "json_kind (JBool b) = 1"
| "json_kind (JNum n) = 2"
| "json_kind (JStr s) = 3"
| "json_kind (JArr xs) = 4"
| "json_kind (JObj ob) = 5"

definition char_kind :: "char \<Rightarrow> nat" where
  "char_kind c =
     (if c = CHR ''n'' then 0 else if c = CHR ''t'' \<or> c = CHR ''f'' then 1 else if c = CHR 0x22 then 3
      else if c = CHR ''['' then 4 else if c = CHR ''{'' then 5 else 2)"

lemma json_head:
  assumes "exact v" obtains c cs where "json v = c # cs" "char_kind c = json_kind v" "c \<noteq> CHR '']''" "c \<noteq> CHR ''}''"
proof (cases v)
  case (JNum n)
  then obtain i where i: "n = num_of_int i" "\<bar>i\<bar> \<le> 2 ^ 53" using assms exact_int by blast
  obtain c cs where c: "int_str i = c # cs" "num_char c" using int_str_head by blast
  have "c \<notin> {CHR '','', CHR '']'', CHR ''}'', CHR ''['', CHR ''{'', CHR 0x22, CHR ''n'', CHR ''t'', CHR ''f''}"
    using c(2) not_num_char by blast
  then show ?thesis using that [of c cs] i c(1) json_int [OF i(2)] JNum by (simp add: char_kind_def)
next
  case (JObj ob)
  then show ?thesis using that assms by (simp add: json_object char_kind_def)
next
  case (JBool b)
  then show ?thesis using that by (cases b) (simp_all add: char_kind_def)
qed (use that assms in \<open>auto simp: char_kind_def quote_def\<close>)

lemma json_same_kind:
  assumes "exact v" "exact w" "json v @ r = json w @ s" shows "json_kind v = json_kind w"
  using assms by (metis append_Cons json_head list.inject)

lemma member_unique:
  assumes "\<And>w r s. exact w \<Longrightarrow> json (snd p) @ r = json w @ s \<Longrightarrow> delim r \<Longrightarrow> delim s \<Longrightarrow> snd p = w \<and> r = s"
    and "exact (snd q)" "member p @ r = member q @ s" "delim r" "delim s"
  shows "p = q \<and> r = s"
proof -
  have "fst p = fst q" "json (snd p) @ r = json (snd q) @ s"
    using assms(3) quote_unique [of "fst p" "'':'' @ json (snd p) @ r" "fst q" "'':'' @ json (snd q) @ s"]
    by (simp_all add: member_def)
  with assms show ?thesis by (simp add: prod_eq_iff)
qed

lemma json_unique:
  "exact v \<Longrightarrow> exact w \<Longrightarrow> json v @ r = json w @ s \<Longrightarrow> delim r \<Longrightarrow> delim s \<Longrightarrow> v = w \<and> r = s"
proof (induction v arbitrary: w r s)
  case (JNum n)
  then obtain m where w: "w = JNum m" using json_same_kind [OF JNum.prems(1-3)] by (cases w) auto
  obtain i j where "n = num_of_int i" "\<bar>i\<bar> \<le> 2 ^ 53" "m = num_of_int j" "\<bar>j\<bar> \<le> 2 ^ 53"
    using JNum.prems(1,2) w exact_int by metis
  then show ?case using JNum.prems(3-5) w int_str_unique [of i r j s] by (simp add: json_int)
next
  case (JStr a)
  then obtain b where "w = JStr b" using json_same_kind [OF JStr.prems(1-3)] by (cases w) auto
  then show ?case using JStr.prems(3) quote_unique [of a r b s] by simp
next
  case (JArr xs)
  then obtain ys where w: "w = JArr ys" using json_same_kind [OF JArr.prems(1-3)] by (cases w) auto
  have "xs = ys \<and> r = s"
  proof (rule join_unique [where ok = exact and f = json and z = "CHR '']''"])
    show "\<exists>c cs. json y = c # cs \<and> c \<noteq> CHR '']''" if "exact y" for y using json_head [OF that] by metis
    show "x = y \<and> r = s" if "x \<in> set xs" "exact y" "json x @ r = json y @ s" "delim r" "delim s" for x y r s
      using JArr.IH [OF that(1) _ that(2-5)] JArr.prems(1) that(1) by simp
  qed (use JArr.prems w in auto)
  with w show ?case by simp
next
  case (JObj ob)
  then obtain ob' where w: "w = JObj ob'" using json_same_kind [OF JObj.prems(1-3)] by (cases w) auto
  have "ob = ob' \<and> r = s"
  proof (rule join_unique [where ok = "\<lambda>p. exact (snd p)" and f = member and z = "CHR ''}''"])
    have snds: "snd p \<in> Basic_BNFs.snds p" for p :: "string \<times> jsv" by (simp add: snds.simps prod_eq_iff)
    show "p = q \<and> r = s" if "p \<in> set ob" "exact (snd q)" "member p @ r = member q @ s" "delim r" "delim s"
      for p q r s
      by (rule member_unique [OF _ that(2-5)]) (use JObj.IH [OF that(1) snds] that(1) JObj.prems(1) in auto)
  qed (use JObj.prems w in \<open>auto simp: json_object member_def quote_def\<close>)
  with w show ?case by simp
next
  case JUndefined
  then show ?case by simp
next
  case JNull
  then show ?case using json_same_kind [OF JNull.prems(1-3)] by (cases w) auto
next
  case (JBool b)
  then obtain c where "w = JBool c" using json_same_kind [OF JBool.prems(1-3)] by (cases w) auto
  then show ?case using JBool.prems(3) by (cases b; cases c) simp_all
qed

text \<open>Hence a receiver of the text knows the value.\<close>

lemma stringify_inject: "exact v \<Longrightarrow> exact w \<Longrightarrow> stringify v = stringify w \<longleftrightarrow> v = w"
  using json_unique [of v w "[]" "[]"] by (auto simp: stringify_exact)

end
