(* ===== verification/Url.thy ===== *)
theory Url
  imports Json
begin

text \<open>
  How the console writes text into a URL: the serializer of \<^verbatim>\<open>URLSearchParams\<close>, \<^verbatim>\<open>encodeURIComponent\<close> and
  the function \<^verbatim>\<open>qs\<close> of \<^verbatim>\<open>frontend/src/api.ts\<close>. The decoder of the same standard reads a query string back.
\<close>

section \<open>Bytes\<close>

definition utf8 :: "char \<Rightarrow> nat list" where
  "utf8 c = (let n = of_char c in if n < 128 then [n] else [192 + n div 64, 128 + n mod 64])"

fun utf8_decode :: "nat list \<Rightarrow> string" where
  "utf8_decode [] = []"
| "utf8_decode [b] = [char_of b]"
| "utf8_decode (b # c # bs) =
     (if b < 128 then char_of b # utf8_decode (c # bs)
      else char_of ((b - 192) * 64 + (c - 128)) # utf8_decode bs)"

definition hex_upper :: "nat \<Rightarrow> char" where
  "hex_upper n = ''0123456789ABCDEF'' ! n"

definition hex_value :: "char \<Rightarrow> nat" where
  "hex_value c = nat (case digit_val c of Some v \<Rightarrow> v | None \<Rightarrow> 0)"

definition percent :: "nat \<Rightarrow> string" where
  "percent n = [CHR ''%'', hex_upper (n div 16), hex_upper (n mod 16)]"

definition alphanumeric :: "char \<Rightarrow> bool" where
  "alphanumeric c \<longleftrightarrow>
     (let n = of_char c :: nat in 48 \<le> n \<and> n \<le> 57 \<or> 65 \<le> n \<and> n \<le> 90 \<or> 97 \<le> n \<and> n \<le> 122)"

section \<open>Encoding\<close>

text \<open>In a query string a space is a plus sign.\<close>

definition form_byte :: "nat \<Rightarrow> string" where
  "form_byte n =
     (let c = char_of n
      in if n = 32 then ''+''
         else if n < 128 \<and> (alphanumeric c \<or> c \<in> set ''*-._'') then [c] else percent n)"

definition form_encode :: "string \<Rightarrow> string" where
  "form_encode s = concat (map form_byte (concat (map utf8 s)))"

definition component_byte :: "nat \<Rightarrow> string" where
  "component_byte n =
     (let c = char_of n
      in if n < 128 \<and> (alphanumeric c \<or> c \<in> set ''-_.!~*()'' \<or> c = CHR 0x27) then [c] else percent n)"

definition encodeURIComponent :: "string \<Rightarrow> string" where
  "encodeURIComponent s = concat (map component_byte (concat (map utf8 s)))"

definition form_pair :: "string \<times> string \<Rightarrow> string" where
  "form_pair p = form_encode (fst p) @ ''='' @ form_encode (snd p)"

definition qs :: "(string \<times> jsv) list \<Rightarrow> string js" where
  "qs params =
     then_do (map_throw (\<lambda>(k, v). then_do (js_String v) (\<lambda>t. Inr (k, t)))
                (filter (\<lambda>(k, v). v \<noteq> JUndefined \<and> v \<noteq> JNull \<and> v \<noteq> JStr []) params))
       (\<lambda>kvs. let s = join ''&'' (map form_pair kvs) in Inr (if s \<noteq> [] then ''?'' @ s else []))"

section \<open>Decoding\<close>

fun form_bytes :: "string \<Rightarrow> nat list" where
  "form_bytes [] = []"
| "form_bytes (c # cs) =
     (if c = CHR ''+'' then 32 # form_bytes cs
      else if c = CHR ''%'' \<and> 2 \<le> length cs
      then (hex_value (cs ! 0) * 16 + hex_value (cs ! 1)) # form_bytes (drop 2 cs)
      else of_char c # form_bytes cs)"

definition form_decode :: "string \<Rightarrow> string" where
  "form_decode s = utf8_decode (form_bytes s)"

fun split_at :: "char \<Rightarrow> string \<Rightarrow> string list" where
  "split_at x [] = [[]]"
| "split_at x (c # cs) =
     (if c = x then [] # split_at x cs
      else (case split_at x cs of p # ps \<Rightarrow> (c # p) # ps | [] \<Rightarrow> [[c]]))"

definition parse_pair :: "string \<Rightarrow> string \<times> string" where
  "parse_pair s =
     (form_decode (takeWhile (\<lambda>c. c \<noteq> CHR ''='') s), form_decode (drop 1 (dropWhile (\<lambda>c. c \<noteq> CHR ''='') s)))"

definition parse_query :: "string \<Rightarrow> (string \<times> string) list" where
  "parse_query s = map parse_pair (filter (\<lambda>p. p \<noteq> []) (split_at (CHR ''&'') s))"

section \<open>Round trip\<close>

lemma utf8_bytes: "b \<in> set (utf8 c) \<Longrightarrow> b < 256"
proof -
  have "of_char c < (256 :: nat)" by simp
  then have "of_char c div 64 < (4 :: nat)" by (simp add: less_mult_imp_div_less)
  then show "b \<in> set (utf8 c) \<Longrightarrow> b < 256" by (auto simp: utf8_def Let_def split: if_splits)
qed

lemma utf8_decode_step: "utf8_decode (utf8 c @ bs) = c # utf8_decode bs"
proof (cases "of_char c < (128 :: nat)")
  case True
  then show ?thesis by (cases bs) (simp_all add: utf8_def)
next
  case False
  have "of_char c div 64 * 64 + of_char c mod 64 = (of_char c :: nat)" by simp
  then show ?thesis using False by (simp add: utf8_def Let_def)
qed

lemma utf8_round_trip: "utf8_decode (concat (map utf8 s)) = s"
  by (induction s) (simp_all add: utf8_decode_step)

lemma hex_digits: "n < 16 \<Longrightarrow> hex_value (hex_upper n) = n \<and> alphanumeric (hex_upper n)"
  by (auto simp: hex_upper_def hex_value_def digit_val_def alphanumeric_def less_Suc_eq numeral_eq_Suc)

text \<open>Characters that can occur in an encoded text.\<close>

definition plain :: "char \<Rightarrow> bool" where
  "plain c \<longleftrightarrow> alphanumeric c \<or> c \<in> set ''%+*-._''"

lemma plain_not_separator: "plain c \<Longrightarrow> c \<noteq> CHR ''&'' \<and> c \<noteq> CHR ''=''"
  by (auto simp: plain_def alphanumeric_def Let_def)

lemma form_byte_plain: "n < 256 \<Longrightarrow> c \<in> set (form_byte n) \<Longrightarrow> plain c"
proof -
  assume "n < 256"
  then have "n div 16 < 16" "n mod 16 < 16" by (simp_all add: less_mult_imp_div_less)
  then show "c \<in> set (form_byte n) \<Longrightarrow> plain c"
    using hex_digits by (auto simp: form_byte_def percent_def plain_def Let_def split: if_splits)
qed

lemma form_bytes_step:
  assumes "n < 256" shows "form_bytes (form_byte n @ r) = n # form_bytes r"
proof -
  have h: "n div 16 < 16" "n mod 16 < 16" using assms by (simp_all add: less_mult_imp_div_less)
  have "hex_value (hex_upper (n div 16)) * 16 + hex_value (hex_upper (n mod 16)) = n"
    using hex_digits [OF h(1)] hex_digits [OF h(2)] by simp
  moreover have "n < 128 \<Longrightarrow> char_of n = CHR ''+'' \<longleftrightarrow> n = 43" "n < 128 \<Longrightarrow> char_of n = CHR ''%'' \<longleftrightarrow> n = 37"
    by (auto simp: char_of_eq_iff take_bit_eq_mod)
  ultimately show ?thesis
    using assms by (auto simp: form_byte_def percent_def alphanumeric_def Let_def)
qed

lemma form_bytes_all: "\<forall>b \<in> set bs. b < 256 \<Longrightarrow> form_bytes (concat (map form_byte bs)) = bs"
  by (induction bs) (simp_all add: form_bytes_step)

lemma form_round_trip [simp]: "form_decode (form_encode s) = s"
  unfolding form_decode_def form_encode_def
  by (subst form_bytes_all) (auto dest: utf8_bytes simp: utf8_round_trip)

lemma form_encode_plain: "c \<in> set (form_encode s) \<Longrightarrow> plain c"
  unfolding form_encode_def by (auto dest!: utf8_bytes dest: form_byte_plain)

lemma parse_form_pair [simp]: "parse_pair (form_pair p) = p"
proof -
  have "c \<noteq> CHR ''=''" if "c \<in> set (form_encode (fst p))" for c
    using form_encode_plain [OF that] plain_not_separator by blast
  then show ?thesis by (simp add: parse_pair_def form_pair_def takeWhile_append2 dropWhile_append2)
qed

lemma form_pair_no_amp: "CHR ''&'' \<notin> set (form_pair p)"
  using form_encode_plain plain_not_separator by (fastforce simp: form_pair_def)

lemma split_at_append: "x \<notin> set s \<Longrightarrow> split_at x (s @ x # t) = s # split_at x t"
  by (induction s) auto

lemma split_at_single: "x \<notin> set s \<Longrightarrow> split_at x s = [s]"
  by (induction s) auto

lemma split_at_join: "xs \<noteq> [] \<Longrightarrow> \<forall>p \<in> set xs. x \<notin> set p \<Longrightarrow> split_at x (join [x] xs) = xs"
  by (induction "[x]" xs rule: join.induct) (auto simp: split_at_append split_at_single)

lemma parse_query_pairs: "parse_query (join ''&'' (map form_pair kvs)) = kvs"
proof (cases "kvs = []")
  case False
  have ne: "form_pair p \<noteq> []" for p by (simp add: form_pair_def)
  have "split_at (CHR ''&'') (join ''&'' (map form_pair kvs)) = map form_pair kvs"
    by (rule split_at_join) (use False form_pair_no_amp in auto)
  then show ?thesis by (simp add: parse_query_def filter_map comp_def ne)
qed (simp add: parse_query_def)

text \<open>The parameters that \<^verbatim>\<open>qs\<close> sends: those that are neither missing nor empty, as text.\<close>

definition sent_params :: "(string \<times> jsv) list \<Rightarrow> (string \<times> string) list js" where
  "sent_params params =
     map_throw (\<lambda>(k, v). then_do (js_String v) (\<lambda>t. Inr (k, t)))
       (filter (\<lambda>(k, v). v \<noteq> JUndefined \<and> v \<noteq> JNull \<and> v \<noteq> JStr []) params)"

section \<open>Properties\<close>

text \<open>
  C30. A query string the console builds is read back, by the decoder of the standard, as exactly the
  parameters that were neither missing nor empty, in order, whatever characters they contain.
\<close>

theorem query_round_trip:
  assumes "qs params = Inr q"
  shows "sent_params params = Inr (parse_query (drop 1 q))"
proof -
  obtain kvs where "sent_params params = Inr kvs"
      "q = (if join ''&'' (map form_pair kvs) \<noteq> [] then ''?'' @ join ''&'' (map form_pair kvs) else [])"
    using assms by (auto simp: qs_def sent_params_def then_do_eq_Inr Let_def)
  then show ?thesis using parse_query_pairs [of kvs] by (auto simp: parse_query_def)
qed

theorem query_round_trip_witness:
  "\<exists>q. qs [(''service_name'', JStr ''a&b''), (''customer_id'', JUndefined), (''rate_limit_id'', JStr [])] = Inr q
     \<and> parse_query (drop 1 q) = [(''service_name'', ''a&b'')]"
proof -
  let ?ps = "[(''service_name'', JStr ''a&b''), (''customer_id'', JUndefined), (''rate_limit_id'', JStr [])]"
  have s: "sent_params ?ps = Inr [(''service_name'', ''a&b'')]" by (simp add: sent_params_def)
  then obtain q where q: "qs ?ps = Inr q" by (simp add: qs_def sent_params_def Let_def)
  from query_round_trip [OF q] s q show ?thesis by auto
qed

end
