(* ===== verification/Console_Api.thy ===== *)
theory Console_Api
  imports Url Async
begin

text \<open>
  \<^verbatim>\<open>frontend/src/api.ts\<close>: the console's client of the server. Every function of \<^verbatim>\<open>api\<close> is a request with a
  method, a path and perhaps a body; \<^verbatim>\<open>req\<close> adds the headers, and turns the response into a result or an error.
\<close>

section \<open>Requests and responses\<close>

record Fetch =
  f_method :: string
  f_url :: string
  f_headers :: "(string \<times> string) list"
  f_credentials :: string
  f_body :: "string option"

text \<open>
  A response: its status, and what \<^verbatim>\<open>text ? JSON.parse(text) : undefined\<close> makes of its text. The promise of
  \<^verbatim>\<open>fetch\<close> may also be rejected.
\<close>

record FetchReply =
  fr_status :: nat
  fr_parsed :: "jsv js"

type_synonym fetch_result = "js_error + FetchReply"

datatype ui_error =
    ApiError nat string jsv
  | JsError string
  | UiText string

fun error_text :: "js_error \<Rightarrow> string" where
  "error_text (RpcError http m c) = m"
| "error_text (OtherError m) = m"

text \<open>What \<^verbatim>\<open>ErrorText\<close> of \<^verbatim>\<open>components.tsx\<close> shows.\<close>

fun shown_error :: "ui_error \<Rightarrow> string" where
  "shown_error (ApiError n m b) = m"
| "shown_error (JsError m) = m"
| "shown_error (UiText t) = t"

definition req_fetch :: "string \<Rightarrow> string \<Rightarrow> string \<Rightarrow> jsv option \<Rightarrow> Fetch" where
  "req_fetch csrfToken method path body =
     \<lparr>f_method = method, f_url = ''/api'' @ path,
      f_headers = (if body \<noteq> None then [(''content-type'', ''application/json'')] else [])
        @ (if method \<noteq> ''GET'' then [(''x-csrf-token'', csrfToken)] else []),
      f_credentials = ''include'',
      f_body = (case body of None \<Rightarrow> None | Some b \<Rightarrow> stringify b)\<rparr>"

definition join_errors :: "jsv \<Rightarrow> string js" where
  \<comment> \<open>\<^verbatim>\<open>errors.join("; ")\<close>\<close>
  "join_errors v =
     (case v of
        JArr xs \<Rightarrow> then_do (map_throw (\<lambda>x. if nullish x then Inr [] else js_String x) xs)
                     (\<lambda>ts. Inr (join ''; '' ts))
      | _ \<Rightarrow> Inl (OtherError ''parsed.errors.join is not a function''))"

definition failure_message :: "nat \<Rightarrow> jsv \<Rightarrow> string js" where
  "failure_message n parsed =
     (let e = prop_opt parsed ''error'' in
      if \<not> nullish e then js_String e
      else if truthy (prop_opt parsed ''errors'') then join_errors (prop_opt parsed ''errors'')
      else Inr (''HTTP '' @ nat_str (int n)))"

definition req_result :: "fetch_result \<Rightarrow> ui_error + jsv" where
  "req_result r =
     (case r of
        Inl e \<Rightarrow> Inl (JsError (error_text e))
      | Inr res \<Rightarrow>
          (case fr_parsed res of
             Inl e \<Rightarrow> Inl (JsError (error_text e))
           | Inr parsed \<Rightarrow>
               if 200 \<le> fr_status res \<and> fr_status res \<le> 299 then Inr parsed
               else (case failure_message (fr_status res) parsed of
                       Inl e \<Rightarrow> Inl (JsError (error_text e))
                     | Inr msg \<Rightarrow> Inl (ApiError (fr_status res) msg parsed))))"

definition isPending :: "jsv \<Rightarrow> bool" where
  "isPending x \<longleftrightarrow> prop_opt x ''status'' = JStr ''pending_review''"

section \<open>The functions of the client\<close>

record Key =
  k_service_name :: string
  k_customer_id :: string
  k_rate_limit_id :: string

definition key_object :: "Key \<Rightarrow> (string \<times> jsv) list" where
  "key_object k =
     [(''service_name'', JStr (k_service_name k)), (''customer_id'', JStr (k_customer_id k)),
      (''rate_limit_id'', JStr (k_rate_limit_id k))]"

datatype ApiCall =
    A_login string
  | A_logout
  | A_session
  | A_listLimits "(string \<times> jsv) list"
  | A_resolveLimit Key
  | A_createLimit jsv
  | A_updateLimit jsv
  | A_deleteLimit jsv
  | A_listServices
  | A_createService jsv
  | A_updateService string jsv
  | A_getUsage Key
  | A_refund jsv
  | A_reset Key
  | A_listAudit "(string \<times> jsv) list"
  | A_listReviews
  | A_approveReview string
  | A_rejectReview string

definition with_query :: "string \<Rightarrow> (string \<times> jsv) list \<Rightarrow> (string \<times> string \<times> jsv option) js" where
  "with_query path params = then_do (qs params) (\<lambda>q. Inr (''GET'', path @ q, None))"

text \<open>Method, path below \<^verbatim>\<open>/api\<close> and body.\<close>

fun endpoint :: "ApiCall \<Rightarrow> (string \<times> string \<times> jsv option) js" where
  "endpoint (A_login user) = Inr (''POST'', ''/auth/login'', Some (JObj [(''user'', JStr user)]))"
| "endpoint A_logout = Inr (''POST'', ''/auth/logout'', None)"
| "endpoint A_session = Inr (''GET'', ''/session'', None)"
| "endpoint (A_listLimits p) = with_query ''/limits'' p"
| "endpoint (A_resolveLimit k) = with_query ''/limits/resolve'' (key_object k)"
| "endpoint (A_createLimit b) = Inr (''POST'', ''/limits'', Some b)"
| "endpoint (A_updateLimit b) = Inr (''PUT'', ''/limits'', Some b)"
| "endpoint (A_deleteLimit b) = Inr (''DELETE'', ''/limits'', Some b)"
| "endpoint A_listServices = Inr (''GET'', ''/services'', None)"
| "endpoint (A_createService b) = Inr (''POST'', ''/services'', Some b)"
| "endpoint (A_updateService name b) = Inr (''PUT'', ''/services/'' @ encodeURIComponent name, Some b)"
| "endpoint (A_getUsage k) = with_query ''/usage'' (key_object k)"
| "endpoint (A_refund b) = Inr (''POST'', ''/ops/refund'', Some b)"
| "endpoint (A_reset k) = Inr (''POST'', ''/ops/reset'', Some (JObj (key_object k)))"
| "endpoint (A_listAudit p) = with_query ''/audit'' p"
| "endpoint A_listReviews = Inr (''GET'', ''/reviews'', None)"
| "endpoint (A_approveReview i) = Inr (''POST'', ''/reviews/'' @ i @ ''/approve'', None)"
| "endpoint (A_rejectReview i) = Inr (''POST'', ''/reviews/'' @ i @ ''/reject'', None)"

section \<open>Asking\<close>

text \<open>
  A piece of the console that awaits responses: like a handler of the server, with the state of a component
  instead of the server's. \<open>k\<close> is the code after \<^verbatim>\<open>await api.f(...)\<close>, \<open>h\<close> the code that catches what it throws.
\<close>

type_synonym 's ui_act = "(Fetch, fetch_result, 's, unit) act"

type_synonym ('a, 's) ui_cont = "'a \<Rightarrow> 's \<Rightarrow> 's \<times> 's ui_act"

definition settled :: "'s \<Rightarrow> 's \<times> 's ui_act" where
  "settled s = (s, Respond ())"

definition ask :: "string \<Rightarrow> ApiCall \<Rightarrow> (jsv, 's) ui_cont \<Rightarrow> (ui_error, 's) ui_cont \<Rightarrow> 's \<Rightarrow> 's \<times> 's ui_act" where
  "ask csrfToken c k h s =
     (case endpoint c of
        Inl e \<Rightarrow> h (JsError (error_text e)) s
      | Inr (method, path, body) \<Rightarrow>
          (s, Await (req_fetch csrfToken method path body)
                (\<lambda>r s'. case req_result r of Inl e \<Rightarrow> h e s' | Inr v \<Rightarrow> k v s')))"

text \<open>An expression inside a \<^verbatim>\<open>try\<close> block that may throw.\<close>

definition attempt :: "'a js \<Rightarrow> ('a, 's) ui_cont \<Rightarrow> (ui_error, 's) ui_cont \<Rightarrow> 's \<Rightarrow> 's \<times> 's ui_act" where
  "attempt x k h s = (case x of Inl e \<Rightarrow> h (JsError (error_text e)) s | Inr a \<Rightarrow> k a s)"

text \<open>\<^verbatim>\<open>x || undefined\<close> for a text.\<close>

definition or_undefined :: "string \<Rightarrow> jsv" where
  "or_undefined t = (if t \<noteq> [] then JStr t else JUndefined)"

end
