(* ===== verification/Console_Util.thy ===== *)
theory Console_Util
  imports Rbac Js_Date
begin

text \<open>
  The pure helpers of the console, \<^verbatim>\<open>frontend/src/util/\<close>: the mirror of the role checks that decides
  which buttons are shown, and the names of the quota windows. The mirror is compared with the
  server's decision; a window's name is shown to identify the window.
\<close>

section \<open>The mirror of the role checks\<close>

definition ui_hasGlobalRole :: "Grant list \<Rightarrow> Role \<Rightarrow> bool" where
  "ui_hasGlobalRole gs r \<longleftrightarrow> list_ex (\<lambda>g. falsy_name (service g) \<and> rank r \<le> rank (role g)) gs"

definition ui_isOperatorOrAdmin :: "Grant list \<Rightarrow> bool" where
  "ui_isOperatorOrAdmin gs = ui_hasGlobalRole gs Operator"

definition ui_canEditService :: "Grant list \<Rightarrow> string option \<Rightarrow> bool" where
  "ui_canEditService gs svc \<longleftrightarrow>
     (if ui_isOperatorOrAdmin gs then True
      else if falsy_name svc then False
      else list_ex (\<lambda>g. role g = Service_editor \<and> service g = svc) gs)"

definition canDo :: "Grant list \<Rightarrow> Capability \<Rightarrow> string option \<Rightarrow> bool option \<Rightarrow> bool" where
  "canDo gs cap svc allowCreate =
     (case cap of
        Limits_read \<Rightarrow> gs \<noteq> []
      | Usage_read \<Rightarrow> gs \<noteq> []
      | Audit_read \<Rightarrow> gs \<noteq> []
      | Limit_write \<Rightarrow> ui_canEditService gs svc
      | Limit_delete \<Rightarrow> ui_canEditService gs svc
      | Service_edit \<Rightarrow> ui_canEditService gs svc
      | Service_create \<Rightarrow>
          if ui_isOperatorOrAdmin gs then True
          else (case allowCreate of Some b \<Rightarrow> b | None \<Rightarrow> False) \<and> ui_canEditService gs svc
      | Op_refund \<Rightarrow> ui_isOperatorOrAdmin gs
      | Op_reset \<Rightarrow> ui_isOperatorOrAdmin gs
      | Review_approve \<Rightarrow> ui_isOperatorOrAdmin gs
      | Rbac_manage \<Rightarrow> ui_hasGlobalRole gs Admin
      | Observability_read \<Rightarrow> False)"

text \<open>
  For a named service the mirror and the server agree on every capability the mirror knows, under
  the same policy.
\<close>

lemma ui_roles:
  "ui_hasGlobalRole (grants u) r = hasGlobalRole u r"
  "ui_isOperatorOrAdmin (grants u) = isGlobalOperatorOrAdmin u"
  "svc \<noteq> [] \<Longrightarrow> ui_canEditService (grants u) (Some svc) = canEditService u svc"
  by (simp_all add: ui_hasGlobalRole_def hasGlobalRole_def ui_isOperatorOrAdmin_def
      isGlobalOperatorOrAdmin_def ui_canEditService_def canEditService_def)

lemma canDo_mirrors:
  assumes "svc \<noteq> []" "cap \<noteq> Observability_read"
  shows "canDo (grants u) cap (Some svc) (Some (allowServiceEditorCreateService p)) \<longleftrightarrow>
    authorize u cap (Some svc) p = Authz_ok"
  using assms by (cases cap) (simp_all add: canDo_def authorize_def ui_roles)

text \<open>Without a service the mirror shows an operator the editing buttons, which the server refuses.\<close>

lemma canDo_more_than_server:
  assumes "isGlobalOperatorOrAdmin u"
  shows "canDo (grants u) Limit_write (Some []) None"
    "authorize u Limit_write (Some []) p = Authz_denied ''service required''"
  using assms by (simp_all add: canDo_def ui_canEditService_def ui_roles authorize_def)

section \<open>Window names\<close>

datatype TimeUnit = Minute | Day | Month

definition pad :: "int \<Rightarrow> nat \<Rightarrow> string" where
  "pad n len = padStart len (int_str n)"

definition windowId :: "TimeUnit \<Rightarrow> int \<Rightarrow> string" where
  "windowId unit date =
     (let y = pad (utc_year date) 4;
          mo = pad (utc_month date + 1) 2;
          d = pad (utc_date date) 2;
          h = pad (utc_hours date) 2;
          mi = pad (utc_minutes date) 2
      in case unit of
           Minute \<Rightarrow> y @ mo @ d @ h @ mi
         | Day \<Rightarrow> y @ mo @ d
         | Month \<Rightarrow> y @ mo)"

definition windowLabel :: "TimeUnit \<Rightarrow> int \<Rightarrow> string" where
  "windowLabel unit date =
     (case unit of
        Minute \<Rightarrow> ''current minute ('' @ windowId unit date @ '')''
      | Day \<Rightarrow> ''today ('' @ windowId unit date @ '')''
      | Month \<Rightarrow> ''this month ('' @ windowId unit date @ '')'')"

subsection \<open>Padded numbers\<close>

lemma length_nat_str: "0 \<le> n \<Longrightarrow> n < 10 ^ k \<Longrightarrow> 0 < k \<Longrightarrow> length (nat_str n) \<le> k"
proof (induction n arbitrary: k rule: nat_str.induct)
  case (1 n)
  show ?case
  proof (cases "n < 10")
    case True
    with "1.prems" show ?thesis by simp
  next
    case False
    then have k: "1 < k" using "1.prems" by (cases k) (auto simp: less_Suc_eq)
    then have "n div 10 < 10 ^ (k - 1)" using "1.prems"
      by (cases k) (auto simp: div_less_iff_less_mult mult.commute)
    with "1.IH" [OF False, of "k - 1"] k "1.prems"(1) False show ?thesis
      by (simp add: pos_imp_zdiv_nonneg_iff)
  qed
qed

lemma length_pad: "0 \<le> n \<Longrightarrow> n < 10 ^ k \<Longrightarrow> 0 < k \<Longrightarrow> length (pad n k) = k"
  using length_nat_str [of n k] by (simp add: pad_def padStart_def int_str_def)

lemma digits_value_zeros: "digits_value 10 (replicate k (CHR ''0'') @ s) = digits_value 10 s"
proof -
  have "digits_value 10 (replicate k (CHR ''0'')) = 0"
  proof (induction k)
    case (Suc k)
    have "digits_value 10 (replicate k (CHR ''0'') @ [CHR ''0'']) = 0"
      unfolding digits_value_snoc Suc.IH by (simp add: digit_val_def)
    then show ?case by (simp add: replicate_append_same)
  qed (simp add: digits_value_def)
  then show ?thesis unfolding digits_value_def by (simp add: foldl_append)
qed

lemma pad_value: "0 \<le> n \<Longrightarrow> digits_value 10 (pad n k) = n"
  by (simp add: pad_def padStart_def int_str_def digits_value_zeros digits_value_nat_str)

lemma pad_inj: "0 \<le> n \<Longrightarrow> 0 \<le> m \<Longrightarrow> pad n k = pad m k \<Longrightarrow> n = m"
  by (metis pad_value)

subsection \<open>A name identifies its window\<close>

lemma month_length: "m < 12 \<Longrightarrow> month_start lp (Suc m) - month_start lp m \<le> 31"
proof -
  assume "m < 12"
  then have "m \<in> {0, 1, 2, 3, 4, 5, 6, 7, 8, 9, 10, 11}" by simp arith
  then show ?thesis by (cases lp) (auto simp: month_start_def)
qed

lemma utc_date_bounds: "1 \<le> utc_date t" "utc_date t \<le> 31"
proof -
  define m where "m = month_of_yday (leap (utc_year t)) (utc_yday t)"
  have m: "m < 12" "month_start (leap (utc_year t)) m \<le> utc_yday t"
      "utc_yday t < month_start (leap (utc_year t)) (Suc m)"
    using month_of_yday_bounds [of "utc_yday t" "leap (utc_year t)"] utc_yday_bounds [of t]
    by (simp_all add: m_def)
  have "utc_date t = utc_yday t - month_start (leap (utc_year t)) m + 1"
    by (simp add: utc_date_def m_def)
  then show "1 \<le> utc_date t" "utc_date t \<le> 31"
    using m(2,3) month_length [OF m(1), of "leap (utc_year t)"] by linarith+
qed

lemma utc_month_bounds: "0 \<le> utc_month t" "utc_month t \<le> 11"
  using month_of_yday_bounds [of "utc_yday t" "leap (utc_year t)"] utc_yday_bounds [of t]
  by (auto simp: utc_month_def)

lemma day_from_fields:
  "day_of t = day_from_year (utc_year t) + month_start (leap (utc_year t)) (nat (utc_month t)) + utc_date t - 1"
  by (simp add: utc_date_def utc_yday_def utc_month_def)

lemma fields_iff_day:
  "utc_year t = utc_year u \<and> utc_month t = utc_month u \<and> utc_date t = utc_date u \<longleftrightarrow> day_of t = day_of u"
proof
  assume "day_of t = day_of u"
  moreover from this have "utc_year t = utc_year u" by (simp add: utc_year_def)
  ultimately show "utc_year t = utc_year u \<and> utc_month t = utc_month u \<and> utc_date t = utc_date u"
    by (simp add: utc_month_def utc_date_def utc_yday_def)
qed (simp add: day_from_fields)

lemma hour_minute: "time_in_day t div 60000 = 60 * utc_hours t + utc_minutes t"
proof -
  have "utc_hours t = time_in_day t div 60000 div 60"
    unfolding utc_hours_def by (simp add: zdiv_zmult2_eq [symmetric])
  then show ?thesis by (simp add: utc_minutes_def)
qed

lemma utc_minutes_bounds: "0 \<le> utc_minutes t" "utc_minutes t < 60"
  by (simp_all add: utc_minutes_def)

lemma utc_hours_bounds: "0 \<le> utc_hours t" "utc_hours t < 24"
proof -
  have "0 \<le> time_in_day t" "time_in_day t < 86400000" by (simp_all add: time_in_day_def MS_PER_DAY_def)
  then show "0 \<le> utc_hours t" "utc_hours t < 24"
    unfolding utc_hours_def by (simp_all add: pos_imp_zdiv_nonneg_iff div_less_iff_less_mult)
qed

lemma minute_of: "t div 60000 = 1440 * day_of t + (60 * utc_hours t + utc_minutes t)"
proof -
  have "t = time_in_day t + 60000 * (1440 * day_of t)"
    using mult_div_mod_eq [of MS_PER_DAY t] by (simp add: time_in_day_def day_of_def MS_PER_DAY_def)
  then have "t div 60000 = (time_in_day t + 60000 * (1440 * day_of t)) div 60000" by simp
  also have "\<dots> = 1440 * day_of t + time_in_day t div 60000"
    by (simp only: div_mult_self2 numeral_neq_zero not_False_eq_True)
  finally show ?thesis by (simp add: hour_minute)
qed

lemma mixed_radix:
  fixes a b c :: int
  assumes "0 \<le> b" "b < 24" "0 \<le> c" "c < 60" "0 \<le> b'" "b' < 24" "0 \<le> c'" "c' < 60"
  shows "1440 * a + (60 * b + c) = 1440 * a' + (60 * b' + c') \<longleftrightarrow> a = a' \<and> b = b' \<and> c = c'"
proof
  assume eq: "1440 * a + (60 * b + c) = 1440 * a' + (60 * b' + c')"
  have "a = a'"
  proof (cases a a' rule: linorder_cases)
    case less
    then have "1440 * a + 1440 \<le> 1440 * a'" by simp
    then show ?thesis using eq assms by linarith
  next
    case greater
    then have "1440 * a' + 1440 \<le> 1440 * a" by simp
    then show ?thesis using eq assms by linarith
  qed
  moreover from this have "b = b'"
  proof (cases b b' rule: linorder_cases)
    case less
    then have "60 * b + 60 \<le> 60 * b'" by simp
    then show ?thesis using eq assms \<open>a = a'\<close> by linarith
  next
    case greater
    then have "60 * b' + 60 \<le> 60 * b" by simp
    then show ?thesis using eq assms \<open>a = a'\<close> by linarith
  qed
  ultimately show "a = a' \<and> b = b' \<and> c = c'" using eq by simp
qed simp

lemma fields_iff_minute:
  "day_of t = day_of u \<and> utc_hours t = utc_hours u \<and> utc_minutes t = utc_minutes u
     \<longleftrightarrow> t div 60000 = u div 60000"
  unfolding minute_of [of t] minute_of [of u]
  by (simp only: mixed_radix [OF utc_hours_bounds [of t] utc_minutes_bounds [of t]
        utc_hours_bounds [of u] utc_minutes_bounds [of u]])

definition same_window :: "TimeUnit \<Rightarrow> int \<Rightarrow> int \<Rightarrow> bool" where
  "same_window unit t u =
     (case unit of
        Minute \<Rightarrow> t div 60000 = u div 60000
      | Day \<Rightarrow> t div 86400000 = u div 86400000
      | Month \<Rightarrow> utc_year t = utc_year u \<and> utc_month t = utc_month u)"

lemma pad_append_iff:
  assumes "0 \<le> n" "n < 10 ^ k" "0 \<le> m" "m < 10 ^ k" "0 < k"
  shows "pad n k @ xs = pad m k @ ys \<longleftrightarrow> n = m \<and> xs = ys"
  using pad_inj [OF assms(1,3)] length_pad [OF assms(1,2,5)] length_pad [OF assms(3,4,5)] by auto

definition calendar_year :: "int \<Rightarrow> bool" where
  "calendar_year t \<longleftrightarrow> 0 \<le> utc_year t \<and> utc_year t \<le> 9999"

lemma windowId_identifies:
  assumes "calendar_year t" "calendar_year u"
  shows "windowId unit t = windowId unit u \<longleftrightarrow> same_window unit t u"
proof -
  have y: "pad (utc_year t) 4 @ xs = pad (utc_year u) 4 @ ys \<longleftrightarrow> utc_year t = utc_year u \<and> xs = ys" for xs ys
    using assms by (intro pad_append_iff) (auto simp: calendar_year_def)
  have mo: "pad (utc_month t + 1) 2 @ xs = pad (utc_month u + 1) 2 @ ys \<longleftrightarrow> utc_month t = utc_month u \<and> xs = ys" for xs ys
    using utc_month_bounds [of t] utc_month_bounds [of u] pad_append_iff [of "utc_month t + 1" 2 "utc_month u + 1" xs ys] by simp
  have d: "pad (utc_date t) 2 @ xs = pad (utc_date u) 2 @ ys \<longleftrightarrow> utc_date t = utc_date u \<and> xs = ys" for xs ys
    using utc_date_bounds [of t] utc_date_bounds [of u] by (intro pad_append_iff) auto
  have h: "pad (utc_hours t) 2 @ xs = pad (utc_hours u) 2 @ ys \<longleftrightarrow> utc_hours t = utc_hours u \<and> xs = ys" for xs ys
    using utc_hours_bounds [of t] utc_hours_bounds [of u] by (intro pad_append_iff) auto
  have mi: "pad (utc_minutes t) 2 @ xs = pad (utc_minutes u) 2 @ ys \<longleftrightarrow> utc_minutes t = utc_minutes u \<and> xs = ys" for xs ys
    using utc_minutes_bounds [of t] utc_minutes_bounds [of u] by (intro pad_append_iff) auto
  have day: "day_of t = day_of u \<longleftrightarrow> t div 86400000 = u div 86400000"
    by (simp add: day_of_def MS_PER_DAY_def)
  show ?thesis
  proof (cases unit)
    case Minute
    then show ?thesis
      using y mo d h mi [of "[]" "[]"] fields_iff_day [of t u] fields_iff_minute [of t u]
      by (simp add: windowId_def same_window_def Let_def) blast
  next
    case Day
    then show ?thesis
      using y mo d [of "[]" "[]"] fields_iff_day [of t u] day
      by (simp add: windowId_def same_window_def Let_def)
  next
    case Month
    then show ?thesis using y mo [of "[]" "[]"] by (simp add: windowId_def same_window_def Let_def)
  qed
qed

section \<open>Properties\<close>

text \<open>
  C36. A window's name identifies the window: two instants of the years 0 to 9999 get the same name
  exactly when they fall into the same UTC minute, day or month.
\<close>

theorem window_names_identify:
  assumes "calendar_year t" "calendar_year u"
  shows "windowId unit t = windowId unit u \<longleftrightarrow> same_window unit t u"
  using assms by (rule windowId_identifies)

theorem window_names_identify_witness:
  "windowId Minute 1700000000000 = windowId Minute 1700000030000 \<and> same_window Minute 1700000000000 1700000030000"
proof -
  have "calendar_year 1700000000000" "calendar_year 1700000030000" by code_simp+
  from window_names_identify [OF this, of Minute] show ?thesis by (simp add: same_window_def)
qed

end
