(* ===== verification/Console_Session.thy ===== *)
theory Console_Session
  imports Console_Api Console_Util
begin

text \<open>
  \<^verbatim>\<open>frontend/src/session.tsx\<close> and the shell of \<^verbatim>\<open>frontend/src/App.tsx\<close>: the session the console holds, the token
  it sends, and which tabs it offers. The token is a variable of the client module, the session a state of
  the provider; both are set together.
\<close>

section \<open>State\<close>

record SessionState =
  ui_session :: jsv
  ui_loading :: bool
  ui_csrf :: string

definition new_session_state :: SessionState where
  "new_session_state = \<lparr>ui_session = JNull, ui_loading = True, ui_csrf = []\<rparr>"

definition csrf_text :: "jsv \<Rightarrow> string" where
  \<comment> \<open>\<^verbatim>\<open>s?.csrf_token ?? ""\<close>, as a header shows it\<close>
  "csrf_text s =
     (let t = prop_opt s ''csrf_token''
      in if nullish t then [] else (case js_String t of Inr x \<Rightarrow> x | Inl e \<Rightarrow> []))"

definition apply_session :: "jsv \<Rightarrow> SessionState \<Rightarrow> SessionState" where
  "apply_session s st = st\<lparr>ui_session := s, ui_csrf := csrf_text s\<rparr>"

section \<open>Loading, login, logout\<close>

definition load_session :: "SessionState \<Rightarrow> SessionState \<times> SessionState ui_act" where
  "load_session =
     ask [] A_session
       (\<lambda>s st. settled ((apply_session s st)\<lparr>ui_loading := False\<rparr>))
       (\<lambda>e st. settled ((apply_session JNull st)\<lparr>ui_loading := False\<rparr>))"

text \<open>Nobody catches what these two throw, so that a failure leaves the state as it is.\<close>

definition ui_login :: "string \<Rightarrow> SessionState \<Rightarrow> SessionState \<times> SessionState ui_act" where
  "ui_login user st =
     ask (ui_csrf st) (A_login user)
       (\<lambda>s st. settled (apply_session s st))
       (\<lambda>e st. (st, Throw (OtherError (shown_error e)))) st"

definition ui_logout :: "SessionState \<Rightarrow> SessionState \<times> SessionState ui_act" where
  "ui_logout st =
     ask (ui_csrf st) A_logout
       (\<lambda>_ st. settled (apply_session JNull st))
       (\<lambda>e st. (st, Throw (OtherError (shown_error e)))) st"

section \<open>What the user may do\<close>

text \<open>The grants of a session, when they have the declared type.\<close>

definition role_of :: "string \<Rightarrow> Role option" where
  "role_of t =
     (if t = ''viewer'' then Some Viewer else if t = ''service-editor'' then Some Service_editor
      else if t = ''operator'' then Some Operator else if t = ''admin'' then Some Admin else None)"

definition grant_of :: "jsv \<Rightarrow> Grant option" where
  "grant_of g =
     (case (prop_opt g ''role'', prop_opt g ''service'') of
        (JStr t, JStr s) \<Rightarrow> map_option (\<lambda>r. \<lparr>role = r, service = Some s\<rparr>) (role_of t)
      | (JStr t, JUndefined) \<Rightarrow> map_option (\<lambda>r. \<lparr>role = r, service = None\<rparr>) (role_of t)
      | _ \<Rightarrow> None)"

definition grants_of :: "jsv \<Rightarrow> Grant list option" where
  "grants_of s = (case prop_opt s ''grants'' of JArr gs \<Rightarrow> those (map grant_of gs) | _ \<Rightarrow> None)"

text \<open>\<^verbatim>\<open>can\<close>; \<open>None\<close> when the session does not have the declared type.\<close>

definition can :: "SessionState \<Rightarrow> Capability \<Rightarrow> string option \<Rightarrow> bool option" where
  "can st cap svc =
     (if truthy (ui_session st) then map_option (\<lambda>gs. canDo gs cap svc None) (grants_of (ui_session st))
      else Some False)"

datatype Tab = T_limits | T_services | T_usage | T_audit | T_reviews

definition TABS :: "Tab list" where
  "TABS = [T_limits, T_services, T_usage, T_audit, T_reviews]"

definition visible_tabs :: "SessionState \<Rightarrow> Tab list" where
  "visible_tabs st = filter (\<lambda>t. t \<noteq> T_reviews \<or> can st Review_approve None = Some True) TABS"

text \<open>The shell: what it renders. The chosen tab is a state of the shell, which a logout does not touch.\<close>

datatype Screen = Loading | Sign_in | Page Tab "Tab list"

definition App_screen :: "SessionState \<Rightarrow> Tab \<Rightarrow> Screen" where
  "App_screen st tab =
     (if ui_loading st then Loading
      else if \<not> truthy (ui_session st) then Sign_in
      else Page tab (visible_tabs st))"

section \<open>The token follows the session\<close>

text \<open>What the user, or the mounting of the provider, can start.\<close>

datatype session_event = Mounted | Clicked_login string | Clicked_logout

fun session_serve :: "session_event \<Rightarrow> SessionState \<Rightarrow> SessionState \<times> SessionState ui_act" where
  "session_serve Mounted = load_session"
| "session_serve (Clicked_login user) = ui_login user"
| "session_serve Clicked_logout = ui_logout"

definition token_ok :: "SessionState \<Rightarrow> bool" where
  "token_ok st \<longleftrightarrow> ui_csrf st = csrf_text (ui_session st)"

lemma token_ok_simps [simp]:
  "token_ok new_session_state" "token_ok (apply_session s st)"
  "token_ok (st\<lparr>ui_loading := b\<rparr>) = token_ok st"
  by (simp_all add: token_ok_def new_session_state_def apply_session_def csrf_text_def prop_opt_def nullish_def)

abbreviation keeps_token :: "Fetch \<Rightarrow> fetch_result \<Rightarrow> SessionState \<Rightarrow> SessionState \<Rightarrow> bool" where
  "keeps_token c r s s' \<equiv> token_ok s \<longrightarrow> token_ok s'"

lemma session_serve_conforms:
  "fst (session_serve q s) = s \<and> conforms (\<lambda>_. True) (\<lambda>_. True) keeps_token (snd (session_serve q s))"
  by (cases q) (auto simp: load_session_def ui_login_def ui_logout_def ask_def settled_def conforms_Await split: sum.splits)

interpretation session_provider: licensed_server session_serve "\<lambda>_ _. False" token_ok
  "\<lambda>_ may pre. may = (\<lambda>_. True) \<and> pre = (\<lambda>_. True)" keeps_token
proof (unfold_locales, goal_cases)
  case (1 s q s' a)
  then show ?case using session_serve_conforms [of q s] by simp
qed auto

section \<open>Properties\<close>

text \<open>
  The token the console sends is always the one of the session it holds, and empty without a
  session: whatever logins, logouts and loads of the session are under way and whatever the responses are.
\<close>

theorem token_follows_session:
  assumes "reachable session_serve (\<lambda>_ _. False) new_session_state w"
  shows "ui_csrf (store w) = csrf_text (ui_session (store w))"
  using session_provider.reachable_inv [OF _ assms] token_ok_simps(1) by (simp only: token_ok_def)

theorem token_follows_session_witness:
  "\<exists>w. reachable session_serve (\<lambda>_ _. False) new_session_state w \<and> ui_csrf (store w) = ''t''
     \<and> csrf_text (ui_session (store w)) = ''t''"
proof -
  let ?s = "JObj [(''csrf_token'', JStr ''t'')]"
  let ?r = "Inr \<lparr>fr_status = 200, fr_parsed = Inr ?s\<rparr> :: fetch_result"
  obtain c k where ck: "session_serve (Clicked_login ''alice'') new_session_state = (new_session_state, Await c k)"
      "k ?r new_session_state = (apply_session ?s new_session_state, Respond ())"
    by (simp add: ui_login_def ask_def req_result_def settled_def)
  obtain w1 where w1: "reachable session_serve (\<lambda>_ _. False) new_session_state w1" "store w1 = new_session_state"
      "threads w1 = [Await c k]"
    by (rule reachable_arrive [where serve = session_serve and q = "Clicked_login ''alice''", OF reachable.init])
       (use ck(1) in \<open>simp_all add: boot_def\<close>)
  with ck(2) obtain w where w: "reachable session_serve (\<lambda>_ _. False) new_session_state w"
      "store w = apply_session ?s new_session_state"
    using reachable_settle [OF w1(1), of 0 c k ?r] by auto
  from token_follows_session [OF w(1)] w show ?thesis
    by (auto simp: apply_session_def csrf_text_def prop_opt_def own_def nullish_def)
qed

end
