(* ===== verification/Diff.thy ===== *)
theory Diff
  imports Json Rbac "HOL-Library.Char_ord" "HOL-Library.List_Lexorder"
begin

text \<open>
  \<^verbatim>\<open>frontend/src/util/diff.ts\<close> and the table of \<^verbatim>\<open>frontend/src/components.tsx\<close> that shows it: the change
  preview of the limit editor and the entries of the audit browser.
\<close>

section \<open>Operations\<close>

record FieldDiff =
  fd_field :: string
  fd_before :: jsv
  fd_after :: jsv
  fd_changed :: bool

definition row_keys :: "jsv \<Rightarrow> string list" where
  \<comment> \<open>\<^verbatim>\<open>Object.keys(row ?? {})\<close>, for a row that is an object or missing\<close>
  "row_keys row = (case row of JObj ob \<Rightarrow> map fst ob | _ \<Rightarrow> [])"

text \<open>\<^verbatim>\<open>Array.sort\<close> without a comparison orders text by its code units.\<close>

definition diffRows :: "jsv \<Rightarrow> jsv \<Rightarrow> FieldDiff list" where
  "diffRows oldRow newRow =
     map (\<lambda>f. let before = prop_opt oldRow f; after = prop_opt newRow f
               in \<lparr>fd_field = f, fd_before = before, fd_after = after,
                   fd_changed = (stringify before \<noteq> stringify after)\<rparr>)
       (sort (uniq (row_keys oldRow @ row_keys newRow)))"

text \<open>A line of the table: the name, the two cells (\<open>None\<close> is the dash for a missing field), and the mark.\<close>

definition DiffTable :: "jsv \<Rightarrow> jsv \<Rightarrow> (string \<times> string option \<times> string option \<times> string) list" where
  "DiffTable oldRow newRow =
     map (\<lambda>r. (fd_field r, stringify (fd_before r), stringify (fd_after r),
                if fd_changed r then ''changed'' else ''unchanged''))
       (diffRows oldRow newRow)"

section \<open>What it shows\<close>

lemma diffRows_fields:
  "map fd_field (diffRows a b) = sorted_list_of_set (set (row_keys a) \<union> set (row_keys b))"
proof -
  have "map fd_field (diffRows a b) = sort (uniq (row_keys a @ row_keys b))"
    by (simp add: diffRows_def comp_def Let_def)
  also have "\<dots> = sorted_list_of_set (set (row_keys a) \<union> set (row_keys b))"
    by (rule sorted_distinct_set_unique) simp_all
  finally show ?thesis .
qed

text \<open>A row of the audit trail, or of the preview: missing, or an object of exact values.\<close>

definition row_ok :: "jsv \<Rightarrow> bool" where
  "row_ok row \<longleftrightarrow> row = JNull \<or> row = JUndefined \<or> (\<exists>ob. row = JObj ob \<and> exact row)"

lemma row_field:
  assumes "row_ok row"
  shows "prop_opt row f = JUndefined \<longleftrightarrow> f \<notin> set (row_keys row)"
    and "f \<in> set (row_keys row) \<Longrightarrow> exact (prop_opt row f)"
proof -
  have "(prop_opt row f = JUndefined \<longleftrightarrow> f \<notin> set (row_keys row)) \<and> (f \<in> set (row_keys row) \<longrightarrow> exact (prop_opt row f))"
  proof (cases row)
    case (JObj ob)
    then have e: "\<forall>p \<in> set ob. exact (snd p)" using assms by (simp add: row_ok_def)
    show ?thesis
    proof (cases "map_of ob f")
      case None
      then have "f \<notin> fst ` set ob" by (simp add: map_of_eq_None_iff)
      then show ?thesis using None by (simp add: JObj prop_opt_def row_keys_def own_def)
    next
      case (Some v)
      then have "(f, v) \<in> set ob" by (rule map_of_SomeD)
      then have "exact v" "f \<in> fst ` set ob" using e by force+
      then show ?thesis using Some by (auto simp: JObj prop_opt_def row_keys_def own_def)
    qed
  qed (simp_all add: prop_opt_def row_keys_def)
  then show "prop_opt row f = JUndefined \<longleftrightarrow> f \<notin> set (row_keys row)"
    and "f \<in> set (row_keys row) \<Longrightarrow> exact (prop_opt row f)" by blast+
qed

lemma stringify_field:
  assumes "row_ok a" "row_ok b"
  shows "stringify (prop_opt a f) = stringify (prop_opt b f) \<longleftrightarrow> prop_opt a f = prop_opt b f"
proof (cases "f \<in> set (row_keys a) \<and> f \<in> set (row_keys b)")
  case True
  then show ?thesis using row_field(2) assms stringify_inject by blast
next
  case False
  then have "prop_opt a f = JUndefined \<or> prop_opt b f = JUndefined" using row_field(1) assms by blast
  moreover have "stringify x = None \<longleftrightarrow> x = JUndefined" for x by (cases x) simp_all
  ultimately show ?thesis by (metis stringify.simps(1))
qed

section \<open>Properties\<close>



end
