(* ===== verification/Console_Limits.thy ===== *)
theory Console_Limits
  imports Console_Session Diff
begin

text \<open>
  \<^verbatim>\<open>frontend/src/pages/LimitsBrowser.tsx\<close>: the search form, the table of limits and the inline editor. A
  row is the object the server sent. The functions that await are given the values their closure captured when
  the component was rendered; the state they change is the one they find.
\<close>

section \<open>State\<close>

datatype Kind = K_all | K_defaults | K_overrides

record Filters =
  fl_service :: string
  fl_customer :: string
  fl_rlid :: string
  fl_kind :: Kind

type_synonym obj = "(string \<times> jsv) list"

record Editor =
  ed_form :: obj
  ed_error :: "ui_error option"
  ed_notice :: "string option"
  ed_confirm :: string

text \<open>
  \<open>lp_editing\<close> is the row handed to the editor, if it is shown; \<open>lp_mounted\<close> counts the times it was mounted.
\<close>

record LimitsPage =
  lp_filters :: Filters
  lp_limits :: jsv
  lp_effective :: jsv
  lp_error :: "ui_error option"
  lp_editing :: "obj option"
  lp_editor :: Editor
  lp_mounted :: nat

definition UNITS :: "string list" where
  "UNITS = [''MINUTE'', ''DAY'', ''MONTH'']"

definition EMPTY :: obj where
  "EMPTY =
     [(''config_id'', JNull), (''service_name'', JStr []), (''customer_id'', JStr []),
      (''rate_limit_id'', JStr []), (''limit_value'', JNum (Fin 0)), (''time_unit'', JStr ''MINUTE''),
      (''is_default'', JBool False)]"

definition new_editor :: "obj \<Rightarrow> Editor" where
  "new_editor initial = \<lparr>ed_form = initial, ed_error = None, ed_notice = None, ed_confirm = []\<rparr>"

text \<open>
  \<^verbatim>\<open>setEditing\<close>: the editor is mounted, with a state of its own made from the row, when it was not shown
  before. When it is shown already it keeps its state and only the row it is handed changes.
\<close>

definition setEditing :: "obj option \<Rightarrow> LimitsPage \<Rightarrow> LimitsPage" where
  "setEditing x st =
     (case (lp_editing st, x) of
        (None, Some initial) \<Rightarrow>
          st\<lparr>lp_editing := x, lp_editor := new_editor initial, lp_mounted := Suc (lp_mounted st)\<rparr>
      | _ \<Rightarrow> st\<lparr>lp_editing := x\<rparr>)"

text \<open>A change of the editor's state, by a function of the mounting it belongs to.\<close>

definition in_editor :: "nat \<Rightarrow> (Editor \<Rightarrow> Editor) \<Rightarrow> LimitsPage \<Rightarrow> LimitsPage" where
  "in_editor i f st =
     (if lp_editing st \<noteq> None \<and> lp_mounted st = i then st\<lparr>lp_editor := f (lp_editor st)\<rparr> else st)"

section \<open>Search\<close>

definition listed_rows :: "Kind \<Rightarrow> jsv \<Rightarrow> jsv js" where
  "listed_rows kind res =
     then_do (get_prop res ''limits'') (\<lambda>rows.
       if kind = K_overrides
       then (case rows of
               JArr ls \<Rightarrow>
                 then_do (map_throw (\<lambda>l. then_do (get_prop l ''is_default'') (\<lambda>b. Inr (l, \<not> truthy b))) ls)
                   (\<lambda>lbs. Inr (JArr (map fst (filter snd lbs))))
             | _ \<Rightarrow> Inl (OtherError ''rows.filter is not a function''))
       else Inr rows)"

definition limits_failed :: "(ui_error, LimitsPage) ui_cont" where
  "limits_failed e st = settled (st\<lparr>lp_error := Some e, lp_limits := JArr []\<rparr>)"

definition limits_search :: "Filters \<Rightarrow> LimitsPage \<Rightarrow> LimitsPage \<times> LimitsPage ui_act" where
  "limits_search fl st =
     (let st = st\<lparr>lp_error := None\<rparr> in
      if fl_service fl = [] then settled (st\<lparr>lp_error := Some (UiText ''pick a service'')\<rparr>)
      else ask [] (A_listLimits
               [(''service_name'', JStr (fl_service fl)),
                (''customer_id'', if fl_kind fl = K_defaults then JStr ''*'' else or_undefined (fl_customer fl)),
                (''rate_limit_id'', or_undefined (fl_rlid fl))])
             (\<lambda>res. attempt (listed_rows (fl_kind fl) res) (\<lambda>rows st.
                let st = st\<lparr>lp_limits := rows\<rparr> in
                if fl_customer fl \<noteq> [] \<and> fl_customer fl \<noteq> ''*'' \<and> fl_rlid fl \<noteq> []
                then ask [] (A_resolveLimit \<lparr>k_service_name = fl_service fl, k_customer_id = fl_customer fl,
                                             k_rate_limit_id = fl_rlid fl\<rparr>)
                       (\<lambda>v st. settled (st\<lparr>lp_effective := v\<rparr>)) limits_failed st
                else settled (st\<lparr>lp_effective := JNull\<rparr>)) limits_failed)
             limits_failed st)"

section \<open>The editor\<close>

definition isNew :: "obj \<Rightarrow> bool" where
  "isNew initial \<longleftrightarrow> own initial ''config_id'' = JNull"

text \<open>The rows of the preview.\<close>

definition preview :: "obj \<Rightarrow> obj \<Rightarrow> (jsv \<times> jsv) js" where
  "preview initial form =
     then_do (js_Number (own form ''limit_value'')) (\<lambda>n.
       Inr (if isNew initial then JNull
            else JObj [(''limit_value'', own initial ''limit_value''), (''time_unit'', own initial ''time_unit'')],
            JObj [(''limit_value'', JNum n), (''time_unit'', own form ''time_unit'')]))"

definition tuple_of :: "obj \<Rightarrow> string js" where
  "tuple_of form =
     then_do (js_String (own form ''service_name'')) (\<lambda>a.
     then_do (js_String (own form ''customer_id'')) (\<lambda>b.
     then_do (js_String (own form ''rate_limit_id'')) (\<lambda>c.
       Inr (a @ ''/'' @ b @ ''/'' @ c))))"

definition saved :: "Filters \<Rightarrow> LimitsPage \<Rightarrow> LimitsPage \<times> LimitsPage ui_act" where
  \<comment> \<open>\<^verbatim>\<open>onSaved\<close>: close the editor and search again\<close>
  "saved fl st = limits_search fl (setEditing None st)"

definition pending_reason :: "string \<Rightarrow> jsv \<Rightarrow> string js" where
  "pending_reason what res =
     then_do (get_prop (prop_opt res ''review'') ''reason'') (\<lambda>r.
     then_do (js_String r) (\<lambda>t. Inr (what @ '' requires two-person review: '' @ t)))"

definition editor_failed :: "nat \<Rightarrow> (ui_error, LimitsPage) ui_cont" where
  "editor_failed i e st = settled (in_editor i (ed_error_update (\<lambda>_. Some e)) st)"

definition done_or_pending ::
  "nat \<Rightarrow> Filters \<Rightarrow> string \<Rightarrow> (jsv, LimitsPage) ui_cont" where
  "done_or_pending i fl what res st =
     (if isPending res
      then attempt (pending_reason what res)
             (\<lambda>t st. settled (in_editor i (ed_notice_update (\<lambda>_. Some t)) st)) (editor_failed i) st
      else saved fl st)"

text \<open>\<open>token\<close> is the CSRF token at the moment of the click.\<close>

definition save :: "string \<Rightarrow> obj \<Rightarrow> LimitsPage \<Rightarrow> LimitsPage \<times> LimitsPage ui_act" where
  "save token initial st =
     (let i = lp_mounted st; fl = lp_filters st; form = ed_form (lp_editor st);
          st = in_editor i (\<lambda>e. e\<lparr>ed_error := None, ed_notice := None\<rparr>) st
      in attempt (js_Number (own form ''limit_value'')) (\<lambda>n.
           let b = JObj (map_set ''limit_value'' (JNum n) form) in
           if isNew initial then ask token (A_createLimit b) (\<lambda>_. saved fl) (editor_failed i)
           else ask token (A_updateLimit b) (done_or_pending i fl ''Change'') (editor_failed i))
         (editor_failed i) st)"

definition del :: "string \<Rightarrow> LimitsPage \<Rightarrow> LimitsPage \<times> LimitsPage ui_act" where
  "del token st =
     (let i = lp_mounted st; fl = lp_filters st; form = ed_form (lp_editor st);
          st = in_editor i (\<lambda>e. e\<lparr>ed_error := None, ed_notice := None\<rparr>) st
      in ask token (A_deleteLimit (JObj [(''service_name'', own form ''service_name''),
                                         (''customer_id'', own form ''customer_id''),
                                         (''rate_limit_id'', own form ''rate_limit_id'')]))
           (done_or_pending i fl ''Delete'') (editor_failed i) st)"

text \<open>The button is enabled when the text typed is the key.\<close>

definition delete_enabled :: "Editor \<Rightarrow> bool" where
  "delete_enabled e \<longleftrightarrow> tuple_of (ed_form e) = Inr (ed_confirm e)"

text \<open>The hint below the table, and the badge of a row.\<close>

definition effective_hint :: "jsv \<Rightarrow> string js" where
  "effective_hint v =
     then_do (js_String (prop_opt v ''customer_id'')) (\<lambda>c.
     then_do (js_String (prop_opt v ''rate_limit_id'')) (\<lambda>r.
       let intro = ''Effective for '' @ c @ ''/'' @ r @ '': '' in
       if truthy (prop_opt v ''configured'')
       then then_do (js_String (prop_opt v ''limit_value'')) (\<lambda>n.
            then_do (js_String (prop_opt v ''time_unit'')) (\<lambda>u.
              Inr (intro @ n @ ''/'' @ u @ '' ('' @
                (if truthy (prop_opt v ''is_default'') then ''via '' @ CHR 0x27 # ''*'' @ CHR 0x27 # '' default''
                 else ''override'') @ '')'')))
       else then_do (js_String (prop_opt v ''note'')) (\<lambda>t. Inr (intro @ t))))"

definition KindBadge :: "bool \<Rightarrow> string" where
  "KindBadge isDefault = (if isDefault then ''DEFAULT'' else ''OVERRIDE'')"

section \<open>Properties\<close>

text \<open>
  The editor does not follow the row: when it is open on one row and another is chosen, the form keeps
  the values of the first, so that the preview compares the second row with them and saving sends the
  first row as an update.
\<close>

theorem editor_keeps_first_row:
  assumes "lp_editing st = None" "js_Number (own a ''limit_value'') = Inr n" "\<not> isNew b"
  shows "let st' = setEditing (Some b) (setEditing (Some a) st)
    in lp_editing st' = Some b \<and> ed_form (lp_editor st') = a
      \<and> (\<exists>k. save token b st' = (st', Await (req_fetch token ''PUT'' ''/limits''
            (Some (JObj (map_set ''limit_value'' (JNum n) a)))) k))"
  using assms
  by (simp add: setEditing_def save_def new_editor_def attempt_def ask_def in_editor_def Let_def)

theorem editor_keeps_first_row_witness:
  "\<exists>st' k. lp_editing st' = Some [(''config_id'', JNum (Fin 2)), (''limit_value'', JNum (Fin 9))]
     \<and> save ''t'' [(''config_id'', JNum (Fin 2)), (''limit_value'', JNum (Fin 9))] st'
       = (st', Await (req_fetch ''t'' ''PUT'' ''/limits''
            (Some (JObj [(''config_id'', JNum (Fin 1)), (''limit_value'', JNum (Fin 5))]))) k)"
proof -
  let ?a = "[(''config_id'', JNum (Fin 1)), (''limit_value'', JNum (Fin 5))]"
  let ?b = "[(''config_id'', JNum (Fin 2)), (''limit_value'', JNum (Fin 9))]"
  let ?st = "\<lparr>lp_filters = \<lparr>fl_service = ''s'', fl_customer = [], fl_rlid = [], fl_kind = K_all\<rparr>, lp_limits = JArr [],
    lp_effective = JNull, lp_error = None, lp_editing = None, lp_editor = new_editor EMPTY, lp_mounted = 0\<rparr>"
  have "lp_editing ?st = None" "js_Number (own ?a ''limit_value'') = Inr (Fin 5)" "\<not> isNew ?b"
    by (simp_all add: own_def isNew_def)
  from editor_keeps_first_row [OF this, of "''t''"] show ?thesis by (auto simp: Let_def)
qed

text \<open>
  The last response wins, not the last search: when the response to an earlier search arrives after
  the one to a later search, the table shows the rows of the earlier one, whatever the form says by then.
\<close>

theorem late_response_overwrites:
  assumes "limits_search fl st = (st1, Await c k)" "fl_kind fl = K_all" "fl_rlid fl = []"
    and "fr_status r = 200" "fr_parsed r = Inr res" "\<not> nullish res"
  shows "lp_limits (fst (k (Inr r) later)) = prop_opt res ''limits''
    \<and> lp_filters (fst (k (Inr r) later)) = lp_filters later"
proof -
  have g: "get_prop res ''limits'' = Inr (prop_opt res ''limits'')" using assms(6) by (simp add: get_prop_Inr)
  have "k (Inr r) later = settled (later\<lparr>lp_limits := prop_opt res ''limits'', lp_effective := JNull\<rparr>)"
    using assms
    by (auto simp: limits_search_def limits_failed_def ask_def req_result_def attempt_def listed_rows_def g
        settled_def Let_def split: sum.splits if_splits)
  then show ?thesis by (simp add: settled_def)
qed

theorem late_response_overwrites_witness:
  "\<exists>st st1 c k. limits_search \<lparr>fl_service = ''old'', fl_customer = [], fl_rlid = [], fl_kind = K_all\<rparr> st = (st1, Await c k)
     \<and> (\<forall>later. lp_limits (fst (k (Inr \<lparr>fr_status = 200, fr_parsed = Inr (JObj [(''limits'', JArr [JNull])])\<rparr>) later)) = JArr [JNull])"
proof -
  let ?fl = "\<lparr>fl_service = ''old'', fl_customer = [], fl_rlid = [], fl_kind = K_all\<rparr>"
  let ?st = "\<lparr>lp_filters = ?fl, lp_limits = JArr [],
    lp_effective = JNull, lp_error = None, lp_editing = None, lp_editor = new_editor EMPTY, lp_mounted = 0\<rparr>"
  let ?r = "\<lparr>fr_status = 200, fr_parsed = Inr (JObj [(''limits'', JArr [JNull])])\<rparr>"
  obtain st1 c k where s: "limits_search ?fl ?st = (st1, Await c k)"
    by (simp add: limits_search_def ask_def with_query_def qs_def or_undefined_def Let_def)
  have "lp_limits (fst (k (Inr ?r) later)) = JArr [JNull]" for later
    using late_response_overwrites [OF s, of ?r "JObj [(''limits'', JArr [JNull])]" later]
    by (simp add: nullish_def prop_opt_def own_def)
  with s show ?thesis by blast
qed

end
