(* ===== verification/Console_Pages.thy ===== *)
theory Console_Pages
  imports Console_Limits
begin

text \<open>
  The other pages of \<^verbatim>\<open>frontend/src/pages/\<close>: live usage with the manual operations, the audit browser,
  services and reviews.
\<close>

section \<open>Live usage\<close>

record UsagePage =
  up_service :: string
  up_customer :: string
  up_rlid :: string
  up_usage :: jsv
  up_error :: "ui_error option"
  up_notice :: "string option"

definition form_key :: "UsagePage \<Rightarrow> Key" where
  "form_key st = \<lparr>k_service_name = up_service st, k_customer_id = up_customer st, k_rate_limit_id = up_rlid st\<rparr>"

definition clear_usage :: "UsagePage \<Rightarrow> UsagePage" where
  "clear_usage st = st\<lparr>up_error := None, up_notice := None\<rparr>"

definition usage_failed :: "(ui_error, UsagePage) ui_cont" where
  "usage_failed e st = settled (st\<lparr>up_error := Some e\<rparr>)"

definition lookup :: "Key \<Rightarrow> UsagePage \<Rightarrow> UsagePage \<times> UsagePage ui_act" where
  "lookup k st =
     ask [] (A_getUsage k)
       (\<lambda>u st. settled (st\<lparr>up_usage := u\<rparr>))
       (\<lambda>e st. settled (st\<lparr>up_error := Some e, up_usage := JNull\<rparr>)) (clear_usage st)"

definition pending_notice :: "string \<Rightarrow> (jsv, UsagePage) ui_cont" where
  "pending_notice what res =
     attempt (pending_reason what res) (\<lambda>t st. settled (st\<lparr>up_notice := Some t\<rparr>)) usage_failed"

text \<open>\<open>answer\<close> is what the user typed at the prompt, \<open>None\<close> when it was cancelled.\<close>

definition doRefund :: "string \<Rightarrow> string option \<Rightarrow> UsagePage \<Rightarrow> UsagePage \<times> UsagePage ui_act" where
  "doRefund token answer st =
     (case answer of
        Some (c # cs) \<Rightarrow>
          let k = form_key st
          in ask token (A_refund (JObj (key_object k @ [(''amount'', JNum (string_to_number (c # cs)))])))
               (\<lambda>res. if isPending res then pending_notice ''Refund'' res else lookup k)
               usage_failed (clear_usage st)
      | _ \<Rightarrow> settled st)"

definition doReset :: "string \<Rightarrow> bool \<Rightarrow> UsagePage \<Rightarrow> UsagePage \<times> UsagePage ui_act" where
  "doReset token confirmed st =
     (if confirmed
      then ask token (A_reset (form_key st))
             (\<lambda>res. if isPending res then pending_notice ''Reset'' res
                    else (\<lambda>st. settled (st\<lparr>up_usage := res\<rparr>)))
             usage_failed (clear_usage st)
      else settled st)"

definition overQuota :: "UsagePage \<Rightarrow> bool" where
  "overQuota st \<longleftrightarrow>
     \<not> nullish (up_usage st) \<and> truthy (prop_opt (up_usage st) ''configured'')
     \<and> (case js_Number (prop_opt (up_usage st) ''remaining'') of Inr n \<Rightarrow> num_less n (Fin 0) | Inl e \<Rightarrow> False)"

section \<open>Audit\<close>

record AuditPage =
  ap_service :: string
  ap_customer :: string
  ap_rlid :: string
  ap_changedBy :: string
  ap_operation :: string
  ap_entries :: jsv
  ap_error :: "ui_error option"
  ap_expanded :: "jsv option"

definition audit_search :: "AuditPage \<Rightarrow> AuditPage \<times> AuditPage ui_act" where
  "audit_search st =
     (let failed = (\<lambda>e st. settled (st\<lparr>ap_error := Some e, ap_entries := JArr []\<rparr>)) in
      ask [] (A_listAudit
          [(''service_name'', JStr (ap_service st)), (''customer_id'', or_undefined (ap_customer st)),
           (''rate_limit_id'', or_undefined (ap_rlid st)), (''changed_by'', or_undefined (ap_changedBy st)),
           (''operation'', or_undefined (ap_operation st))])
        (\<lambda>res. attempt (get_prop res ''entries'') (\<lambda>es st. settled (st\<lparr>ap_entries := es\<rparr>)) failed)
        failed (st\<lparr>ap_error := None\<rparr>))"

definition toggle :: "jsv \<Rightarrow> AuditPage \<Rightarrow> AuditPage" where
  "toggle i st = st\<lparr>ap_expanded := (if ap_expanded st = Some i then None else Some i)\<rparr>"

section \<open>Services\<close>

record ServiceForm =
  sf_service_name :: string
  sf_display_name :: string
  sf_owner :: string

record ServicesPage =
  sp_services :: jsv
  sp_error :: "ui_error option"
  sp_form :: ServiceForm
  sp_editingName :: "string option"

definition EMPTY_SERVICE :: ServiceForm where
  "EMPTY_SERVICE = \<lparr>sf_service_name = [], sf_display_name = [], sf_owner = []\<rparr>"

definition services_failed :: "(ui_error, ServicesPage) ui_cont" where
  "services_failed e st = settled (st\<lparr>sp_error := Some e\<rparr>)"

definition load_services :: "ServicesPage \<Rightarrow> ServicesPage \<times> ServicesPage ui_act" where
  "load_services st =
     ask [] A_listServices
       (\<lambda>res. attempt (get_prop res ''services'') (\<lambda>ss st. settled (st\<lparr>sp_services := ss\<rparr>)) services_failed)
       services_failed (st\<lparr>sp_error := None\<rparr>)"

definition submit :: "string \<Rightarrow> ServicesPage \<Rightarrow> ServicesPage \<times> ServicesPage ui_act" where
  "submit token st =
     (let form = sp_form st;
          call = (case sp_editingName st of
                    Some (c # cs) \<Rightarrow>
                      A_updateService (c # cs)
                        (JObj [(''display_name'', JStr (sf_display_name form)), (''owner'', JStr (sf_owner form))])
                  | _ \<Rightarrow>
                      A_createService
                        (JObj [(''service_name'', JStr (sf_service_name form)),
                               (''display_name'', JStr (sf_display_name form)), (''owner'', JStr (sf_owner form))]))
      in ask token call
           (\<lambda>_ st. load_services (st\<lparr>sp_form := EMPTY_SERVICE, sp_editingName := None\<rparr>))
           services_failed (st\<lparr>sp_error := None\<rparr>))"

definition edit_service :: "ServiceForm \<Rightarrow> ServicesPage \<Rightarrow> ServicesPage" where
  "edit_service s st = st\<lparr>sp_form := s, sp_editingName := Some (sf_service_name s)\<rparr>"

definition cancel_edit :: "ServicesPage \<Rightarrow> ServicesPage" where
  "cancel_edit st = st\<lparr>sp_editingName := None, sp_form := EMPTY_SERVICE\<rparr>"

section \<open>Reviews\<close>

record ReviewsPage =
  rp_reviews :: jsv
  rp_error :: "ui_error option"

definition reviews_failed :: "(ui_error, ReviewsPage) ui_cont" where
  "reviews_failed e st = settled (st\<lparr>rp_error := Some e\<rparr>)"

definition load_reviews :: "ReviewsPage \<Rightarrow> ReviewsPage \<times> ReviewsPage ui_act" where
  "load_reviews st =
     ask [] A_listReviews
       (\<lambda>res. attempt (get_prop res ''reviews'') (\<lambda>rs st. settled (st\<lparr>rp_reviews := rs\<rparr>)) reviews_failed)
       reviews_failed (st\<lparr>rp_error := None\<rparr>)"

definition decide :: "string \<Rightarrow> string \<Rightarrow> bool \<Rightarrow> ReviewsPage \<Rightarrow> ReviewsPage \<times> ReviewsPage ui_act" where
  "decide token i approve st =
     ask token (if approve then A_approveReview i else A_rejectReview i)
       (\<lambda>_. load_reviews) reviews_failed (st\<lparr>rp_error := None\<rparr>)"

section \<open>Properties\<close>

text \<open>
  A manual operation acts on the key in the form, not on the one whose usage is displayed: when the form
  was edited after the last lookup, refund and reset are sent for the edited key, while the panel still shows
  the usage of the other.
\<close>

theorem manual_operation_follows_form:
  assumes "prop_opt (up_usage st) ''customer_id'' = JStr shown" "shown \<noteq> up_customer st"
  shows "\<exists>k k'. doReset token True st = (clear_usage st,
        Await (req_fetch token ''POST'' ''/ops/reset'' (Some (JObj (key_object (form_key st))))) k)
    \<and> doRefund token (Some (c # cs)) st = (clear_usage st,
        Await (req_fetch token ''POST'' ''/ops/refund''
          (Some (JObj (key_object (form_key st) @ [(''amount'', JNum (string_to_number (c # cs)))])))) k')
    \<and> own (key_object (form_key st)) ''customer_id'' \<noteq> prop_opt (up_usage st) ''customer_id''"
  using assms by (simp add: doReset_def doRefund_def ask_def form_key_def key_object_def own_def)

theorem manual_operation_follows_form_witness:
  "\<exists>st k. up_usage st = JObj [(''customer_id'', JStr ''a'')] \<and> doReset ''t'' True st = (clear_usage st,
     Await (req_fetch ''t'' ''POST'' ''/ops/reset'' (Some (JObj [(''service_name'', JStr ''s''),
       (''customer_id'', JStr ''b''), (''rate_limit_id'', JStr ''r'')]))) k)"
proof -
  let ?st = "\<lparr>up_service = ''s'', up_customer = ''b'', up_rlid = ''r'', up_usage = JObj [(''customer_id'', JStr ''a'')],
    up_error = None, up_notice = None\<rparr>"
  have "prop_opt (up_usage ?st) ''customer_id'' = JStr ''a''" "''a'' \<noteq> up_customer ?st"
    by (simp_all add: prop_opt_def own_def)
  from manual_operation_follows_form [OF this, of "''t''" "CHR ''1''" "[]"] show ?thesis
    by (intro exI [of _ ?st]) (auto simp: key_object_def form_key_def)
qed

end
