(* ===== verification/Console_Events.thy ===== *)
theory Console_Events
  imports Console_Pages
begin

text \<open>
  The pages of the console as their users meet them: the controls each page renders, when they are shown and
  enabled, and what they do. A page is a machine that is driven by the events of its controls and by the
  responses that arrive; it is run for one session, the one its user is signed in with.
\<close>

section \<open>What every page is built from\<close>

text \<open>\<^verbatim>\<open>can(cap, service)\<close> for a field of a row; a service that is not text is never a granted one.\<close>

definition offers :: "SessionState \<Rightarrow> Capability \<Rightarrow> jsv \<Rightarrow> bool" where
  "offers ss cap svc \<longleftrightarrow> can ss cap (case svc of JStr t \<Rightarrow> Some t | _ \<Rightarrow> None) = Some True"

definition row_at :: "jsv \<Rightarrow> nat \<Rightarrow> jsv option" where
  "row_at rows i = (case rows of JArr ls \<Rightarrow> if i < length ls then Some (ls ! i) else None | _ \<Rightarrow> None)"

text \<open>\<^verbatim>\<open>ErrorText\<close> shows nothing for what is falsy.\<close>

definition ErrorText :: "ui_error option \<Rightarrow> string option" where
  "ErrorText e = (case e of None \<Rightarrow> None | Some (UiText []) \<Rightarrow> None | Some x \<Rightarrow> Some (shown_error x))"

section \<open>The limits page\<close>

datatype KeyField = F_service_name | F_customer_id | F_rate_limit_id

fun field_name :: "KeyField \<Rightarrow> string" where
  "field_name F_service_name = ''service_name''"
| "field_name F_customer_id = ''customer_id''"
| "field_name F_rate_limit_id = ''rate_limit_id''"

datatype EditorEvent =
    In_key KeyField string
  | In_limit string
  | In_unit string
  | In_confirm string
  | Click_cancel
  | Click_save
  | Click_delete

text \<open>The controls of the editor that was handed \<open>initial\<close>.\<close>

definition editor_offered :: "obj \<Rightarrow> Editor \<Rightarrow> EditorEvent \<Rightarrow> bool" where
  "editor_offered initial e ev \<longleftrightarrow>
     (case ev of
        In_key f v \<Rightarrow> isNew initial
      | In_unit u \<Rightarrow> u \<in> set UNITS
      | In_confirm v \<Rightarrow> \<not> isNew initial
      | Click_delete \<Rightarrow> \<not> isNew initial \<and> delete_enabled e
      | _ \<Rightarrow> True)"

definition set_field :: "string \<Rightarrow> jsv \<Rightarrow> LimitsPage \<Rightarrow> LimitsPage" where
  "set_field k v st = in_editor (lp_mounted st) (ed_form_update (map_set k v)) st"

fun editor_handle :: "string \<Rightarrow> obj \<Rightarrow> EditorEvent \<Rightarrow> LimitsPage \<Rightarrow> LimitsPage \<times> LimitsPage ui_act" where
  "editor_handle token initial (In_key f v) st = settled (set_field (field_name f) (JStr v) st)"
| "editor_handle token initial (In_limit v) st = settled (set_field ''limit_value'' (JNum (string_to_number v)) st)"
| "editor_handle token initial (In_unit u) st = settled (set_field ''time_unit'' (JStr u) st)"
| "editor_handle token initial (In_confirm v) st =
     settled (in_editor (lp_mounted st) (ed_confirm_update (\<lambda>_. v)) st)"
| "editor_handle token initial Click_cancel st = settled (setEditing None st)"
| "editor_handle token initial Click_save st = save token initial st"
| "editor_handle token initial Click_delete st = del token st"

datatype LimitsEvent =
    In_service string
  | In_customer string
  | In_rlid string
  | In_kind Kind
  | Click_search
  | Click_new
  | Click_edit nat
  | In_the_editor EditorEvent

definition limits_offered :: "SessionState \<Rightarrow> LimitsPage \<Rightarrow> LimitsEvent \<Rightarrow> bool" where
  "limits_offered ss st ev \<longleftrightarrow>
     (case ev of
        Click_new \<Rightarrow> offers ss Limit_write (JStr (fl_service (lp_filters st)))
      | Click_edit i \<Rightarrow>
          (case row_at (lp_limits st) i of
             Some (JObj l) \<Rightarrow> offers ss Limit_write (own l ''service_name'')
           | _ \<Rightarrow> False)
      | In_the_editor e \<Rightarrow>
          (case lp_editing st of Some initial \<Rightarrow> editor_offered initial (lp_editor st) e | None \<Rightarrow> False)
      | _ \<Rightarrow> True)"

fun limits_handle :: "SessionState \<Rightarrow> LimitsEvent \<Rightarrow> LimitsPage \<Rightarrow> LimitsPage \<times> LimitsPage ui_act" where
  "limits_handle ss (In_service v) st = settled (st\<lparr>lp_filters := (lp_filters st)\<lparr>fl_service := v\<rparr>\<rparr>)"
| "limits_handle ss (In_customer v) st = settled (st\<lparr>lp_filters := (lp_filters st)\<lparr>fl_customer := v\<rparr>\<rparr>)"
| "limits_handle ss (In_rlid v) st = settled (st\<lparr>lp_filters := (lp_filters st)\<lparr>fl_rlid := v\<rparr>\<rparr>)"
| "limits_handle ss (In_kind v) st = settled (st\<lparr>lp_filters := (lp_filters st)\<lparr>fl_kind := v\<rparr>\<rparr>)"
| "limits_handle ss Click_search st = limits_search (lp_filters st) st"
| "limits_handle ss Click_new st =
     settled (setEditing (Some (map_set ''service_name'' (JStr (fl_service (lp_filters st))) EMPTY)) st)"
| "limits_handle ss (Click_edit i) st =
     (case row_at (lp_limits st) i of Some (JObj l) \<Rightarrow> settled (setEditing (Some l) st) | _ \<Rightarrow> settled st)"
| "limits_handle ss (In_the_editor e) st =
     (case lp_editing st of Some initial \<Rightarrow> editor_handle (ui_csrf ss) initial e st | None \<Rightarrow> settled st)"

definition new_limits_page :: LimitsPage where
  "new_limits_page =
     \<lparr>lp_filters = \<lparr>fl_service = [], fl_customer = [], fl_rlid = [], fl_kind = K_all\<rparr>, lp_limits = JArr [],
      lp_effective = JNull, lp_error = None, lp_editing = None, lp_editor = new_editor [], lp_mounted = 0\<rparr>"

text \<open>A control that is not rendered, or is disabled, produces no event.\<close>

definition limits_serve :: "SessionState \<Rightarrow> LimitsEvent \<Rightarrow> LimitsPage \<Rightarrow> LimitsPage \<times> LimitsPage ui_act" where
  "limits_serve ss ev st = (if limits_offered ss st ev then limits_handle ss ev st else settled st)"

text \<open>The table: the cells of each row, its badge, and whether it has a button or is read-only.\<close>

definition limits_table :: "SessionState \<Rightarrow> jsv \<Rightarrow> (jsv list \<times> string \<times> bool) list" where
  "limits_table ss rows =
     (case rows of
        JArr ls \<Rightarrow> map (\<lambda>l. (map (prop_opt l)
            [''service_name'', ''customer_id'', ''rate_limit_id'', ''limit_value'', ''time_unit''],
            KindBadge (truthy (prop_opt l ''is_default'')), offers ss Limit_write (prop_opt l ''service_name''))) ls
      | _ \<Rightarrow> [])"

text \<open>The panel of the editor.\<close>

record EditorView =
  ev_title :: string
  ev_key_disabled :: bool
  ev_default_warning :: bool
  ev_preview :: "FieldDiff list"
  ev_error :: "string option"
  ev_notice :: "string option"
  ev_save_label :: string
  ev_delete :: "(string \<times> bool) option"

definition LimitEditor :: "obj \<Rightarrow> Editor \<Rightarrow> EditorView js" where
  "LimitEditor initial e =
     then_do (preview initial (ed_form e)) (\<lambda>(oldRow, newRow).
     then_do (tuple_of (ed_form e)) (\<lambda>tuple.
       Inr \<lparr>ev_title = (if isNew initial then ''Create limit'' else ''Edit limit''),
            ev_key_disabled = (\<not> isNew initial),
            ev_default_warning = (own (ed_form e) ''customer_id'' = JStr ''*''),
            ev_preview = diffRows oldRow newRow,
            ev_error = ErrorText (ed_error e),
            ev_notice = (case ed_notice e of Some (c # cs) \<Rightarrow> Some (c # cs) | _ \<Rightarrow> None),
            ev_save_label = (if isNew initial then ''Create'' else ''Save change''),
            ev_delete = (if isNew initial then None else Some (tuple, ed_confirm e = tuple))\<rparr>))"

section \<open>The other pages\<close>

datatype UsageEvent =
    U_service string
  | U_customer string
  | U_rlid string
  | U_lookup
  | U_refund "string option"
  | U_reset bool

definition usage_offered :: "SessionState \<Rightarrow> UsagePage \<Rightarrow> UsageEvent \<Rightarrow> bool" where
  "usage_offered ss st ev \<longleftrightarrow>
     (case ev of
        U_refund a \<Rightarrow> truthy (up_usage st) \<and> offers ss Op_refund (prop_opt (up_usage st) ''service_name'')
      | U_reset b \<Rightarrow> truthy (up_usage st) \<and> offers ss Op_reset (prop_opt (up_usage st) ''service_name'')
      | _ \<Rightarrow> True)"

fun usage_handle :: "SessionState \<Rightarrow> UsageEvent \<Rightarrow> UsagePage \<Rightarrow> UsagePage \<times> UsagePage ui_act" where
  "usage_handle ss (U_service v) st = settled (st\<lparr>up_service := v\<rparr>)"
| "usage_handle ss (U_customer v) st = settled (st\<lparr>up_customer := v\<rparr>)"
| "usage_handle ss (U_rlid v) st = settled (st\<lparr>up_rlid := v\<rparr>)"
| "usage_handle ss U_lookup st = lookup (form_key st) st"
| "usage_handle ss (U_refund answer) st = doRefund (ui_csrf ss) answer st"
| "usage_handle ss (U_reset confirmed) st = doReset (ui_csrf ss) confirmed st"

definition usage_serve :: "SessionState \<Rightarrow> UsageEvent \<Rightarrow> UsagePage \<Rightarrow> UsagePage \<times> UsagePage ui_act" where
  "usage_serve ss ev st = (if usage_offered ss st ev then usage_handle ss ev st else settled st)"

text \<open>
  The panel of the usage page, for a usage that was found. A missing limit or reset time is shown as a dash,
  here \<open>None\<close>. The two windows are named at two readings of the clock.
\<close>

record UsagePanel =
  pn_unconfigured :: bool
  pn_values :: "(string \<times> jsv option) list"
  pn_over_quota :: bool
  pn_windows :: "string \<times> string"

definition usage_panel :: "int \<Rightarrow> int \<Rightarrow> UsagePage \<Rightarrow> UsagePanel option" where
  "usage_panel now1 now2 st =
     (let u = up_usage st; or_dash = (\<lambda>v. if nullish v then None else Some v) in
      if truthy u
      then Some \<lparr>pn_unconfigured = (\<not> truthy (prop_opt u ''configured'')),
                 pn_values = [(''limit'', or_dash (prop_opt u ''limit'')), (''consumed'', Some (prop_opt u ''consumed'')),
                              (''remaining'', Some (prop_opt u ''remaining'')), (''reset_at'', or_dash (prop_opt u ''reset_at'')),
                              (''fetched_at'', Some (prop_opt u ''fetched_at''))],
                 pn_over_quota = overQuota st,
                 pn_windows = (windowId Minute now1, windowId Day now2)\<rparr>
      else None)"

definition new_usage_page :: UsagePage where
  "new_usage_page = \<lparr>up_service = [], up_customer = [], up_rlid = [], up_usage = JNull, up_error = None, up_notice = None\<rparr>"

datatype AuditEvent =
    Au_service string
  | Au_customer string
  | Au_rlid string
  | Au_changedBy string
  | Au_operation string
  | Au_search
  | Au_toggle nat

text \<open>The choices of the field for the operation.\<close>

definition OPERATIONS :: "string list" where
  "OPERATIONS = [[], ''INSERT'', ''UPDATE'', ''DELETE'']"

fun audit_serve :: "AuditEvent \<Rightarrow> AuditPage \<Rightarrow> AuditPage \<times> AuditPage ui_act" where
  "audit_serve (Au_service v) st = settled (st\<lparr>ap_service := v\<rparr>)"
| "audit_serve (Au_customer v) st = settled (st\<lparr>ap_customer := v\<rparr>)"
| "audit_serve (Au_rlid v) st = settled (st\<lparr>ap_rlid := v\<rparr>)"
| "audit_serve (Au_changedBy v) st = settled (st\<lparr>ap_changedBy := v\<rparr>)"
| "audit_serve (Au_operation v) st = settled (if v \<in> set OPERATIONS then st\<lparr>ap_operation := v\<rparr> else st)"
| "audit_serve Au_search st = audit_search st"
| "audit_serve (Au_toggle i) st =
     (case row_at (ap_entries st) i of
        Some e \<Rightarrow> settled (toggle (prop_opt e ''audit_id'') st)
      | None \<Rightarrow> settled st)"

text \<open>The table of the audit page: the cells of each entry, and its difference when it is expanded.\<close>

definition audit_table :: "AuditPage \<Rightarrow> (jsv list \<times> FieldDiff list option) list" where
  "audit_table st =
     (case ap_entries st of
        JArr es \<Rightarrow> map (\<lambda>e. (map (prop_opt e) [''changed_at'', ''changed_by'', ''operation'', ''config_id''],
            if ap_expanded st = Some (prop_opt e ''audit_id'')
            then Some (diffRows (prop_opt e ''old_row'') (prop_opt e ''new_row'')) else None)) es
      | _ \<Rightarrow> [])"

definition new_audit_page :: AuditPage where
  "new_audit_page = \<lparr>ap_service = [], ap_customer = [], ap_rlid = [], ap_changedBy = [], ap_operation = [],
     ap_entries = JArr [], ap_error = None, ap_expanded = None\<rparr>"

datatype ServicesEvent =
    Sv_mounted
  | Sv_edit nat
  | Sv_name string
  | Sv_display string
  | Sv_owner string
  | Sv_cancel
  | Sv_submit

text \<open>A row of the table, when it has the declared type.\<close>

definition service_row :: "jsv \<Rightarrow> ServiceForm option" where
  "service_row l =
     (case (prop_opt l ''service_name'', prop_opt l ''display_name'', prop_opt l ''owner'') of
        (JStr n, JStr d, JStr w) \<Rightarrow> Some \<lparr>sf_service_name = n, sf_display_name = d, sf_owner = w\<rparr>
      | _ \<Rightarrow> None)"

definition editing_service :: "ServicesPage \<Rightarrow> bool" where
  "editing_service st \<longleftrightarrow> (case sp_editingName st of Some (c # cs) \<Rightarrow> True | _ \<Rightarrow> False)"

text \<open>Whether the form below the table is rendered.\<close>

definition service_panel :: "SessionState \<Rightarrow> ServicesPage \<Rightarrow> bool" where
  "service_panel ss st \<longleftrightarrow> offers ss Service_create (JStr (sf_service_name (sp_form st))) \<or> editing_service st"

definition services_offered :: "SessionState \<Rightarrow> ServicesPage \<Rightarrow> ServicesEvent \<Rightarrow> bool" where
  "services_offered ss st ev \<longleftrightarrow>
     (case ev of
        Sv_mounted \<Rightarrow> True
      | Sv_edit i \<Rightarrow>
          (case Option.bind (row_at (sp_services st) i) service_row of
             Some s \<Rightarrow> offers ss Service_edit (JStr (sf_service_name s))
           | None \<Rightarrow> False)
      | Sv_name v \<Rightarrow> service_panel ss st \<and> \<not> editing_service st
      | Sv_cancel \<Rightarrow> editing_service st
      | _ \<Rightarrow> service_panel ss st)"

fun services_handle :: "SessionState \<Rightarrow> ServicesEvent \<Rightarrow> ServicesPage \<Rightarrow> ServicesPage \<times> ServicesPage ui_act" where
  "services_handle ss Sv_mounted st = load_services st"
| "services_handle ss (Sv_edit i) st =
     (case Option.bind (row_at (sp_services st) i) service_row of
        Some s \<Rightarrow> settled (edit_service s st)
      | None \<Rightarrow> settled st)"
| "services_handle ss (Sv_name v) st = settled (st\<lparr>sp_form := (sp_form st)\<lparr>sf_service_name := v\<rparr>\<rparr>)"
| "services_handle ss (Sv_display v) st = settled (st\<lparr>sp_form := (sp_form st)\<lparr>sf_display_name := v\<rparr>\<rparr>)"
| "services_handle ss (Sv_owner v) st = settled (st\<lparr>sp_form := (sp_form st)\<lparr>sf_owner := v\<rparr>\<rparr>)"
| "services_handle ss Sv_cancel st = settled (cancel_edit st)"
| "services_handle ss Sv_submit st = submit (ui_csrf ss) st"

definition services_serve :: "SessionState \<Rightarrow> ServicesEvent \<Rightarrow> ServicesPage \<Rightarrow> ServicesPage \<times> ServicesPage ui_act" where
  "services_serve ss ev st = (if services_offered ss st ev then services_handle ss ev st else settled st)"

text \<open>The table of services, each row with whether it can be edited, and the form below it.\<close>

definition services_table :: "SessionState \<Rightarrow> ServicesPage \<Rightarrow> (jsv list \<times> bool) list" where
  "services_table ss st =
     (case sp_services st of
        JArr ls \<Rightarrow> map (\<lambda>l. (map (prop_opt l) [''service_name'', ''display_name'', ''owner''],
                             offers ss Service_edit (prop_opt l ''service_name''))) ls
      | _ \<Rightarrow> [])"

record ServicePanel =
  pl_title :: string
  pl_name_disabled :: bool
  pl_form :: ServiceForm
  pl_cancel :: bool
  pl_submit_label :: string

definition service_form_panel :: "SessionState \<Rightarrow> ServicesPage \<Rightarrow> ServicePanel option" where
  "service_form_panel ss st =
     (if service_panel ss st
      then Some \<lparr>pl_title = (case sp_editingName st of Some (c # cs) \<Rightarrow> ''Edit '' @ c # cs | _ \<Rightarrow> ''Register a service''),
                 pl_name_disabled = editing_service st, pl_form = sp_form st, pl_cancel = editing_service st,
                 pl_submit_label = (if editing_service st then ''Save'' else ''Register'')\<rparr>
      else None)"

definition new_services_page :: ServicesPage where
  "new_services_page = \<lparr>sp_services = JArr [], sp_error = None, sp_form = EMPTY_SERVICE, sp_editingName = None\<rparr>"

datatype ReviewsEvent = Rv_mounted | Rv_decide nat bool

fun reviews_serve :: "SessionState \<Rightarrow> ReviewsEvent \<Rightarrow> ReviewsPage \<Rightarrow> ReviewsPage \<times> ReviewsPage ui_act" where
  "reviews_serve ss Rv_mounted st = load_reviews st"
| "reviews_serve ss (Rv_decide i approve) st =
     (case map_option (\<lambda>r. prop_opt r ''id'') (row_at (rp_reviews st) i) of
        Some (JStr rid) \<Rightarrow> decide (ui_csrf ss) rid approve st
      | _ \<Rightarrow> settled st)"

definition new_reviews_page :: ReviewsPage where
  "new_reviews_page = \<lparr>rp_reviews = JArr [], rp_error = None\<rparr>"

text \<open>The panels of the reviews page: what each shows; \<open>rv_op\<close> is the operation whose indented text it shows.\<close>

record ReviewPanel =
  rv_kind :: jsv
  rv_reason :: jsv
  rv_initiator :: jsv
  rv_createdAt :: jsv
  rv_op :: jsv

definition review_panel :: "jsv \<Rightarrow> ReviewPanel js" where
  "review_panel r =
     then_do (get_prop r ''op'') (\<lambda>op.
     then_do (get_prop op ''kind'') (\<lambda>k.
       Inr \<lparr>rv_kind = k, rv_reason = prop_opt r ''reason'', rv_initiator = prop_opt r ''initiator'',
            rv_createdAt = prop_opt r ''createdAt'', rv_op = op\<rparr>))"

definition review_panels :: "ReviewsPage \<Rightarrow> ReviewPanel list js" where
  "review_panels st =
     (case rp_reviews st of
        JArr rs \<Rightarrow> map_throw review_panel rs
      | _ \<Rightarrow> Inl (OtherError ''reviews.map is not a function''))"

end
