(* ===== verification/Console_Contract.thy ===== *)
theory Console_Contract
  imports Console_Events "HOL-Library.Sublist"
begin

text \<open>
  What the pages of the console may send. A page keeps an invariant over its events and over the responses,
  and sends only calls it is meant for; this contract is a locale, which gives the contract of a server that
  interleaves handlers, and each page is an instance.
\<close>

section \<open>The contract of a page\<close>

definition page_ok :: "(Fetch \<Rightarrow> bool) \<Rightarrow> ('s \<Rightarrow> bool) \<Rightarrow> 's \<times> 's ui_act \<Rightarrow> bool" where
  "page_ok may keeps x \<longleftrightarrow> keeps (fst x) \<and> conforms may keeps (\<lambda>_ _ _ s'. keeps s') (snd x)"

locale page =
  fixes serve :: "'q \<Rightarrow> 's \<Rightarrow> 's \<times> 's ui_act"
    and keeps :: "'s \<Rightarrow> bool"
    and may :: "Fetch \<Rightarrow> bool"
  assumes serve_page: "keeps s \<Longrightarrow> page_ok may keeps (serve q s)"

sublocale page \<subseteq> licensed_server serve "\<lambda>_ _. False" keeps
  "\<lambda>s m p. m = may \<and> p = keeps \<and> keeps s" "\<lambda>_ _ _ s'. keeps s'"
proof (unfold_locales, goal_cases)
  case (1 s q s' a)
  then show ?case using serve_page [of s q] by (simp add: page_ok_def)
next
  case (3 s q s' a m p)
  then show ?case using serve_page [of s q] by (simp add: page_ok_def)
qed auto

context page
begin

lemma sends_only:
  "keeps s0 \<Longrightarrow> reachable serve (\<lambda>_ _. False) s0 w \<Longrightarrow> Issued t c \<in> set (trace w) \<Longrightarrow> may c"
  using every_call_licensed by blast

end

text \<open>The rules for the pieces a page is composed of.\<close>

named_theorems page_rules

lemma page_settled [page_rules]: "keeps s \<Longrightarrow> page_ok may keeps (settled s)"
  by (simp add: page_ok_def settled_def)

lemma page_ask [page_rules]:
  assumes "keeps s" "\<And>m p b. endpoint c = Inr (m, p, b) \<Longrightarrow> may (req_fetch token m p b)"
    and "\<And>v s. keeps s \<Longrightarrow> page_ok may keeps (k v s)" "\<And>e s. keeps s \<Longrightarrow> page_ok may keeps (h e s)"
  shows "page_ok may keeps (ask token c k h s)"
  using assms by (auto simp: page_ok_def ask_def conforms_Await split: sum.splits)

lemma page_attempt [page_rules]:
  assumes "keeps s" "\<And>v s. keeps s \<Longrightarrow> page_ok may keeps (k v s)" "\<And>e s. keeps s \<Longrightarrow> page_ok may keeps (h e s)"
  shows "page_ok may keeps (attempt x k h s)"
  using assms by (auto simp: attempt_def split: sum.splits)

section \<open>What each page is meant for\<close>

text \<open>
  A read, or a change at one of the page's own addresses, with the token of the session, by a user with
  a control for it.
\<close>

definition page_call :: "SessionState \<Rightarrow> bool \<Rightarrow> (string \<Rightarrow> bool) \<Rightarrow> Fetch \<Rightarrow> bool" where
  "page_call ss allowed at_url c \<longleftrightarrow>
     f_method c = ''GET''
     \<or> allowed \<and> at_url (f_url c) \<and> (''x-csrf-token'', ui_csrf ss) \<in> set (f_headers c)"

definition may_write :: "SessionState \<Rightarrow> Capability \<Rightarrow> bool" where
  "may_write ss cap \<longleftrightarrow> (\<exists>svc. offers ss cap svc)"

lemma may_writeI: "offers ss cap svc \<Longrightarrow> may_write ss cap"
  by (auto simp: may_write_def)

text \<open>What each page may send.\<close>

definition limits_may :: "SessionState \<Rightarrow> Fetch \<Rightarrow> bool" where
  "limits_may ss = page_call ss (may_write ss Limit_write) (\<lambda>u. u = ''/api/limits'')"

definition usage_may :: "SessionState \<Rightarrow> Fetch \<Rightarrow> bool" where
  "usage_may ss = page_call ss (may_write ss Op_refund \<or> may_write ss Op_reset)
     (\<lambda>u. u = ''/api/ops/refund'' \<or> u = ''/api/ops/reset'')"

definition audit_may :: "Fetch \<Rightarrow> bool" where
  "audit_may c \<longleftrightarrow> f_method c = ''GET''"

definition services_may :: "SessionState \<Rightarrow> Fetch \<Rightarrow> bool" where
  "services_may ss = page_call ss (may_write ss Service_edit \<or> may_write ss Service_create)
     (\<lambda>u. prefix ''/api/services'' u)"

definition reviews_may :: "SessionState \<Rightarrow> Fetch \<Rightarrow> bool" where
  "reviews_may ss = page_call ss True (\<lambda>u. prefix ''/api/reviews/'' u)"

lemmas may_defs = limits_may_def usage_may_def audit_may_def services_may_def reviews_may_def page_call_def req_fetch_def

lemma may_read:
  assumes "m = ''GET''"
  shows "limits_may ss (req_fetch token m p b)" "usage_may ss (req_fetch token m p b)"
    "audit_may (req_fetch token m p b)" "services_may ss (req_fetch token m p b)"
    "reviews_may ss (req_fetch token m p b)"
  using assms by (simp_all add: may_defs)

lemma with_query_get: "with_query p ps = Inr (m, p', b) \<Longrightarrow> m = ''GET''"
  by (auto simp: with_query_def then_do_eq_Inr)

section \<open>The limits page\<close>

definition limits_inv :: "SessionState \<Rightarrow> LimitsPage \<Rightarrow> bool" where
  "limits_inv ss st \<longleftrightarrow> (lp_editing st \<noteq> None \<longrightarrow> may_write ss Limit_write)"

abbreviation limits_page :: "SessionState \<Rightarrow> LimitsPage \<times> LimitsPage ui_act \<Rightarrow> bool" where
  "limits_page ss \<equiv> page_ok (limits_may ss) (limits_inv ss)"

lemma limits_inv_simps [simp]:
  "limits_inv ss (st\<lparr>lp_filters := a\<rparr>) = limits_inv ss st" "limits_inv ss (st\<lparr>lp_error := b\<rparr>) = limits_inv ss st"
  "limits_inv ss (st\<lparr>lp_limits := c\<rparr>) = limits_inv ss st" "limits_inv ss (st\<lparr>lp_effective := d\<rparr>) = limits_inv ss st"
  "limits_inv ss (in_editor i f st) = limits_inv ss st" "limits_inv ss (setEditing None st)"
  "limits_inv ss (set_field k v st) = limits_inv ss st"
  "limits_inv ss (setEditing (Some r) st) = may_write ss Limit_write"
  by (auto simp: limits_inv_def in_editor_def setEditing_def set_field_def split: option.splits)

lemma limits_inv_editing: "limits_inv ss st \<Longrightarrow> lp_editing st = Some r \<Longrightarrow> may_write ss Limit_write"
  by (simp add: limits_inv_def)

lemma limits_may_change: "may_write ss Limit_write \<Longrightarrow> limits_may ss (req_fetch (ui_csrf ss) m ''/limits'' b)"
  by (simp add: may_defs)

lemma limits_search_page: "limits_inv ss st \<Longrightarrow> limits_page ss (limits_search fl st)"
  unfolding limits_search_def limits_failed_def Let_def
  by (auto intro!: page_rules dest!: with_query_get simp: may_read)

lemma saved_page: "limits_inv ss st \<Longrightarrow> limits_page ss (saved fl st)"
  unfolding saved_def by (rule limits_search_page) simp

lemma done_or_pending_page: "limits_inv ss st \<Longrightarrow> limits_page ss (done_or_pending i fl what res st)"
  unfolding done_or_pending_def editor_failed_def by (auto intro!: page_rules saved_page)

lemma editor_handle_page:
  assumes "limits_inv ss st" "may_write ss Limit_write"
  shows "limits_page ss (editor_handle (ui_csrf ss) initial e st)"
proof (cases e)
  case Click_save
  then show ?thesis using assms unfolding Click_save editor_handle.simps save_def editor_failed_def Let_def
    by (auto intro!: page_rules saved_page done_or_pending_page limits_may_change)
next
  case Click_delete
  then show ?thesis using assms unfolding Click_delete editor_handle.simps del_def editor_failed_def Let_def
    by (auto intro!: page_rules done_or_pending_page limits_may_change)
qed (use assms in \<open>auto intro!: page_rules\<close>)

lemma limits_serve_page: "limits_inv ss st \<Longrightarrow> limits_page ss (limits_serve ss ev st)"
  by (cases ev)
     (auto simp: limits_serve_def limits_offered_def
       intro!: page_settled limits_search_page editor_handle_page intro: may_writeI dest: limits_inv_editing split: option.splits jsv.splits)

interpretation limits: page "limits_serve ss" "limits_inv ss" "limits_may ss"
  by unfold_locales (rule limits_serve_page)

section \<open>The usage page\<close>

lemma lookup_page: "page_ok (usage_may ss) (\<lambda>_. True) (lookup k st)"
  unfolding lookup_def by (auto intro!: page_rules dest!: with_query_get simp: may_read)

lemma pending_notice_page: "page_ok (usage_may ss) (\<lambda>_. True) (pending_notice what res st)"
  unfolding pending_notice_def usage_failed_def by (auto intro!: page_rules)

lemma usage_may_change:
  "may_write ss Op_refund \<Longrightarrow> usage_may ss (req_fetch (ui_csrf ss) ''POST'' ''/ops/refund'' b)"
  "may_write ss Op_reset \<Longrightarrow> usage_may ss (req_fetch (ui_csrf ss) ''POST'' ''/ops/reset'' b)"
  by (simp_all add: may_defs)

lemma doRefund_page:
  "may_write ss Op_refund \<Longrightarrow> page_ok (usage_may ss) (\<lambda>_. True) (doRefund (ui_csrf ss) answer st)"
  unfolding doRefund_def usage_failed_def Let_def
  by (auto intro!: page_rules usage_may_change lookup_page pending_notice_page split: option.splits list.splits)

lemma doReset_page:
  "may_write ss Op_reset \<Longrightarrow> page_ok (usage_may ss) (\<lambda>_. True) (doReset (ui_csrf ss) confirmed st)"
  unfolding doReset_def usage_failed_def
  by (auto intro!: page_rules usage_may_change pending_notice_page)

interpretation usage: page "usage_serve ss" "\<lambda>_. True" "usage_may ss"
proof (unfold_locales, goal_cases)
  case (1 st ev)
  show ?case
    by (cases ev) (auto simp: usage_serve_def usage_offered_def
        intro!: page_settled lookup_page doRefund_page doReset_page may_writeI)
qed

section \<open>The other pages\<close>

interpretation audit: page audit_serve "\<lambda>_. True" "audit_may"
proof (unfold_locales, goal_cases)
  case (1 st ev)
  have "page_ok (audit_may) (\<lambda>_. True) (audit_search st)"
    unfolding audit_search_def Let_def by (auto intro!: page_rules dest!: with_query_get simp: may_read)
  then show ?case by (cases ev) (auto intro!: page_settled split: option.splits)
qed

definition services_inv :: "SessionState \<Rightarrow> ServicesPage \<Rightarrow> bool" where
  "services_inv ss st \<longleftrightarrow> (editing_service st \<longrightarrow> may_write ss Service_edit)"

lemma services_inv_simps [simp]:
  "services_inv ss (st\<lparr>sp_error := a\<rparr>) = services_inv ss st" "services_inv ss (st\<lparr>sp_services := b\<rparr>) = services_inv ss st"
  "services_inv ss (st\<lparr>sp_form := c\<rparr>) = services_inv ss st" "services_inv ss (cancel_edit st)"
  "services_inv ss (st\<lparr>sp_form := c, sp_editingName := None\<rparr>)"
  "may_write ss Service_edit \<Longrightarrow> services_inv ss (edit_service s st)"
  by (auto simp: services_inv_def editing_service_def cancel_edit_def)

lemma load_services_page: "services_inv ss st \<Longrightarrow> page_ok (services_may ss) (services_inv ss) (load_services st)"
  unfolding load_services_def services_failed_def
  by (auto intro!: page_rules may_read)

lemma services_may_change:
  "may_write ss Service_edit \<or> may_write ss Service_create \<Longrightarrow>
     services_may ss (req_fetch (ui_csrf ss) m (''/services'' @ x) b)"
  by (simp add: may_defs)

lemma submit_page:
  assumes "services_inv ss st" "service_panel ss st"
  shows "page_ok (services_may ss) (services_inv ss) (submit (ui_csrf ss) st)"
proof -
  have "may_write ss Service_edit \<or> may_write ss Service_create"
    using assms by (auto simp: services_inv_def service_panel_def dest: may_writeI)
  then show ?thesis
    using assms(1) unfolding submit_def services_failed_def Let_def
    by (intro page_ask) (auto intro!: page_settled load_services_page
        simp: services_may_change [where x = "[]", simplified] services_may_change [where x = "CHR ''/'' # x" for x, simplified]
        split: option.splits list.splits)
qed

interpretation services: page "services_serve ss" "services_inv ss" "services_may ss"
proof (unfold_locales, goal_cases)
  case (1 st ev)
  then show ?case
    by (cases ev) (auto simp: services_serve_def services_offered_def
        intro!: page_settled load_services_page submit_page services_inv_simps(6) may_writeI split: option.splits)
qed

lemma load_reviews_page: "page_ok (reviews_may ss) (\<lambda>_. True) (load_reviews st)"
  unfolding load_reviews_def reviews_failed_def by (auto intro!: page_rules may_read)

lemma reviews_may_change: "reviews_may ss (req_fetch (ui_csrf ss) m (''/reviews/'' @ x) b)"
  by (simp add: may_defs)

interpretation reviews_queue: page "reviews_serve ss" "\<lambda>_. True" "reviews_may ss"
proof (unfold_locales, goal_cases)
  case (1 st ev)
  have "page_ok (reviews_may ss) (\<lambda>_. True) (decide (ui_csrf ss) rid b st)" for rid b
    unfolding decide_def reviews_failed_def
    by (auto intro!: page_rules load_reviews_page simp: reviews_may_change [simplified] split: if_splits)
  then show ?case by (cases ev) (auto intro!: page_settled load_reviews_page split: option.splits jsv.splits)
qed

section \<open>Editing one row\<close>

text \<open>The state of the page after some events, with no response in between.\<close>

definition after_events :: "SessionState \<Rightarrow> LimitsEvent list \<Rightarrow> LimitsPage \<Rightarrow> LimitsPage" where
  "after_events ss evs st = fold (\<lambda>ev st. fst (limits_serve ss ev st)) evs st"

text \<open>The events that neither choose another row nor close the editor.\<close>

fun stays_open :: "LimitsEvent \<Rightarrow> bool" where
  "stays_open Click_new = False"
| "stays_open (Click_edit i) = False"
| "stays_open (In_the_editor Click_cancel) = False"
| "stays_open ev = True"

lemma own_set: "own (map_set k v m) k' = (if k' = k then v else own m k')"
  by (simp add: own_def map_get_set)

definition edits :: "obj \<Rightarrow> LimitsPage \<Rightarrow> bool" where
  "edits r st \<longleftrightarrow> lp_editing st = Some r \<and> own (ed_form (lp_editor st)) ''config_id'' = own r ''config_id''
     \<and> (\<forall>f. own (ed_form (lp_editor st)) (field_name f) = own r (field_name f))
     \<and> (\<exists>n. own (ed_form (lp_editor st)) ''limit_value'' = JNum n)"

lemma field_name_neq [simp]:
  "field_name f \<noteq> ''limit_value''" "field_name f \<noteq> ''time_unit''" "field_name f \<noteq> ''config_id''"
  by (cases f; simp)+

lemma edits_editor:
  assumes "edits r st" "\<not> isNew r" "editor_offered r (lp_editor st) e" "e \<noteq> Click_cancel"
  shows "edits r (fst (editor_handle token r e st))"
proof (cases e)
  case Click_save
  with assms(1) obtain n where "own (ed_form (lp_editor st)) ''limit_value'' = JNum n" by (auto simp: edits_def)
  with assms(1,2) show ?thesis unfolding Click_save
    by (simp add: save_def attempt_def ask_def edits_def in_editor_def Let_def)
next
  case Click_delete
  with assms(1) show ?thesis by (simp add: del_def ask_def edits_def in_editor_def Let_def)
qed (use assms in \<open>auto simp: edits_def editor_offered_def settled_def set_field_def in_editor_def own_set\<close>)

lemma edits_serve: "edits r st \<Longrightarrow> \<not> isNew r \<Longrightarrow> stays_open ev \<Longrightarrow> edits r (fst (limits_serve ss ev st))"
proof (cases ev)
  case Click_search
  assume "edits r st"
  then show ?thesis
    by (auto simp: Click_search limits_serve_def limits_search_def limits_failed_def ask_def edits_def settled_def
        Let_def split: sum.splits)
next
  case (In_the_editor e)
  assume *: "edits r st" "\<not> isNew r" "stays_open ev"
  then have "lp_editing st = Some r" "e \<noteq> Click_cancel" by (auto simp: edits_def In_the_editor)
  with * show ?thesis using edits_editor [OF *(1,2)]
    by (auto simp: In_the_editor limits_serve_def limits_offered_def settled_def)
qed (auto simp: limits_serve_def limits_offered_def edits_def settled_def)

lemma edits_events: "edits r st \<Longrightarrow> \<not> isNew r \<Longrightarrow> list_all stays_open evs \<Longrightarrow> edits r (after_events ss evs st)"
  unfolding after_events_def by (induction evs arbitrary: st) (simp_all add: edits_serve)

lemma saving_edits:
  assumes "edits r st" "\<not> isNew r"
  shows "\<exists>st' k b. limits_serve ss (In_the_editor Click_save) st
      = (st', Await (req_fetch (ui_csrf ss) ''PUT'' ''/limits'' (Some (JObj b))) k)
    \<and> own b ''config_id'' = own r ''config_id'' \<and> (\<forall>f. own b (field_name f) = own r (field_name f))"
proof -
  obtain n where "own (ed_form (lp_editor st)) ''limit_value'' = JNum n" using assms(1) by (auto simp: edits_def)
  then show ?thesis using assms
    by (auto simp: edits_def limits_serve_def limits_offered_def editor_offered_def save_def attempt_def ask_def
        own_set Let_def)
qed

section \<open>Properties\<close>

abbreviation runs_from ::
  "('q \<Rightarrow> 's \<Rightarrow> 's \<times> 's ui_act) \<Rightarrow> 's \<Rightarrow> ('q, Fetch, fetch_result, 's, unit) server \<Rightarrow> bool" where
  "runs_from serve \<equiv> reachable serve (\<lambda>_ _. False)"

definition sent :: "('q, Fetch, fetch_result, 's, unit) server \<Rightarrow> Fetch set" where
  "sent w = {c. \<exists>t. Issued t c \<in> set (trace w)}"

lemma new_pages: "limits_inv ss new_limits_page" "services_inv ss new_services_page"
  by (simp_all add: limits_inv_def new_limits_page_def services_inv_def new_services_page_def editing_service_def)


text \<open>A session with one global grant.\<close>

definition granted :: "string \<Rightarrow> SessionState" where
  "granted r = apply_session
     (JObj [(''grants'', JArr [JObj [(''role'', JStr r)]]), (''csrf_token'', JStr ''t'')]) new_session_state"

lemma granted_offers: "offers (granted ''operator'') Limit_write (JStr [])"
  by (simp add: offers_def granted_def apply_session_def new_session_state_def can_def grants_of_def grant_of_def
      prop_opt_def own_def role_of_def canDo_def ui_canEditService_def ui_isOperatorOrAdmin_def ui_hasGlobalRole_def)


text \<open>A user all of whose grants are viewer grants only reads, on these four pages.\<close>

lemma viewer_offers_nothing:
  assumes "grants_of (ui_session ss) = Some gs" "\<forall>g \<in> set gs. role g = Viewer"
    and "cap \<in> {Limit_write, Op_refund, Op_reset, Service_edit, Service_create}"
  shows "\<not> may_write ss cap"
proof -
  have "\<not> ui_isOperatorOrAdmin gs" "\<not> ui_canEditService gs svc" for svc
    using assms(2) by (auto simp: ui_isOperatorOrAdmin_def ui_hasGlobalRole_def ui_canEditService_def list_ex_iff)
  then show ?thesis using assms(1,3) by (auto simp: may_write_def offers_def can_def canDo_def split: if_splits)
qed

lemma viewers_only_read:
  assumes "grants_of (ui_session ss) = Some gs" "\<forall>g \<in> set gs. role g = Viewer"
  shows "runs_from (limits_serve ss) new_limits_page w1 \<Longrightarrow> Issued t c \<in> set (trace w1) \<Longrightarrow> f_method c = ''GET''"
    "runs_from (usage_serve ss) new_usage_page w2 \<Longrightarrow> Issued t c \<in> set (trace w2) \<Longrightarrow> f_method c = ''GET''"
    "runs_from (services_serve ss) new_services_page w3 \<Longrightarrow> Issued t c \<in> set (trace w3) \<Longrightarrow> f_method c = ''GET''"
  using viewer_offers_nothing [OF assms(1,2)]
    limits.sends_only [OF new_pages(1), of ss w1 t c] usage.sends_only [OF TrueI, of ss new_usage_page w2 t c]
    services.sends_only [OF new_pages(2), of ss w3 t c]
  by (auto simp: limits_may_def usage_may_def services_may_def page_call_def)

text \<open>
  C28. While the editor is open on a row of the table, it addresses that row: after any events that neither choose
  another row nor close it, saving sends one update with the key and the configuration identifier of the row, as
  its key fields are disabled.
\<close>

theorem edit_addresses_chosen_row:
  assumes "lp_editing st = None" "\<not> isNew r" "own r ''limit_value'' = JNum n" "list_all stays_open evs"
  shows "\<exists>st' k b. limits_serve ss (In_the_editor Click_save) (after_events ss evs (setEditing (Some r) st))
      = (st', Await (req_fetch (ui_csrf ss) ''PUT'' ''/limits'' (Some (JObj b))) k)
    \<and> own b ''config_id'' = own r ''config_id'' \<and> (\<forall>f. own b (field_name f) = own r (field_name f))"
proof (rule saving_edits [OF edits_events [OF _ assms(2,4)] assms(2)])
  show "edits r (setEditing (Some r) st)"
    using assms(1,3) by (simp add: edits_def setEditing_def new_editor_def)
qed

theorem edit_addresses_chosen_row_witness:
  "\<exists>st' k b. limits_serve (granted ''operator'') (In_the_editor Click_save)
       (after_events (granted ''operator'')
         [In_the_editor (In_key F_customer_id ''other''), In_the_editor (In_limit ''9''), In_service ''x'', Click_search]
         (setEditing (Some [(''config_id'', JNum (Fin 1)), (''customer_id'', JStr ''c''), (''limit_value'', JNum (Fin 5))])
           new_limits_page))
     = (st', Await (req_fetch ''t'' ''PUT'' ''/limits'' (Some (JObj b))) k) \<and> own b ''customer_id'' = JStr ''c''"
proof -
  let ?r = "[(''config_id'', JNum (Fin 1)), (''customer_id'', JStr ''c''), (''limit_value'', JNum (Fin 5))]"
  have "lp_editing new_limits_page = None" "\<not> isNew ?r" "own ?r ''limit_value'' = JNum (Fin 5)"
    "ui_csrf (granted ''operator'') = ''t''" "own ?r (field_name F_customer_id) = JStr ''c''"
    by (simp_all add: new_limits_page_def isNew_def own_def granted_def apply_session_def csrf_text_def prop_opt_def nullish_def)
  with edit_addresses_chosen_row [of new_limits_page ?r "Fin 5"
      "[In_the_editor (In_key F_customer_id ''other''), In_the_editor (In_limit ''9''), In_service ''x'', Click_search]"
      "granted ''operator''"]
  show ?thesis by (metis (no_types) field_name.simps(2) list.pred_inject stays_open.simps)
qed

end
