(* ===== verification/Console_Shell.thy ===== *)
theory Console_Shell
  imports Console_Session
begin

text \<open>
  The shell of \<^verbatim>\<open>frontend/src/App.tsx\<close>: the gate of the login, the tabs and the page below them. Its own
  states are the chosen tab and the name typed into the login form; the session is the one of the provider.
\<close>

section \<open>Zooming\<close>

text \<open>A piece that works on one part of a state, as a piece that works on the whole.\<close>

primrec zoom :: "('s \<Rightarrow> 't) \<Rightarrow> ('t \<Rightarrow> 's \<Rightarrow> 's) \<Rightarrow> ('c, 'r, 't, 'v) act \<Rightarrow> ('c, 'r, 's, 'v) act" where
  "zoom get put (Respond v) = Respond v"
| "zoom get put (Throw e) = Throw e"
| "zoom get put (Await c k) =
     Await c (\<lambda>r s. map_prod (\<lambda>t. put t s) (zoom get put) (k r (get s)))"

definition zoomed ::
  "('s \<Rightarrow> 't) \<Rightarrow> ('t \<Rightarrow> 's \<Rightarrow> 's) \<Rightarrow> ('t \<Rightarrow> 't \<times> ('c, 'r, 't, 'v) act) \<Rightarrow> 's \<Rightarrow> 's \<times> ('c, 'r, 's, 'v) act" where
  "zoomed get put f s = map_prod (\<lambda>t. put t s) (zoom get put) (f (get s))"

text \<open>What the part keeps to, the whole keeps to, and the rest of it stays as it is.\<close>

locale part =
  fixes get :: "'s \<Rightarrow> 't" and put :: "'t \<Rightarrow> 's \<Rightarrow> 's"
  assumes get_put: "get (put t s) = t"
begin

lemma conforms_zoom:
  "conforms may pre guar a \<Longrightarrow>
     conforms may (\<lambda>s. pre (get s)) (\<lambda>c r s s'. guar c r (get s) (get s') \<and> (\<exists>t. s' = put t s)) (zoom get put a)"
proof (induction rule: conforms.induct)
  case (Await c k)
  then show ?case by (auto simp: conforms_Await get_put)
qed simp_all

end

section \<open>The shell\<close>

record Shell =
  sh_session :: SessionState
  sh_tab :: Tab
  sh_devUser :: string

definition new_shell :: Shell where
  "new_shell = \<lparr>sh_session = new_session_state, sh_tab = T_limits, sh_devUser = ''alice''\<rparr>"

datatype ShellEvent =
    Sh_mounted
  | Sh_user string
  | Sh_sign_in
  | Sh_tab Tab
  | Sh_sign_out

abbreviation put_session :: "SessionState \<Rightarrow> Shell \<Rightarrow> Shell" where
  "put_session t s \<equiv> s\<lparr>sh_session := t\<rparr>"

interpretation session_part: part sh_session put_session
  by unfold_locales simp

definition shell_offered :: "Shell \<Rightarrow> ShellEvent \<Rightarrow> bool" where
  "shell_offered st ev \<longleftrightarrow>
     (case (ev, App_screen (sh_session st) (sh_tab st)) of
        (Sh_mounted, _) \<Rightarrow> True
      | (Sh_user u, Sign_in) \<Rightarrow> True
      | (Sh_sign_in, Sign_in) \<Rightarrow> True
      | (Sh_tab t, Page t' tabs) \<Rightarrow> t \<in> set tabs
      | (Sh_sign_out, Page t' tabs) \<Rightarrow> True
      | _ \<Rightarrow> False)"

fun shell_handle :: "ShellEvent \<Rightarrow> Shell \<Rightarrow> Shell \<times> Shell ui_act" where
  "shell_handle Sh_mounted st = zoomed sh_session put_session load_session st"
| "shell_handle (Sh_user u) st = settled (st\<lparr>sh_devUser := u\<rparr>)"
| "shell_handle Sh_sign_in st = zoomed sh_session put_session (ui_login (sh_devUser st)) st"
| "shell_handle (Sh_tab t) st = settled (st\<lparr>sh_tab := t\<rparr>)"
| "shell_handle Sh_sign_out st = zoomed sh_session put_session ui_logout st"

definition shell_serve :: "ShellEvent \<Rightarrow> Shell \<Rightarrow> Shell \<times> Shell ui_act" where
  "shell_serve ev st = (if shell_offered st ev then shell_handle ev st else settled st)"

section \<open>The session in the shell\<close>

abbreviation shell_keeps :: "Fetch \<Rightarrow> fetch_result \<Rightarrow> Shell \<Rightarrow> Shell \<Rightarrow> bool" where
  "shell_keeps c r s s' \<equiv> keeps_token c r (sh_session s) (sh_session s') \<and> (\<exists>t. s' = put_session t s)"

lemma zoomed_session:
  "fst (zoomed sh_session put_session (session_serve q) st) = st
   \<and> conforms (\<lambda>_. True) (\<lambda>_. True) shell_keeps (snd (zoomed sh_session put_session (session_serve q) st))"
  using session_serve_conforms [of q "sh_session st"]
    session_part.conforms_zoom [of "\<lambda>_. True" "\<lambda>_. True" keeps_token "snd (session_serve q (sh_session st))"]
  by (simp add: zoomed_def)

lemma shell_serve_conforms:
  "sh_session (fst (shell_serve ev st)) = sh_session st
   \<and> conforms (\<lambda>_. True) (\<lambda>_. True) shell_keeps (snd (shell_serve ev st))"
  using zoomed_session [of Mounted st] zoomed_session [of "Clicked_login (sh_devUser st)" st]
    zoomed_session [of Clicked_logout st]
  by (cases ev) (auto simp: shell_serve_def settled_def)

interpretation shell: licensed_server shell_serve "\<lambda>_ _. False" "\<lambda>st. token_ok (sh_session st)"
  "\<lambda>_ may pre. may = (\<lambda>_. True) \<and> pre = (\<lambda>_. True)" shell_keeps
proof (unfold_locales, goal_cases)
  case (1 st ev st' a)
  then show ?case using shell_serve_conforms [of ev st] by simp
qed auto

lemma shell_token:
  "reachable shell_serve (\<lambda>_ _. False) new_shell w \<Longrightarrow> ui_csrf (sh_session (store w)) = csrf_text (ui_session (sh_session (store w)))"
  using shell.reachable_inv [of new_shell w] by (simp add: new_shell_def token_ok_def [symmetric])

section \<open>Properties\<close>

text \<open>A session response with one grant.\<close>

definition signed_in :: "string \<Rightarrow> fetch_result" where
  "signed_in r = Inr \<lparr>fr_status = 200, fr_parsed = Inr (JObj [(''grants'', JArr [JObj [(''role'', JStr r)]]),
     (''csrf_token'', JStr ''t'')])\<rparr>"

definition change_of_user :: "(ShellEvent, fetch_result) cue list" where
  "change_of_user =
     [Input Sh_mounted, Reply 0 (Inr \<lparr>fr_status = 401, fr_parsed = Inr JNull\<rparr>),
      Input Sh_sign_in, Reply 1 (signed_in ''operator''), Input (Sh_tab T_reviews),
      Input Sh_sign_out, Reply 3 (Inr \<lparr>fr_status = 200, fr_parsed = Inr JNull\<rparr>),
      Input (Sh_user ''vic''), Input Sh_sign_in, Reply 5 (signed_in ''viewer'')]"

text \<open>
  The chosen tab survives a logout: when an operator signs out on the reviews tab and a viewer signs in, the
  console shows the viewer the page of reviews, although it offers no tab for it.
\<close>

theorem tab_survives_logout:
  "\<exists>w tabs. reachable shell_serve (\<lambda>_ _. False) new_shell w
     \<and> App_screen (sh_session (store w)) (sh_tab (store w)) = Page T_reviews tabs \<and> T_reviews \<notin> set tabs"
proof (intro exI conjI)
  show "reachable shell_serve (\<lambda>_ _. False) new_shell (fold (play shell_serve) change_of_user (boot new_shell))"
    by (rule reachable_script [OF reachable.init])
  show "App_screen (sh_session (store (fold (play shell_serve) change_of_user (boot new_shell))))
      (sh_tab (store (fold (play shell_serve) change_of_user (boot new_shell))))
      = Page T_reviews [T_limits, T_services, T_usage, T_audit]"
    by code_simp
  show "T_reviews \<notin> set [T_limits, T_services, T_usage, T_audit]" by simp
qed

end
