(* ===== verification/Wire.thy ===== *)
theory Wire
  imports App Json
begin

text \<open>
  What travels from the server to the browser: the object each handler gives to \<^verbatim>\<open>res.json\<close>, and the
  value the browser's \<^verbatim>\<open>JSON.parse\<close> makes of its text. The first follows the object literals of \<^verbatim>\<open>bff/src\<close>,
  field by field and in their order.
\<close>

section \<open>Objects of the server\<close>

definition or_null :: "('a \<Rightarrow> jsv) \<Rightarrow> 'a option \<Rightarrow> jsv" where
  "or_null f x = (case x of None \<Rightarrow> JNull | Some y \<Rightarrow> f y)"

definition or_absent :: "('a \<Rightarrow> jsv) \<Rightarrow> 'a option \<Rightarrow> jsv" where
  "or_absent f x = (case x of None \<Rightarrow> JUndefined | Some y \<Rightarrow> f y)"

definition key_json :: "'a limit_key_scheme \<Rightarrow> (string \<times> jsv) list" where
  "key_json k =
     [(''service_name'', JStr (service_name k)), (''customer_id'', JStr (customer_id k)),
      (''rate_limit_id'', JStr (rate_limit_id k))]"

definition limit_json :: "LimitView \<Rightarrow> (string \<times> jsv) list" where
  "limit_json v =
     (''config_id'', or_null JNum (lv_config_id v)) # key_json (lv_key v)
     @ [(''limit_value'', JNum (lv_limit_value v)), (''time_unit'', JStr (lv_time_unit v)),
        (''is_default'', JBool (lv_is_default v))]"

definition service_json :: "ServiceView \<Rightarrow> jsv" where
  "service_json v =
     JObj [(''service_name'', JStr (svc_name v)), (''display_name'', JStr (display_name v)),
           (''owner'', JStr (owner v))]"

definition usage_json :: "UsageView \<Rightarrow> jsv" where
  "usage_json u =
     JObj (key_json (uv_key u)
       @ [(''configured'', JBool (uv_configured u)), (''limit'', or_null JNum (uv_limit u)),
          (''consumed'', JNum (uv_consumed u)), (''remaining'', JNum (uv_remaining u)),
          (''reset_at'', or_null JStr (uv_reset_at u)), (''fetched_at'', JStr (uv_fetched_at u))])"

definition audit_json :: "AuditView \<Rightarrow> jsv" where
  "audit_json a =
     JObj [(''audit_id'', JNum (av_audit_id a)), (''config_id'', JNum (av_config_id a)),
           (''operation'', JStr (av_operation a)), (''old_row'', av_old_row a), (''new_row'', av_new_row a),
           (''changed_by'', JStr (av_changed_by a)), (''changed_at'', or_null JStr (av_changed_at a))]"

definition refund_json :: "RefundResult \<Rightarrow> jsv" where
  "refund_json r =
     JObj [(''remaining'', JNum (rr_remaining r)), (''limit'', JNum (rr_limit r)),
           (''reset_at'', or_null JStr (rr_reset_at r)), (''request_id'', JStr (rr_request_id r))]"

fun op_json :: "PendingOp \<Rightarrow> jsv" where
  "op_json (PLimitUpdate k v u) =
     JObj ((''kind'', JStr ''limit:update'') # key_json k @ [(''limit_value'', JNum v), (''time_unit'', JStr u)])"
| "op_json (PLimitDelete k) = JObj ((''kind'', JStr ''limit:delete'') # key_json k)"
| "op_json (PRefund k a) = JObj ((''kind'', JStr ''op:refund'') # key_json k @ [(''amount'', JNum a)])"
| "op_json (PReset k) = JObj ((''kind'', JStr ''op:reset'') # key_json k)"

definition review_json :: "Review \<Rightarrow> jsv" where
  "review_json r =
     JObj [(''id'', JStr (rid r)), (''op'', op_json (rop r)), (''reason'', JStr (reason r)),
           (''initiator'', JStr (initiator r)), (''status'', JStr (status_name (status r))),
           (''createdAt'', JStr (createdAt r)), (''decidedBy'', or_absent JStr (decidedBy r)),
           (''decidedAt'', or_absent JStr (decidedAt r))]"

text \<open>A deletion resolves to nothing.\<close>

fun result_json :: "op_result \<Rightarrow> jsv" where
  "result_json (Res_limit v) = JObj (limit_json v)"
| "result_json Res_none = JUndefined"
| "result_json (Res_refund r) = refund_json r"
| "result_json (Res_usage u) = usage_json u"

fun role_name :: "Role \<Rightarrow> string" where
  "role_name Viewer = ''viewer''"
| "role_name Service_editor = ''service-editor''"
| "role_name Operator = ''operator''"
| "role_name Admin = ''admin''"

definition grant_json :: "Grant \<Rightarrow> jsv" where
  "grant_json g =
     JObj ((''role'', JStr (role_name (role g)))
           # (case service g of None \<Rightarrow> [] | Some s \<Rightarrow> [(''service'', JStr s)]))"

definition session_json :: "SessionPayload \<Rightarrow> jsv" where
  "session_json p =
     JObj [(''user'', JObj [(''id'', JStr (sp_id p)), (''email'', JStr (sp_email p))]),
           (''grants'', JArr (map grant_json (sp_grants p))),
           (''editable_services'', JArr (map JStr (sp_editable p))),
           (''csrf_token'', JStr (sp_csrf p))]"

fun target_json :: "log_target \<Rightarrow> jsv" where
  "target_json (Target_key k) = JObj (key_json k)"
| "target_json (Target_service n) = JObj [(''service_name'', JStr n)]"

fun details_json :: "log_details \<Rightarrow> jsv" where
  "details_json (Detail_limit v u) = JObj [(''limit_value'', JNum v), (''time_unit'', JStr u)]"
| "details_json (Detail_amount a) = JObj [(''amount'', JNum a)]"
| "details_json (Detail_refunded a) = JObj [(''refunded'', JNum a)]"
| "details_json (Detail_service n w) = JObj [(''display_name'', JStr n), (''owner'', JStr w)]"

text \<open>The order of the optional fields of an entry differs between the callers; nothing depends on it.\<close>

definition entry_json :: "ActionLogEntry \<Rightarrow> jsv" where
  "entry_json e =
     JObj [(''actor'', JStr (actor e)), (''action'', JStr (action e)), (''target'', target_json (target e)),
           (''details'', or_absent details_json (details e)), (''request_id'', or_absent JStr (request_id e)),
           (''initiator'', or_absent JStr (log_initiator e)), (''approver'', or_absent JStr (log_approver e)),
           (''seq'', JNum (num_of_int (int (seq e)))), (''at'', JStr (at_time e))]"

text \<open>The source has an arrow for the two characters after \<^verbatim>\<open>unconfigured\<close>.\<close>

definition UNCONFIGURED_NOTE :: string where
  "UNCONFIGURED_NOTE = ''unconfigured -> allow (fail-open, parent '' @ CHR 0xA7 # ''9)''"

text \<open>\<open>None\<close>: the body is not the text of an object (a file, or what Express says itself).\<close>

fun payload_json :: "Payload \<Rightarrow> jsv option" where
  "payload_json (P_error e) = Some (JObj [(''error'', JStr e)])"
| "payload_json (P_forbidden why) = Some (JObj [(''error'', JStr ''forbidden''), (''reason'', JStr why)])"
| "payload_json (P_errors es) = Some (JObj [(''errors'', JArr (map JStr es))])"
| "payload_json (P_rpc_error m c) =
     Some (JObj [(''error'', JStr m), (''grpc_code'', or_absent (\<lambda>i. JNum (num_of_int i)) c)])"
| "payload_json P_health = Some (JObj [(''status'', JStr ''ok'')])"
| "payload_json P_ok = Some (JObj [(''ok'', JBool True)])"
| "payload_json (P_session p) = Some (session_json p)"
| "payload_json (P_limits ls t) =
     Some (JObj [(''limits'', JArr (map (\<lambda>v. JObj (limit_json v)) ls)), (''next_page_token'', or_null JStr t)])"
| "payload_json (P_resolved v) = Some (JObj ((''configured'', JBool True) # limit_json v))"
| "payload_json (P_unconfigured k) =
     Some (JObj ((''configured'', JBool False) # (''note'', JStr UNCONFIGURED_NOTE) # key_json k))"
| "payload_json (P_limit v) = Some (JObj (limit_json v))"
| "payload_json (P_pending_review r) =
     Some (JObj [(''status'', JStr ''pending_review''), (''review'', review_json r)])"
| "payload_json P_empty = Some JUndefined"
| "payload_json (P_refund r) = Some (refund_json r)"
| "payload_json (P_usage u) = Some (usage_json u)"
| "payload_json (P_reviews rs) = Some (JObj [(''reviews'', JArr (map review_json rs))])"
| "payload_json (P_approved r res) =
     Some (JObj [(''status'', JStr ''approved''), (''review'', review_json r), (''result'', result_json res)])"
| "payload_json (P_rejected r) = Some (JObj [(''status'', JStr ''rejected''), (''review'', review_json r)])"
| "payload_json (P_services vs t) =
     Some (JObj [(''services'', JArr (map service_json vs)), (''next_page_token'', or_null JStr t)])"
| "payload_json (P_service v) = Some (service_json v)"
| "payload_json (P_audit es t) =
     Some (JObj [(''entries'', JArr (map audit_json es)), (''next_page_token'', or_null JStr t)])"
| "payload_json (P_history es) = Some (JObj [(''entries'', JArr (map audit_json es))])"
| "payload_json (P_actionlog es) = Some (JObj [(''entries'', JArr (map entry_json es))])"
| "payload_json P_static = None"
| "payload_json P_index = None"
| "payload_json P_express = None"

section \<open>What the browser reads\<close>

text \<open>
  \<^verbatim>\<open>JSON.parse(JSON.stringify(v))\<close>: an undefined property is left out, an undefined element and a number that
  is not finite become \<^verbatim>\<open>null\<close>. The text of a finite number is the shortest that denotes it, so it is read
  back as that number.
\<close>

fun received :: "jsv \<Rightarrow> jsv" where
  "received (JNum n) = (if num_isFinite n then JNum n else JNull)"
| "received (JArr xs) = JArr (map (\<lambda>x. if x = JUndefined then JNull else received x) xs)"
| "received (JObj ob) = JObj (concat (map (\<lambda>(k, v). if v = JUndefined then [] else [(k, received v)]) ob))"
| "received v = v"

lemma received_undefined [simp]: "received v = JUndefined \<longleftrightarrow> v = JUndefined"
  by (cases v) auto

text \<open>The value read has the text of the value sent; where the text determines the value it is that one.\<close>

lemma stringify_None_iff [simp]: "stringify v = None \<longleftrightarrow> v = JUndefined"
  by (cases v) auto

lemma stringify_received: "stringify (received v) = stringify v"
proof (induction v rule: received.induct)
  case (2 xs)
  then have "(case stringify (if x = JUndefined then JNull else received x) of None \<Rightarrow> ''null'' | Some t \<Rightarrow> t)
      = (case stringify x of None \<Rightarrow> ''null'' | Some t \<Rightarrow> t)" if "x \<in> set xs" for x using that by auto
  then show ?case by (simp add: comp_def cong: map_cong)
next
  case (3 ob)
  then have "\<forall>p \<in> set ob. snd p \<noteq> JUndefined \<longrightarrow> stringify (received (snd p)) = stringify (snd p)" by fastforce
  then have "concat (map (\<lambda>(k, v). case stringify v of None \<Rightarrow> [] | Some t \<Rightarrow> [quote k @ '':'' @ t])
      (concat (map (\<lambda>(k, v). if v = JUndefined then [] else [(k, received v)]) ob)))
      = concat (map (\<lambda>(k, v). case stringify v of None \<Rightarrow> [] | Some t \<Rightarrow> [quote k @ '':'' @ t]) ob)"
    by (induction ob) auto
  then show ?case by simp
qed auto

lemma received_exact: "exact v \<Longrightarrow> received v = v"
proof (induction v rule: received.induct)
  case (1 n)
  then show ?case by (cases n) (simp_all add: num_isFinite_def)
next
  case (2 xs)
  then have "(if x = JUndefined then JNull else received x) = x" if "x \<in> set xs" for x using that by auto
  then show ?case by (simp add: map_idI)
next
  case (3 ob)
  then have "\<forall>p \<in> set ob. snd p \<noteq> JUndefined \<and> received (snd p) = snd p" by fastforce
  then have "concat (map (\<lambda>(k, v). if v = JUndefined then [] else [(k, received v)]) ob) = ob"
    by (induction ob) auto
  then show ?case by simp
qed auto

text \<open>The fields of an object that was received.\<close>

lemma own_received:
  assumes "distinct (map fst ob)"
  shows "own (concat (map (\<lambda>(k, v). if v = JUndefined then [] else [(k, received v)]) ob)) k = received (own ob k)"
  using assms
proof (induction ob)
  case (Cons p ob)
  then have "fst p \<notin> set (map fst ob)" by simp
  then have "map_get (concat (map (\<lambda>(k, v). if v = JUndefined then [] else [(k, received v)]) ob)) (fst p) = None"
    by (induction ob) auto
  with Cons show ?case by (cases p) (auto simp: own_def)
qed (simp add: own_def)

end
