(* ===== verification/Console_Server.thy ===== *)
theory Console_Server
  imports Dev_Server Console_Contract Console_Shell Wire
begin

text \<open>
  The console against the server: its requests reach the routes they are meant for, what its editor sends
  passes the server's validation, and what it lets a user do is what the server allows.
\<close>

section \<open>From a fetch to a request\<close>

definition method_of :: "string \<Rightarrow> Method" where
  "method_of m =
     (if m = ''GET'' then GET else if m = ''POST'' then POST else if m = ''PUT'' then PUT
      else if m = ''DELETE'' then DELETE else OTHER m)"

text \<open>A browser resolves the segments \<^verbatim>\<open>.\<close> and \<^verbatim>\<open>..\<close> of a path before it sends it.\<close>

fun remove_dots :: "string list \<Rightarrow> string list \<Rightarrow> string list" where
  "remove_dots acc [] = rev acc"
| "remove_dots acc (x # xs) =
     (if x = ''..'' then remove_dots (if xs = [] then [] # tl acc else tl acc) xs
      else if x = ''.'' then remove_dots (if xs = [] then [] # acc else acc) xs
      else remove_dots (x # acc) xs)"

definition segments :: "string \<Rightarrow> string list" where
  "segments url = remove_dots [] (tl (split_at (CHR ''/'') (takeWhile (\<lambda>c. c \<noteq> CHR ''?'') url)))"

text \<open>The request the server finds: \<open>query\<close> and body as its parsers deliver them.\<close>

definition deliver :: "(string \<times> jsv) list \<Rightarrow> jsv \<Rightarrow> jsv \<Rightarrow> Fetch \<Rightarrow> Request" where
  "deliver ck q bd f =
     \<lparr>meth = method_of (f_method f), path = segments (f_url f), query = q, body = Inr bd, cookies = ck,
      headers = f_headers f\<rparr>"

text \<open>The handler each function of the client is meant for.\<close>

fun route_of :: "Platform \<Rightarrow> ApiCall \<Rightarrow> handler" where
  "route_of pl (A_listLimits p) = get_limits"
| "route_of pl (A_resolveLimit k) = get_resolve"
| "route_of pl (A_createLimit b) = post_limits"
| "route_of pl (A_updateLimit b) = put_limits"
| "route_of pl (A_deleteLimit b) = delete_limits"
| "route_of pl A_listServices = get_services"
| "route_of pl (A_createService b) = post_services"
| "route_of pl (A_updateService name b) = param_route pl put_service (encodeURIComponent name)"
| "route_of pl (A_getUsage k) = get_usage"
| "route_of pl (A_refund b) = post_refund"
| "route_of pl (A_reset k) = post_reset"
| "route_of pl (A_listAudit p) = get_audit"
| "route_of pl A_listReviews = get_reviews"
| "route_of pl (A_approveReview i) = param_route pl post_approve i"
| "route_of pl (A_rejectReview i) = param_route pl post_reject i"
| "route_of pl _ = session_route"

definition plain_segment :: "string \<Rightarrow> bool" where
  "plain_segment x \<longleftrightarrow> x \<notin> {[], ''.'', ''..''} \<and> CHR ''/'' \<notin> set x \<and> CHR ''?'' \<notin> set x"

fun well_named :: "ApiCall \<Rightarrow> bool" where
  "well_named (A_updateService name b) = (encodeURIComponent name \<notin> {[], ''.'', ''..''})"
| "well_named (A_approveReview i) = plain_segment i"
| "well_named (A_rejectReview i) = plain_segment i"
| "well_named (A_login u) = False"
| "well_named A_logout = False"
| "well_named _ = True"

lemma alphanumeric_safe: "alphanumeric c \<Longrightarrow> c \<noteq> CHR ''/'' \<and> c \<noteq> CHR ''?''"
  by (auto simp: alphanumeric_def Let_def)

lemma component_byte_safe: "n < 256 \<Longrightarrow> c \<in> set (component_byte n) \<Longrightarrow> c \<noteq> CHR ''/'' \<and> c \<noteq> CHR ''?''"
proof -
  assume "n < 256" and c: "c \<in> set (component_byte n)"
  then have "alphanumeric (hex_upper (n div 16))" "alphanumeric (hex_upper (n mod 16))"
    using hex_digits by (simp_all add: less_mult_imp_div_less)
  then have "alphanumeric c \<or> c \<in> set ''-_.!~*()%'' \<or> c = CHR 0x27"
    using c by (auto simp: component_byte_def percent_def Let_def split: if_splits)
  then show ?thesis by (elim disjE) (use alphanumeric_safe in auto)
qed

lemma encoded_segment: "encodeURIComponent name \<notin> {[], ''.'', ''..''} \<Longrightarrow> plain_segment (encodeURIComponent name)"
  unfolding plain_segment_def encodeURIComponent_def by (auto dest!: utf8_bytes dest: component_byte_safe)

lemma takeWhile_segment: "plain_segment x \<Longrightarrow> takeWhile (\<lambda>c. c \<noteq> CHR ''?'') (x @ r) = x @ takeWhile (\<lambda>c. c \<noteq> CHR ''?'') r"
  by (rule takeWhile_append2) (auto simp: plain_segment_def)

lemma query_tail: "qs params = Inr q \<Longrightarrow> takeWhile (\<lambda>c. c \<noteq> CHR ''?'') q = []"
  by (auto simp: qs_def then_do_eq_Inr Let_def split: if_splits)

section \<open>The routes\<close>

lemma split_segment: "plain_segment x \<Longrightarrow> split_at (CHR ''/'') (x @ CHR ''/'' # r) = x # split_at (CHR ''/'') r"
  by (rule split_at_append) (simp add: plain_segment_def)

lemma split_last_segment: "plain_segment x \<Longrightarrow> split_at (CHR ''/'') x = [x]"
  by (rule split_at_single) (simp add: plain_segment_def)

text \<open>The path of each request.\<close>

fun api_path :: "ApiCall \<Rightarrow> string list" where
  "api_path (A_login u) = [''auth'', ''login'']"
| "api_path A_logout = [''auth'', ''logout'']"
| "api_path A_session = [''session'']"
| "api_path (A_listLimits p) = [''limits'']"
| "api_path (A_resolveLimit k) = [''limits'', ''resolve'']"
| "api_path (A_createLimit b) = [''limits'']"
| "api_path (A_updateLimit b) = [''limits'']"
| "api_path (A_deleteLimit b) = [''limits'']"
| "api_path A_listServices = [''services'']"
| "api_path (A_createService b) = [''services'']"
| "api_path (A_updateService name b) = [''services'', encodeURIComponent name]"
| "api_path (A_getUsage k) = [''usage'']"
| "api_path (A_refund b) = [''ops'', ''refund'']"
| "api_path (A_reset k) = [''ops'', ''reset'']"
| "api_path (A_listAudit p) = [''audit'']"
| "api_path A_listReviews = [''reviews'']"
| "api_path (A_approveReview i) = [''reviews'', i, ''approve'']"
| "api_path (A_rejectReview i) = [''reviews'', i, ''reject'']"

lemma takeWhile_no_query: "CHR ''?'' \<notin> set x \<Longrightarrow> takeWhile (\<lambda>c. c \<noteq> CHR ''?'') x = x"
  by (auto simp: takeWhile_eq_all_conv)

lemma plain_segmentD:
  "plain_segment x \<Longrightarrow> x \<noteq> [] \<and> x \<noteq> ''.'' \<and> x \<noteq> ''..'' \<and> takeWhile (\<lambda>c. c \<noteq> CHR ''?'') x = x"
  by (simp add: plain_segment_def takeWhile_no_query)

lemma remove_dots_plain [simp]: "plain_segment x \<Longrightarrow> remove_dots acc (x # xs) = remove_dots (x # acc) xs"
  by (simp add: plain_segment_def)

lemma segments_update:
  "plain_segment x \<Longrightarrow> segments (''/api/services/'' @ x) = [''api'', ''services'', x]"
  by (simp add: segments_def split_last_segment plain_segmentD del: remove_dots.simps(2))
     (simp add: plain_segmentD)

lemma segments_review:
  assumes "plain_segment x"
  shows "segments (''/api/reviews/'' @ x @ ''/approve'') = [''api'', ''reviews'', x, ''approve'']"
    "segments (''/api/reviews/'' @ x @ ''/reject'') = [''api'', ''reviews'', x, ''reject'']"
  using assms by (simp_all add: segments_def takeWhile_segment split_segment plain_segmentD)

lemma segments_query:
  assumes "qs params = Inr q" "CHR ''?'' \<notin> set p" shows "segments (p @ q) = segments p"
proof -
  have "takeWhile (\<lambda>c. c \<noteq> CHR ''?'') (p @ q) = p"
    using assms(2) query_tail [OF assms(1)] by (subst takeWhile_append2) auto
  then show ?thesis unfolding segments_def by (simp only: takeWhile_no_query [OF assms(2)])
qed

lemma segments_endpoint:
  assumes "endpoint c = Inr (m, p, b)" "well_named c"
  shows "segments (''/api'' @ p) = ''api'' # api_path c"
proof -
  have query: "segments (''/api'' @ p) = segments (''/api'' @ p')" if "with_query p' ps = Inr (m, p, b)" "CHR ''?'' \<notin> set p'" for p' ps
    using that segments_query [of ps _ "''/api'' @ p'"] by (auto simp: with_query_def then_do_eq_Inr)
  show ?thesis
  proof (cases c)
    case (A_updateService name v)
    then show ?thesis using assms segments_update encoded_segment by auto
  next
    case (A_listLimits ps)
    then show ?thesis using assms query [of "''/limits''" ps] by (simp add: segments_def)
  next
    case (A_resolveLimit k)
    then show ?thesis using assms query [of "''/limits/resolve''" "key_object k"] by (simp add: segments_def)
  next
    case (A_getUsage k)
    then show ?thesis using assms query [of "''/usage''" "key_object k"] by (simp add: segments_def)
  next
    case (A_listAudit ps)
    then show ?thesis using assms query [of "''/audit''" ps] by (simp add: segments_def)
  next
    case (A_approveReview i)
    then show ?thesis using assms segments_review by auto
  next
    case (A_rejectReview i)
    then show ?thesis using assms segments_review by auto
  qed (use assms in \<open>auto simp: segments_def\<close>)
qed

text \<open>The method of each request.\<close>

fun api_method :: "ApiCall \<Rightarrow> Method" where
  "api_method (A_login u) = POST"
| "api_method A_logout = POST"
| "api_method (A_createLimit b) = POST"
| "api_method (A_updateLimit b) = PUT"
| "api_method (A_deleteLimit b) = DELETE"
| "api_method (A_createService b) = POST"
| "api_method (A_updateService name b) = PUT"
| "api_method (A_refund b) = POST"
| "api_method (A_reset k) = POST"
| "api_method (A_approveReview i) = POST"
| "api_method (A_rejectReview i) = POST"
| "api_method _ = GET"

lemma method_endpoint: "endpoint c = Inr (m, p, b) \<Longrightarrow> method_of m = api_method c \<and> (m = ''GET'') = (api_method c = GET)"
  by (cases c) (auto simp: method_of_def with_query_def then_do_eq_Inr)

lemma route_endpoint:
  assumes "well_named c"
  shows "api_route pl (api_method c) (api_path c) = Some (route_of pl c)"
proof (cases c)
  case (A_updateService name v)
  then have "encodeURIComponent name \<noteq> []" using assms by simp
  then show ?thesis using A_updateService by (simp add: api_route_def path_eval)
next
  case (A_approveReview i)
  then have "i \<noteq> []" using assms by (simp add: plain_segment_def)
  then show ?thesis using A_approveReview by (simp add: api_route_def path_eval)
next
  case (A_rejectReview i)
  then have "i \<noteq> []" using assms by (simp add: plain_segment_def)
  then show ?thesis using A_rejectReview by (simp add: api_route_def path_eval)
qed (use assms in \<open>simp_all add: api_route_def path_eval\<close>)

lemma not_auth_path:
  assumes "well_named c"
  shows "\<not> (api_method c = POST \<and> is_path [''api'', ''auth'', ''login''] (''api'' # api_path c))"
    "\<not> (api_method c = POST \<and> is_path [''api'', ''auth'', ''logout''] (''api'' # api_path c))"
    "\<not> is_path [''healthz''] (''api'' # api_path c)"
  using assms by (cases c; simp add: path_eval)+

lemma client_call_routed:
  assumes "endpoint c = Inr (m, p, b)" "well_named c"
    and "attachSession (deliver ck q bd (req_fetch token m p b)) s = Some sess"
    and "token = csrfToken sess" "csrfToken sess \<noteq> []"
  shows "serve pl d (deliver ck q bd (req_fetch token m p b)) s
    = route_of pl c d (deliver ck q bd (req_fetch token m p b)) bd sess s"
proof -
  let ?req = "deliver ck q bd (req_fetch token m p b)"
  have r: "meth ?req = api_method c" "path ?req = ''api'' # api_path c" "body ?req = Inr bd"
    using method_endpoint [OF assms(1)] segments_endpoint [OF assms(1,2)]
    by (simp_all add: deliver_def req_fetch_def)
  have "state_changing (api_method c) \<longrightarrow> csrf_passes ?req (Some sess)"
    using method_endpoint [OF assms(1)] assms(4,5)
    by (auto simp: csrf_passes_def deliver_def req_fetch_def CSRF_HEADER_def state_changing_def)
  then have "api pl d ?req bd (Some sess) (api_path c) s = route_of pl c d ?req bd sess s"
    using route_endpoint [OF assms(2), of pl] by (auto simp: api_def requireAuth_def requireCsrf_def r)
  moreover have "is_segment ''api'' ''api''" by (simp add: path_eval)
  ultimately show ?thesis
    using not_auth_path [OF assms(2)] assms(3) by (auto simp: serve_def r Let_def)
qed

section \<open>Properties\<close>



text \<open>The form of the editor for a row the server sent.\<close>

definition limit_form :: "jsv \<Rightarrow> limit_key \<Rightarrow> int \<Rightarrow> string \<Rightarrow> bool \<Rightarrow> obj" where
  "limit_form cid lk n u dflt =
     [(''config_id'', cid), (''service_name'', JStr (service_name lk)), (''customer_id'', JStr (customer_id lk)),
      (''rate_limit_id'', JStr (rate_limit_id lk)), (''limit_value'', JNum (num_of_int n)), (''time_unit'', JStr u),
      (''is_default'', JBool dflt)]"

lemma limit_form_valid:
  assumes "service_name lk \<noteq> []" "customer_id lk \<noteq> []" "rate_limit_id lk \<noteq> []" "u \<in> set UNITS" "0 \<le> n"
  shows "validateLimit (JObj (limit_form cid lk n u dflt)) = Inr (Valid \<lparr>service_name = service_name lk,
      customer_id = customer_id lk, rate_limit_id = rate_limit_id lk, limit_value = num_of_int n, time_unit = u\<rparr>)"
proof -
  have "limit_value_errors (JNum (num_of_int n)) = []" using assms(5) limit_value_errors_Nil by blast
  moreover have "JStr u \<in> set (map JStr TIME_UNITS)" using assms(4) by (auto simp: UNITS_def TIME_UNITS_def)
  ultimately show ?thesis using assms(1-3)
    by (simp add: validateLimit_def limit_form_def prop_opt_def own_def isNonEmptyString_def require_def as_number_def)
qed

lemma limit_form_exact: "exact cid \<Longrightarrow> 0 \<le> n \<Longrightarrow> n \<le> 2 ^ 53 \<Longrightarrow> exact (JObj (limit_form cid lk n u dflt))"
  by (simp add: limit_form_def)

lemma limit_form_number [simp]:
  "own (limit_form cid lk n u dflt) ''limit_value'' = JNum (num_of_int n)"
  "map_set ''limit_value'' (JNum (num_of_int n)) (limit_form cid lk n u dflt) = limit_form cid lk n u dflt"
  by (simp_all add: limit_form_def own_def)

text \<open>A creation in the editor: what is sent, and what becomes of the page.\<close>

lemma create_click:
  assumes "lp_editing st = Some initial" "isNew initial" "ed_form (lp_editor st) = limit_form JNull lk n u dflt"
  obtains st' k where "limits_serve ss (In_the_editor Click_save) st
      = (st', Await (req_fetch (ui_csrf ss) ''POST'' ''/limits'' (Some (JObj (limit_form JNull lk n u dflt)))) k)"
    "lp_editing st' = Some initial" "lp_mounted st' = lp_mounted st"
    "\<And>v later. lp_editing (fst (k (Inr \<lparr>fr_status = 201, fr_parsed = Inr v\<rparr>) later)) = None"
    "\<And>t rest. fst (k (Inr \<lparr>fr_status = 409, fr_parsed = Inr (JObj ((''error'', JStr t) # rest))\<rparr>) st')
       = in_editor (lp_mounted st) (ed_error_update (\<lambda>_. Some (ApiError 409 t (JObj ((''error'', JStr t) # rest))))) st'"
proof -
  define st' where "st' = in_editor (lp_mounted st) (\<lambda>e. e\<lparr>ed_error := None, ed_notice := None\<rparr>) st"
  define k where "k = (\<lambda>r s'. case req_result r of Inl e \<Rightarrow> editor_failed (lp_mounted st) e s' | Inr v \<Rightarrow> saved (lp_filters st) s')"
  have "limits_serve ss (In_the_editor Click_save) st
      = (st', Await (req_fetch (ui_csrf ss) ''POST'' ''/limits'' (Some (JObj (limit_form JNull lk n u dflt)))) k)"
    using assms unfolding st'_def k_def
    by (simp add: limits_serve_def limits_offered_def editor_offered_def save_def attempt_def ask_def Let_def)
  moreover have "lp_editing st' = Some initial" "lp_mounted st' = lp_mounted st"
    using assms(1) by (simp_all add: st'_def in_editor_def)
  moreover have "lp_editing (fst (k (Inr \<lparr>fr_status = 201, fr_parsed = Inr v\<rparr>) later)) = None" for v later
    by (auto simp: k_def req_result_def saved_def limits_search_def limits_failed_def ask_def setEditing_def
        settled_def Let_def split: option.splits sum.splits)
  moreover have "fst (k (Inr \<lparr>fr_status = 409, fr_parsed = Inr (JObj ((''error'', JStr t) # rest))\<rparr>) st')
      = in_editor (lp_mounted st) (ed_error_update (\<lambda>_. Some (ApiError 409 t (JObj ((''error'', JStr t) # rest))))) st'" for t rest
    by (simp add: k_def req_result_def failure_message_def prop_opt_def own_def nullish_def editor_failed_def settled_def Let_def)
  ultimately show ?thesis by (rule that)
qed

lemma create_request_served:
  assumes "service_name lk \<noteq> []" "customer_id lk \<noteq> []" "rate_limit_id lk \<noteq> []" "u \<in> set UNITS" "0 \<le> n"
    and "csrfToken sess \<noteq> []" "session_get (own ck SESSION_COOKIE) (sessions s) = Some sess"
    and "authorize (session_user s sess) Limit_write (Some (service_name lk)) (policy d) = Authz_ok"
    and "b = JObj (limit_form JNull lk n u dflt)"
  shows "serve pl d (deliver ck q b (req_fetch (csrfToken sess) ''POST'' ''/limits'' (Some b))) s
    = createLimit d (opContext s sess) \<lparr>service_name = service_name lk, customer_id = customer_id lk,
        rate_limit_id = rate_limit_id lk, limit_value = num_of_int n, time_unit = u\<rparr> (\<lambda>l. respond 201 (P_limit l)) s"
proof -
  let ?f = "req_fetch (csrfToken sess) ''POST'' ''/limits'' (Some b)"
  have "attachSession (deliver ck q b ?f) s = Some sess" using assms(7) by (simp add: attachSession_def deliver_def)
  then have "serve pl d (deliver ck q b ?f) s = post_limits d (deliver ck q b ?f) b sess s"
    using client_call_routed [of "A_createLimit b" "''POST''" "''/limits''" "Some b"] assms(6) by simp
  then show ?thesis using limit_form_valid [OF assms(1-5), of JNull dflt] assms(8,9)
    by (simp add: post_limits_def with_valid_def guard_def)
qed

text \<open>
  From the editor to the server: when a form with a complete key, a unit of the three and a limit that
  is an integer from 0 to 2 to the 53 is saved, the text sent denotes one value only, and this value passes the
  server's validation as exactly the limit in the form.
\<close>

theorem saved_limit_is_accepted:
  assumes "ed_form (lp_editor st) = limit_form cid lk n u dflt" "exact cid"
    and "service_name lk \<noteq> []" "customer_id lk \<noteq> []" "rate_limit_id lk \<noteq> []"
    and "u \<in> set UNITS" "0 \<le> n" "n \<le> 2 ^ 53"
    and "save token initial st = (st', Await f k)" "exact bd" "f_body f = stringify bd"
  shows "validateLimit bd = Inr (Valid \<lparr>service_name = service_name lk, customer_id = customer_id lk,
      rate_limit_id = rate_limit_id lk, limit_value = num_of_int n, time_unit = u\<rparr>)"
proof -
  let ?b = "JObj (limit_form cid lk n u dflt)"
  have "f_body f = stringify ?b"
    using assms(1,9) by (auto simp: save_def attempt_def ask_def req_fetch_def Let_def split: if_splits)
  then have "bd = ?b" using assms(10,11) limit_form_exact [OF assms(2,7,8)] stringify_inject by metis
  then show ?thesis using limit_form_valid [OF assms(3-7)] by simp
qed

theorem saved_limit_is_accepted_witness:
  "validateLimit (JObj (limit_form (JNum (Fin 1)) (mkkey ''s'' ''*'' ''l'') 7 ''DAY'' True))
     = Inr (Valid \<lparr>service_name = ''s'', customer_id = ''*'', rate_limit_id = ''l'',
                    limit_value = num_of_int 7, time_unit = ''DAY''\<rparr>)"
proof -
  let ?lk = "mkkey ''s'' ''*'' ''l''"
  let ?row = "limit_form (JNum (Fin 1)) ?lk 7 ''DAY'' True"
  let ?st = "\<lparr>lp_filters = \<lparr>fl_service = ''s'', fl_customer = [], fl_rlid = [], fl_kind = K_all\<rparr>, lp_limits = JArr [],
    lp_effective = JNull, lp_error = None, lp_editing = Some ?row, lp_editor = new_editor ?row, lp_mounted = 1\<rparr>"
  obtain st' f k where s: "save ''t'' ?row ?st = (st', Await f k)" "f_body f = stringify (JObj ?row)"
    by (simp add: save_def attempt_def ask_def isNew_def limit_form_def own_def new_editor_def req_fetch_def Let_def)
  have "ed_form (lp_editor ?st) = ?row" by (simp add: new_editor_def)
  moreover have "exact (JObj ?row)" by (simp add: limit_form_def)
  ultimately show ?thesis
    using saved_limit_is_accepted [OF _ _ _ _ _ _ _ _ s(1) _ s(2), of "JNum (Fin 1)" ?lk 7 "''DAY''" True]
    by (auto simp: mkkey_def UNITS_def)
qed

section \<open>What the console offers\<close>

lemma role_round_trip [simp]: "role_of (role_name r) = Some r"
  by (cases r) (simp_all add: role_of_def)

lemma grant_round_trip [simp]: "grant_of (grant_json g) = Some g"
  by (cases g) (simp add: grant_of_def grant_json_def prop_opt_def own_def split: option.splits)

lemma those_map_Some: "those (map Some xs) = Some xs"
  by (induction xs) auto

lemma grants_round_trip: "grants_of (session_json p) = Some (sp_grants p)"
  by (simp add: grants_of_def session_json_def prop_opt_def own_def comp_def those_map_Some)

text \<open>The console just after a login or a reload.\<close>

abbreviation console_of :: "bff \<Rightarrow> Session \<Rightarrow> SessionState \<Rightarrow> SessionState" where
  "console_of s sess st \<equiv> apply_session (session_json (sessionPayload s sess)) st"

lemma token_after_login: "ui_csrf (console_of s sess st) = csrfToken sess"
  by (simp add: apply_session_def csrf_text_def sessionPayload_def Let_def)
     (simp add: session_json_def prop_opt_def own_def nullish_def)

lemma can_after_login:
  assumes "svc \<noteq> []" "cap \<noteq> Observability_read"
  shows "can (console_of s sess st) cap (Some svc)
    = Some (authorize (session_user s sess) cap (Some svc) DEFAULT_POLICY = Authz_ok)"
proof -
  have "canDo gs cap (Some svc) None = canDo gs cap (Some svc) (Some (allowServiceEditorCreateService DEFAULT_POLICY))" for gs
    by (simp add: canDo_def DEFAULT_POLICY_def split: Capability.splits)
  then have "canDo (grants u) cap (Some svc) None \<longleftrightarrow> authorize u cap (Some svc) DEFAULT_POLICY = Authz_ok" for u
    using canDo_mirrors [OF assms] by simp
  then show ?thesis
    by (simp add: apply_session_def can_def grants_round_trip sessionPayload_def Let_def) (simp add: session_json_def)
qed

text \<open>The controls of the pages: a row has its button exactly when the server would let the user change it.\<close>

lemma edit_control_is_authorised:
  assumes "row_at (lp_limits st) i = Some (JObj l)" "own l ''service_name'' = JStr svc" "svc \<noteq> []"
  shows "limits_offered (console_of s sess ss) st (Click_edit i)
    \<longleftrightarrow> authorize (session_user s sess) Limit_write (Some svc) DEFAULT_POLICY = Authz_ok"
  using assms by (simp add: limits_offered_def offers_def can_after_login)

lemma manual_controls_are_authorised:
  assumes "truthy (up_usage st)" "prop_opt (up_usage st) ''service_name'' = JStr svc" "svc \<noteq> []"
  shows "usage_offered (console_of s sess ss) st (U_refund a)
      \<longleftrightarrow> authorize (session_user s sess) Op_refund (Some svc) DEFAULT_POLICY = Authz_ok"
    "usage_offered (console_of s sess ss) st (U_reset b)
      \<longleftrightarrow> authorize (session_user s sess) Op_reset (Some svc) DEFAULT_POLICY = Authz_ok"
  using assms by (simp_all add: usage_offered_def offers_def can_after_login)

text \<open>
  C25. After a login or a reload the console and the server agree: the token the console sends is the
  token of the session, and for every capability the console knows and every named service it offers an action
  exactly when the server authorises the session's user for it under the default policy.
\<close>

theorem console_agrees_with_server:
  assumes "svc \<noteq> []" "cap \<noteq> Observability_read"
  shows "let st' = apply_session (session_json (sessionPayload s sess)) st
    in ui_csrf st' = csrfToken sess
      \<and> can st' cap (Some svc)
        = Some (authorize (session_user s sess) cap (Some svc) DEFAULT_POLICY = Authz_ok)"
  using can_after_login [OF assms] token_after_login by (simp add: Let_def)

theorem console_agrees_with_server_witness:
  "can (apply_session (session_json (sessionPayload demo_state2 (demo_session 0 ''d0'' ''d1''))) new_session_state)
     Limit_write (Some ''search-svc'') = Some True"
proof -
  have "authorize (session_user demo_state2 (demo_session 0 ''d0'' ''d1'')) Limit_write (Some ''search-svc'') DEFAULT_POLICY = Authz_ok"
    by (simp add: demo_eval session_user_def user_at_def mock_users)
  then show ?thesis
    using console_agrees_with_server [of "''search-svc''" Limit_write demo_state2 "demo_session 0 ''d0'' ''d1''" new_session_state]
    by (simp add: Let_def)
qed

end
