(* ===== verification/Ts_Types.thy ===== *)
theory Ts_Types
  imports Wire Console_Api
begin

text \<open>
  The types the console declares for what it receives: \<^verbatim>\<open>frontend/src/types.ts\<close>, the type of a grant in
  \<^verbatim>\<open>frontend/src/util/rbac.ts\<close>, and the result types of the functions of \<^verbatim>\<open>frontend/src/api.ts\<close>. A type is a value
  of \<open>tstype\<close>, and a predicate says which values have it, as TypeScript's structural types do.
\<close>

section \<open>Types\<close>

datatype tstype =
    T_number
  | T_string
  | T_boolean
  | T_null
  | T_undefined
  | T_literal string
  | T_union "tstype list"
  | T_array tstype
  | T_record \<comment> \<open>\<^verbatim>\<open>Record<string, unknown>\<close>\<close>
  | T_object "(string \<times> bool \<times> tstype) list" \<comment> \<open>name, whether it is optional, type\<close>

fun has_type :: "tstype \<Rightarrow> jsv \<Rightarrow> bool" where
  "has_type T_number v = (case v of JNum n \<Rightarrow> True | _ \<Rightarrow> False)"
| "has_type T_string v = (case v of JStr t \<Rightarrow> True | _ \<Rightarrow> False)"
| "has_type T_boolean v = (case v of JBool b \<Rightarrow> True | _ \<Rightarrow> False)"
| "has_type T_null v = (v = JNull)"
| "has_type T_undefined v = (v = JUndefined)"
| "has_type (T_literal t) v = (v = JStr t)"
| "has_type (T_union ts) v = (\<exists>t \<in> set ts. has_type t v)"
| "has_type (T_array t) v = (case v of JArr xs \<Rightarrow> \<forall>x \<in> set xs. has_type t x | _ \<Rightarrow> False)"
| "has_type T_record v = (case v of JObj ob \<Rightarrow> True | _ \<Rightarrow> False)"
| "has_type (T_object fs) v =
     (case v of
        JObj ob \<Rightarrow> \<forall>f \<in> set fs. (fst (snd f) \<and> own ob (fst f) = JUndefined) \<or> has_type (snd (snd f)) (own ob (fst f))
      | _ \<Rightarrow> False)"

definition field :: "string \<Rightarrow> tstype \<Rightarrow> string \<times> bool \<times> tstype" where
  "field k t = (k, False, t)"

definition optional :: "string \<Rightarrow> tstype \<Rightarrow> string \<times> bool \<times> tstype" where
  "optional k t = (k, True, t)"

definition nullable :: "tstype \<Rightarrow> tstype" where
  "nullable t = T_union [t, T_null]"

section \<open>The declared types\<close>

definition ts_TimeUnit :: tstype where
  "ts_TimeUnit = T_union [T_literal ''MINUTE'', T_literal ''DAY'', T_literal ''MONTH'']"

definition ts_Role :: tstype where
  "ts_Role = T_union [T_literal ''viewer'', T_literal ''service-editor'', T_literal ''operator'', T_literal ''admin'']"

definition ts_Grant :: tstype where
  "ts_Grant = T_object [field ''role'' ts_Role, optional ''service'' T_string]"

definition ts_SessionInfo :: tstype where
  "ts_SessionInfo = T_object
     [field ''user'' (T_object [field ''id'' T_string, field ''email'' T_string]),
      field ''grants'' (T_array ts_Grant), field ''editable_services'' (T_array T_string),
      field ''csrf_token'' T_string]"

definition LimitView_fields :: "(string \<times> bool \<times> tstype) list" where
  "LimitView_fields =
     [field ''config_id'' (nullable T_number), field ''service_name'' T_string, field ''customer_id'' T_string,
      field ''rate_limit_id'' T_string, field ''limit_value'' T_number, field ''time_unit'' ts_TimeUnit,
      field ''is_default'' T_boolean]"

definition ts_LimitView :: tstype where
  "ts_LimitView = T_object LimitView_fields"

text \<open>\<^verbatim>\<open>extends Partial<LimitView>\<close>, with the fields of the key required again.\<close>

definition ts_ResolveView :: tstype where
  "ts_ResolveView = T_object
     (map (\<lambda>f. (fst f, True, snd (snd f))) LimitView_fields
      @ [field ''configured'' T_boolean, optional ''note'' T_string, field ''service_name'' T_string,
         field ''customer_id'' T_string, field ''rate_limit_id'' T_string])"

definition ts_ServiceView :: tstype where
  "ts_ServiceView = T_object
     [field ''service_name'' T_string, field ''display_name'' T_string, field ''owner'' T_string]"

definition ts_UsageView :: tstype where
  "ts_UsageView = T_object
     [field ''service_name'' T_string, field ''customer_id'' T_string, field ''rate_limit_id'' T_string,
      field ''configured'' T_boolean, field ''limit'' (nullable T_number), field ''consumed'' T_number,
      field ''remaining'' T_number, field ''reset_at'' (nullable T_string), field ''fetched_at'' T_string]"

definition ts_AuditView :: tstype where
  "ts_AuditView = T_object
     [field ''audit_id'' T_number, field ''config_id'' T_number, field ''operation'' T_string,
      field ''old_row'' (nullable T_record), field ''new_row'' (nullable T_record),
      field ''changed_by'' T_string, field ''changed_at'' (nullable T_string)]"

definition ts_Review :: tstype where
  "ts_Review = T_object
     [field ''id'' T_string, field ''op'' (T_object [field ''kind'' T_string]), field ''reason'' T_string,
      field ''initiator'' T_string,
      field ''status'' (T_union [T_literal ''pending'', T_literal ''approved'', T_literal ''rejected'']),
      field ''createdAt'' T_string]"

definition ts_PendingReview :: tstype where
  "ts_PendingReview = T_object [field ''status'' (T_literal ''pending_review''), field ''review'' ts_Review]"

text \<open>What the functions of the client resolve to.\<close>

definition ts_decided :: tstype where
  "ts_decided = T_object [field ''status'' T_string, field ''review'' ts_Review]"

fun ts_result :: "ApiCall \<Rightarrow> tstype" where
  "ts_result (A_login u) = ts_SessionInfo"
| "ts_result A_logout = T_object [field ''ok'' T_boolean]"
| "ts_result A_session = ts_SessionInfo"
| "ts_result (A_listLimits p) =
     T_object [field ''limits'' (T_array ts_LimitView), field ''next_page_token'' (nullable T_string)]"
| "ts_result (A_resolveLimit k) = ts_ResolveView"
| "ts_result (A_createLimit b) = ts_LimitView"
| "ts_result (A_updateLimit b) = T_union [ts_LimitView, ts_PendingReview]"
| "ts_result (A_deleteLimit b) = T_union [T_undefined, ts_PendingReview]"
| "ts_result A_listServices = T_object [field ''services'' (T_array ts_ServiceView)]"
| "ts_result (A_createService b) = ts_ServiceView"
| "ts_result (A_updateService n b) = ts_ServiceView"
| "ts_result (A_getUsage k) = ts_UsageView"
| "ts_result (A_refund b) =
     T_union [T_object [field ''remaining'' T_number, field ''limit'' T_number], ts_PendingReview]"
| "ts_result (A_reset k) = T_union [ts_UsageView, ts_PendingReview]"
| "ts_result (A_listAudit p) = T_object [field ''entries'' (T_array ts_AuditView)]"
| "ts_result A_listReviews = T_object [field ''reviews'' (T_array ts_Review)]"
| "ts_result (A_approveReview i) = ts_decided"
| "ts_result (A_rejectReview i) = ts_decided"

section \<open>What is received fits\<close>

text \<open>
  The declared types leave room for more fields, so it is said in addition that a value which claims to be a
  pending review is one. In the body of a failure \<^verbatim>\<open>req\<close> relies on a text \<^verbatim>\<open>error\<close>, or a list of texts \<^verbatim>\<open>errors\<close>.
\<close>

definition honest :: "jsv \<Rightarrow> bool" where
  "honest v \<longleftrightarrow> (isPending v \<longrightarrow> has_type ts_PendingReview v)"

definition tells_why :: "jsv \<Rightarrow> bool" where
  "tells_why v \<longleftrightarrow> (case prop_opt v ''error'' of
       JStr t \<Rightarrow> True
     | JUndefined \<Rightarrow> has_type (T_array T_string) (prop_opt v ''errors'')
     | _ \<Rightarrow> False)"

definition fits_value :: "tstype \<Rightarrow> nat \<Rightarrow> jsv \<Rightarrow> bool" where
  "fits_value t n v \<longleftrightarrow> (if 200 \<le> n \<and> n \<le> 299 then has_type t v \<and> honest v else tells_why v)"

lemmas ts_defs =
  field_def optional_def nullable_def ts_TimeUnit_def ts_Role_def ts_Grant_def ts_SessionInfo_def
  LimitView_fields_def ts_LimitView_def ts_ResolveView_def ts_ServiceView_def ts_UsageView_def ts_AuditView_def
  ts_Review_def ts_PendingReview_def ts_decided_def

end
