(* ===== verification/Typed_Routes.thy ===== *)
theory Typed_Routes
  imports Ts_Types
begin

text \<open>
  The responses of the server have the types the console declares. As long as the backends answer with the
  messages their protocol files declare, every route answers with a body of the declared type, or with a failure
  that carries its message where the console looks for it.
\<close>

section \<open>Replies of the backends\<close>

text \<open>
  What the loader makes of the messages: 64-bit integers are decimal text, enumerations are names. A limit
  that is stored has a unit.
\<close>

definition number_field :: "jsv \<Rightarrow> bool" where
  "number_field v = (case js_Number v of Inr n \<Rightarrow> num_isFinite n | Inl e \<Rightarrow> False)"

definition proper_limit :: "RawLimit \<Rightarrow> bool" where
  "proper_limit l \<longleftrightarrow> number_field (raw_limit_value l) \<and> number_field (raw_config_id l) \<and> raw_time_unit l \<in> set TIME_UNITS"

definition proper_usage :: "RawUsage \<Rightarrow> bool" where
  "proper_usage u \<longleftrightarrow> number_field (raw_consumed u) \<and> number_field (raw_remaining u) \<and> number_field (raw_limit u)"

definition proper_audit :: "RawAudit \<Rightarrow> bool" where
  "proper_audit e \<longleftrightarrow> number_field (raw_audit_id e) \<and> number_field (raw_audit_config_id e)"

fun answer_to :: "rpc_request \<Rightarrow> rpc_response \<Rightarrow> bool" where
  "answer_to (CreateLimit _ _ _) res = (case res of R_limit (Some l) \<Rightarrow> proper_limit l | _ \<Rightarrow> False)"
| "answer_to (UpdateLimit _ _ _ _) res = (case res of R_limit (Some l) \<Rightarrow> proper_limit l | _ \<Rightarrow> False)"
| "answer_to (DeleteLimit _ _) res = (res = R_empty)"
| "answer_to (GetLimit _ _) res = (case res of R_got_limit (Some l) b \<Rightarrow> proper_limit l | _ \<Rightarrow> False)"
| "answer_to (ListLimits _ _ _ _ _) res = (case res of R_limits (Some ls) t \<Rightarrow> list_all proper_limit ls | _ \<Rightarrow> False)"
| "answer_to (RegisterService _) res = (case res of R_service (Some v) \<Rightarrow> True | _ \<Rightarrow> False)"
| "answer_to (GetService _) res = (case res of R_service (Some v) \<Rightarrow> True | _ \<Rightarrow> False)"
| "answer_to (ListServices _ _) res = (case res of R_services (Some vs) t \<Rightarrow> True | _ \<Rightarrow> False)"
| "answer_to (ListAuditEntries _ _ _ _ _ _) res = (case res of R_audit (Some es) t \<Rightarrow> list_all proper_audit es | _ \<Rightarrow> False)"
| "answer_to (GetUsage _) res = (case res of R_usage u \<Rightarrow> proper_usage u | _ \<Rightarrow> False)"
| "answer_to (Refund _ _ _) res =
     (case res of R_refund r \<Rightarrow> number_field (ref_remaining r) \<and> number_field (ref_limit r) | _ \<Rightarrow> False)"

definition proper_reply :: "rpc_call \<Rightarrow> rpc_reply \<Rightarrow> bool" where
  "proper_reply c r = (case r of Inl e \<Rightarrow> True | Inr res \<Rightarrow> answer_to (request c) res)"

section \<open>What a handler answers in the end\<close>

inductive answers :: "(rpc_call \<Rightarrow> rpc_reply \<Rightarrow> bool) \<Rightarrow> (Response \<Rightarrow> bool) \<Rightarrow> bff_act \<Rightarrow> bool"
  for ok P where
  Respond: "P r \<Longrightarrow> answers ok P (Respond r)"
| Throw: "P (errorMiddleware e) \<Longrightarrow> answers ok P (Throw e)"
| Await: "(\<And>r s. ok c r \<Longrightarrow> answers ok P (snd (k r s))) \<Longrightarrow> answers ok P (Await c k)"

inductive_simps answers_simps [simp]:
  "answers ok P (Respond r)" "answers ok P (Throw e)" "answers ok P (Await c k)"

definition typed_answer :: "tstype \<Rightarrow> Response \<Rightarrow> bool" where
  "typed_answer t r \<longleftrightarrow>
     (case payload_json (payload r) of
        None \<Rightarrow> False
      | Some v \<Rightarrow> fits_value t (code r) (received v))"

abbreviation typed :: "tstype \<Rightarrow> bff \<times> bff_act \<Rightarrow> bool" where
  "typed t x \<equiv> answers proper_reply (typed_answer t) (snd x)"

text \<open>The errors the handlers throw are those of JavaScript, or failed calls.\<close>

definition plain_error :: "js_error \<Rightarrow> bool" where
  "plain_error e = (case e of RpcError n m c \<Rightarrow> 400 \<le> n | OtherError m \<Rightarrow> True)"

lemma typed_plain [simp]: "plain_error e \<Longrightarrow> typed_answer t (errorMiddleware e)"
  by (cases e) (auto simp: typed_answer_def fits_value_def tells_why_def plain_error_def own_def or_absent_def split: option.splits)

definition throws_plain :: "'a js \<Rightarrow> bool" where
  "throws_plain x \<longleftrightarrow> (\<forall>e. x = Inl e \<longrightarrow> plain_error e)"

named_theorems plain_rules

lemma throws_Inr [simp, plain_rules]: "throws_plain (Inr a)"
  by (simp add: throws_plain_def)

lemma throws_Other [simp, plain_rules]: "throws_plain (Inl (OtherError m))"
  by (simp add: throws_plain_def plain_error_def)

lemma throws_then_do [plain_rules]:
  "throws_plain x \<Longrightarrow> (\<And>a. throws_plain (f a)) \<Longrightarrow> throws_plain (then_do x f)"
  by (auto simp: throws_plain_def then_do_eq_Inl)

lemma throws_map_throw_in: "(\<And>x. x \<in> set xs \<Longrightarrow> throws_plain (f x)) \<Longrightarrow> throws_plain (map_throw f xs)"
  by (induction xs) (auto intro!: throws_then_do)

lemma throws_map_throw [plain_rules]: "(\<And>x. throws_plain (f x)) \<Longrightarrow> throws_plain (map_throw f xs)"
  by (rule throws_map_throw_in)

lemma throws_js_String [plain_rules]: "throws_plain (js_String v)" and throws_js_join [plain_rules]: "throws_plain (js_join vs)"
  by (induction v and vs rule: js_String_js_join.induct) (auto intro!: throws_then_do)

lemma throws_js_Number [plain_rules]: "throws_plain (js_Number v)"
  by (cases v) (auto intro!: plain_rules)

lemma throws_timestamp [plain_rules]: "throws_plain (timestampToIso v)"
  unfolding timestampToIso_def time_value_iso_def toISOString_def
  by (auto intro!: plain_rules split: jsv.splits jsnum.splits)

lemma throws_to_num [plain_rules]: "throws_plain (to_num v)"
  by (simp add: to_num_def throws_js_Number)

lemma throws_toLimitView [plain_rules]: "throws_plain (toLimitView l b)"
  unfolding toLimitView_def no_property_def by (auto intro!: plain_rules split: option.splits)

lemma throws_toServiceView [plain_rules]: "throws_plain (toServiceView v)"
  unfolding toServiceView_def no_property_def by (auto intro!: plain_rules split: option.splits)

lemma throws_toUsageView [plain_rules]: "throws_plain (toUsageView k u f)"
  unfolding toUsageView_def by (auto intro!: plain_rules)

lemma throws_if:
  "(c \<Longrightarrow> throws_plain x) \<Longrightarrow> (\<not> c \<Longrightarrow> throws_plain y) \<Longrightarrow> throws_plain (if c then x else y)"
  by simp

lemma throws_case:
  "throws_plain x \<Longrightarrow> (\<And>a. x = Inr a \<Longrightarrow> throws_plain (f a)) \<Longrightarrow>
     throws_plain (case x of Inl e \<Rightarrow> Inl e | Inr a \<Rightarrow> f a)"
  by (auto simp: throws_plain_def split: sum.splits)

lemma throws_list_values: "throws_plain (list_values v)"
proof -
  have *: "throws_plain (case x of JArr xs \<Rightarrow> Inr xs | _ \<Rightarrow> Inl (OtherError m))" for x m by (cases x) simp_all
  show ?thesis unfolding list_values_def by (cases "prop_opt v ''listValue''") (simp_all add: *)
qed

lemma throws_struct [plain_rules]:
  "throws_plain (valueToJs v)" "throws_plain (structToObject w)"
proof (induction v and w rule: valueToJs_structToObject.induct)
  case (1 v)
  show ?case
    unfolding valueToJs.simps [of v]
    by (intro throws_if throws_case throws_list_values throws_Inr throws_then_do throws_map_throw_in "1.IH")
next
  case (2 w)
  have "throws_plain (case p of (k, v) \<Rightarrow> then_do (valueToJs v) (\<lambda>w. Inr (k, w)))"
    if "\<not> nullish w" "truthy (prop_opt w ''fields'')" "p \<in> set (object_entries (prop_opt w ''fields''))" for p
    using that 2 by (cases p) (auto intro!: throws_then_do)
  then show ?case
    unfolding structToObject.simps [of w]
    by (intro throws_if throws_Inr throws_then_do throws_map_throw_in) simp_all
qed

lemma throws_toAuditView [plain_rules]: "throws_plain (toAuditView e)"
  unfolding toAuditView_def by (auto intro!: plain_rules)

section \<open>The views have their types\<close>

lemma to_num_finite: "number_field v \<Longrightarrow> to_num v = Inr n \<Longrightarrow> num_isFinite n"
  by (auto simp: number_field_def to_num_def num_isFinite_def split: if_splits)

lemma js_Number_finite: "number_field v \<Longrightarrow> js_Number v = Inr n \<Longrightarrow> num_isFinite n"
  by (simp add: number_field_def)

lemmas json_defs = key_json_def limit_json_def service_json_def usage_json_def audit_json_def refund_json_def
  review_json_def grant_json_def session_json_def or_null_def or_absent_def own_def

definition good_limit :: "LimitView \<Rightarrow> bool" where
  "good_limit v \<longleftrightarrow> num_isFinite (lv_limit_value v) \<and> lv_time_unit v \<in> set TIME_UNITS
     \<and> (case lv_config_id v of None \<Rightarrow> True | Some n \<Rightarrow> num_isFinite n)"

lemma toLimitView_good: "toLimitView (Some l) b = Inr v \<Longrightarrow> proper_limit l \<Longrightarrow> good_limit v"
  by (auto simp: toLimitView_def proper_limit_def good_limit_def then_do_eq_Inr to_num_finite
      split: option.splits if_splits)

lemma limit_typed: "good_limit v \<Longrightarrow> has_type ts_LimitView (received (JObj (limit_json v)))"
  by (auto simp: good_limit_def TIME_UNITS_def json_defs ts_defs split: option.splits)

lemma resolved_typed: "good_limit v \<Longrightarrow> has_type ts_ResolveView (received (JObj ((''configured'', JBool True) # limit_json v)))"
  by (auto simp: good_limit_def TIME_UNITS_def json_defs ts_defs split: option.splits)

lemma unconfigured_typed:
  "has_type ts_ResolveView (received (JObj ((''configured'', JBool False) # (''note'', JStr n) # key_json k)))"
  by (simp add: json_defs ts_defs)

lemma service_typed: "has_type ts_ServiceView (received (service_json v))"
  by (simp add: json_defs ts_defs)

definition good_usage :: "UsageView \<Rightarrow> bool" where
  "good_usage u \<longleftrightarrow> num_isFinite (uv_consumed u) \<and> num_isFinite (uv_remaining u)
     \<and> (case uv_limit u of None \<Rightarrow> True | Some n \<Rightarrow> num_isFinite n)"

lemma toUsageView_good: "toUsageView k u f = Inr v \<Longrightarrow> proper_usage u \<Longrightarrow> good_usage v"
  by (auto simp: toUsageView_def proper_usage_def good_usage_def then_do_eq_Inr to_num_finite split: if_splits)

lemma usage_typed: "good_usage u \<Longrightarrow> has_type ts_UsageView (received (usage_json u))"
  by (auto simp: good_usage_def json_defs ts_defs split: option.splits)

lemma structToObject_shape: "structToObject w = Inr v \<Longrightarrow> v = JNull \<or> (\<exists>ob. v = JObj ob)"
  by (subst (asm) structToObject.simps) (auto simp: then_do_eq_Inr split: if_splits)

lemma toAuditView_typed: "toAuditView e = Inr v \<Longrightarrow> proper_audit e \<Longrightarrow> has_type ts_AuditView (received (audit_json v))"
  by (auto simp: toAuditView_def proper_audit_def then_do_eq_Inr json_defs ts_defs to_num_finite
      dest!: structToObject_shape split: option.splits)

lemma op_typed: "has_type (T_object [field ''kind'' T_string]) (received (op_json op))"
  by (cases op) (auto simp: json_defs ts_defs)

lemma review_typed: "has_type ts_Review (received (review_json r))"
  using op_typed [of "rop r"] by (cases "status r") (auto simp: json_defs ts_defs split: option.splits)

lemma grant_typed: "has_type ts_Grant (received (grant_json g))"
  by (cases "role g") (auto simp: json_defs ts_defs split: option.splits)

lemma session_typed: "has_type ts_SessionInfo (received (session_json p))"
proof -
  have "grant_json g \<noteq> JUndefined" for g by (simp add: grant_json_def)
  then show ?thesis using grant_typed by (auto simp: session_json_def ts_SessionInfo_def field_def own_def)
qed

section \<open>The pieces of a handler\<close>

lemma has_type_list:
  assumes "\<And>x. x \<in> set xs \<Longrightarrow> has_type t (received (f x))" "\<And>x. f x \<noteq> JUndefined"
  shows "has_type (T_array t) (received (JArr (map f xs)))"
  using assms by auto

lemma json_defined [simp]:
  "JObj ob \<noteq> JUndefined" "service_json v \<noteq> JUndefined" "audit_json a \<noteq> JUndefined" "review_json r \<noteq> JUndefined"
  by (simp_all add: service_json_def audit_json_def review_json_def)

lemma pending_typed:
  "has_type ts_PendingReview (received (JObj [(''status'', JStr ''pending_review''), (''review'', review_json r)]))"
  using review_typed [of r] by (simp add: ts_PendingReview_def field_def own_def)

lemma payload_honest: "payload_json p = Some v \<Longrightarrow> honest (received v)"
proof (cases p)
  case (P_pending_review r)
  assume "payload_json p = Some v"
  then show ?thesis using pending_typed [of r] by (simp add: P_pending_review honest_def del: received.simps)
qed (auto simp: honest_def isPending_def prop_opt_def json_defs comp_def split: option.splits if_splits)

lemma typed_success:
  "payload_json p = Some v \<Longrightarrow> has_type t (received v) \<Longrightarrow> 200 \<le> n \<Longrightarrow> n \<le> 299 \<Longrightarrow> typed t (respond n p s)"
  by (simp add: respond_def typed_answer_def fits_value_def payload_honest)

lemma typed_failure:
  "\<not> (200 \<le> n \<and> n \<le> 299) \<Longrightarrow> typed t (respond n (P_error e) s)"
  "typed t (respond 403 (P_forbidden e) s)" "typed t (respond 400 (P_errors es) s)"
  by (auto simp: respond_def typed_answer_def fits_value_def tells_why_def own_def)

lemma typed_throw: "plain_error e \<Longrightarrow> typed t (throw e s)"
  by (simp add: throw_def)

lemma typed_try_do:
  "throws_plain x \<Longrightarrow> (\<And>a. x = Inr a \<Longrightarrow> typed t (k a s)) \<Longrightarrow> typed t (try_do x k s)"
  by (cases x) (auto simp: throws_plain_def)

lemma typed_with_valid:
  "throws_plain v \<Longrightarrow> (\<And>x. v = Inr (Valid x) \<Longrightarrow> typed t (k x s)) \<Longrightarrow> typed t (with_valid v k s)"
  unfolding with_valid_def
  by (rule typed_try_do) (auto intro: typed_failure split: validated.splits)

lemma typed_guard: "typed t (k s) \<Longrightarrow> typed t (guard d sess cap svc k s)"
  by (auto simp: guard_def intro: typed_failure split: AuthzResult.splits)

lemma plain_call_error: "call_result r = Inl e \<Longrightarrow> plain_error e"
  using grpcToHttp_range [of "err_code (projl r)"] by (cases r) (auto simp: plain_error_def)

lemma typed_call_or:
  assumes "well_addressed c" "\<And>res s. answer_to (request c) res \<Longrightarrow> typed t (k res s)"
    "\<And>e s. plain_error e \<Longrightarrow> typed t (h e s)"
  shows "typed t (call_or c k h s)"
proof -
  have "typed t (case call_result r of Inl e \<Rightarrow> h e s | Inr res \<Rightarrow> k res s)" if "proper_reply c r" for r s
    using that assms(2,3) plain_call_error [of r]
    by (cases r) (simp_all add: proper_reply_def)
  then show ?thesis using assms(1) by simp
qed

lemma typed_call:
  assumes "well_addressed c" "\<And>res s. answer_to (request c) res \<Longrightarrow> typed t (k res s)"
  shows "typed t (call c k s)"
  unfolding call_def by (rule typed_call_or) (use assms typed_throw in auto)

lemma typed_review_or_apply:
  assumes "typed t (direct s)" "\<And>v. has_type ts_PendingReview v \<Longrightarrow> has_type t v"
  shows "typed t (review_or_apply d sess op direct s)"
proof -
  have "typed t (respond 202 (P_pending_review r) s')" for r s'
    using assms(2) pending_typed by (intro typed_success [OF payload_json.simps(12)]) (simp_all del: received.simps)
  then show ?thesis using assms(1) by (auto simp: review_or_apply_def split_def Let_def split: option.splits list.splits)
qed

lemmas typed_rules = typed_try_do typed_with_valid typed_guard typed_call typed_failure

lemma throws_get_prop [plain_rules]: "throws_plain (get_prop v k)"
  by (cases v) (simp_all add: get_prop_def)

lemma throws_validate [plain_rules]:
  "throws_plain (validateKey v)" "throws_plain (validateLimit v)" "throws_plain (validateServiceBody v)"
  unfolding validateKey_def validateLimit_def validateServiceBody_def Let_def
  by (auto intro!: throws_then_do throws_get_prop)

lemma throws_query [plain_rules]:
  "throws_plain (query_text req x)" "throws_plain (query_string req x)" "throws_plain (query_number req x)"
  "throws_plain (audit_key req sn)"
  unfolding query_text_def query_string_def query_number_def audit_key_def Let_def
  by (auto intro!: plain_rules)

section \<open>The routes\<close>

lemma list_typed:
  assumes "map_throw f xs = Inr vs" "list_all P xs" "\<And>x v. f x = Inr v \<Longrightarrow> P x \<Longrightarrow> has_type t (received (g v))"
    "\<And>v. g v \<noteq> JUndefined"
  shows "has_type (T_array t) (received (JArr (map g vs)))"
proof (rule has_type_list)
  fix v assume "v \<in> set vs"
  then obtain i where i: "i < length vs" "v = vs ! i" by (metis in_set_conv_nth)
  with assms(1,2) show "has_type t (received (g v))"
    using map_throw_nth [OF assms(1), of i] map_throw_length [OF assms(1)] assms(3) by (simp add: list_all_length)
qed (rule assms(4))

lemma page_typed:
  assumes "has_type (T_array t) (received (JArr xs))" "k \<noteq> ''next_page_token''"
  shows "has_type (T_object [field k (T_array t), field ''next_page_token'' (nullable T_string)])
      (received (JObj [(k, JArr xs), (''next_page_token'', or_null JStr tok)]))"
    "has_type (T_object [field k (T_array t)])
      (received (JObj [(k, JArr xs), (''next_page_token'', or_null JStr tok)]))"
    "has_type (T_object [field k (T_array t)]) (received (JObj [(k, JArr xs)]))"
  using assms by (auto simp: field_def nullable_def own_def or_null_def split: option.splits)

text \<open>The responses, given what the backend answered.\<close>

lemma limits_response:
  assumes "answer_to (ListLimits a b' c ps pt) res"
    and "map_throw (\<lambda>l. toLimitView (Some l) None) (list_or_empty (res_limits res)) = Inr ls"
  shows "typed (ts_result (A_listLimits p)) (respond 200 (P_limits ls tok) s)"
proof -
  have "list_all proper_limit (list_or_empty (res_limits res))"
    using assms(1) by (auto simp: list_or_empty_def split: rpc_response.splits option.splits)
  then have "has_type (T_array ts_LimitView) (received (JArr (map (\<lambda>v. JObj (limit_json v)) ls)))"
    by (rule list_typed [OF assms(2)]) (auto simp del: received.simps intro: limit_typed toLimitView_good)
  from page_typed(1) [OF this, of "''limits''"] show ?thesis by (intro typed_success) (simp_all del: received.simps)
qed

lemma services_response:
  assumes "answer_to (ListServices ps pt) res"
    and "map_throw (\<lambda>v. toServiceView (Some v)) (list_or_empty (res_services res)) = Inr vs"
  shows "typed (ts_result A_listServices) (respond 200 (P_services vs tok) s)"
proof -
  have "has_type (T_array ts_ServiceView) (received (JArr (map service_json vs)))"
    by (rule has_type_list) (simp_all add: service_typed del: received.simps)
  from page_typed(2) [OF this, of "''services''"] show ?thesis by (intro typed_success) (simp_all del: received.simps)
qed

lemma audit_response:
  assumes "answer_to (ListAuditEntries a b' c e f g) res"
    and "map_throw toAuditView (list_or_empty (res_entries res)) = Inr es" "set es' \<subseteq> set es"
  shows "typed (ts_result (A_listAudit p)) (respond 200 (P_audit es' tok) s)"
proof -
  have all: "list_all proper_audit (list_or_empty (res_entries res))"
    using assms(1) by (auto simp: list_or_empty_def split: rpc_response.splits option.splits)
  have "has_type (T_array ts_AuditView) (received (JArr (map audit_json es)))"
    by (rule list_typed [OF assms(2) all]) (auto simp del: received.simps intro: toAuditView_typed)
  then have "has_type (T_array ts_AuditView) (received (JArr (map audit_json es')))"
    using assms(3) by auto
  from page_typed(2) [OF this, of "''entries''"] show ?thesis by (intro typed_success) (simp_all del: received.simps)
qed

lemma limit_response:
  assumes "proper_limit l" "toLimitView (Some l) b = Inr v" "\<And>x. has_type ts_LimitView x \<Longrightarrow> has_type t x" "n \<in> {200, 201}"
  shows "typed t (respond n (P_limit v) s)"
  using assms limit_typed [OF toLimitView_good [OF assms(2,1)]]
  by (intro typed_success) (auto simp del: received.simps)

lemma resolved_response:
  "proper_limit l \<Longrightarrow> toLimitView (Some l) b = Inr v \<Longrightarrow> typed ts_ResolveView (respond 200 (P_resolved v) s)"
  using resolved_typed [OF toLimitView_good] by (intro typed_success) (auto simp del: received.simps)

lemma unconfigured_response: "typed ts_ResolveView (respond 200 (P_unconfigured k) s)"
  using unconfigured_typed by (intro typed_success) (auto simp del: received.simps)

lemma usage_response:
  assumes "answer_to (GetUsage k') res" "toUsageView k (res_usage res) f = Inr v"
    "\<And>x. has_type ts_UsageView x \<Longrightarrow> has_type t x"
  shows "typed t (respond 200 (P_usage v) s)"
proof -
  have "proper_usage (res_usage res)" using assms(1) by (auto split: rpc_response.splits)
  from usage_typed [OF toUsageView_good [OF assms(2) this]] assms(3) show ?thesis
    by (intro typed_success) (simp_all del: received.simps)
qed

lemma service_response: "n \<in> {200, 201} \<Longrightarrow> typed ts_ServiceView (respond n (P_service v) s)"
  using service_typed by (intro typed_success) (auto simp del: received.simps)

text \<open>The operations: what their continuation may rely on.\<close>

lemma answer_limit: "answer_to (CreateLimit k v u) res \<Longrightarrow> \<exists>l. res_limit res = Some l \<and> proper_limit l"
  "answer_to (UpdateLimit k v u b) res \<Longrightarrow> \<exists>l. res_limit res = Some l \<and> proper_limit l"
  "answer_to (GetLimit k b) res \<Longrightarrow> \<exists>l. res_limit res = Some l \<and> proper_limit l"
  by (auto split: rpc_response.splits option.splits)

lemma change_typed:
  assumes "\<And>v s. good_limit v \<Longrightarrow> typed t (k v s)"
  shows "typed t (createLimit d ctx v k s)" "typed t (updateLimit d ctx lk lv tu b k s)"
proof -
  have "typed t (try_do (toLimitView (res_limit res) None) k s)" if "\<exists>l. res_limit res = Some l \<and> proper_limit l" for res s
    using that by (intro typed_try_do throws_toLimitView) (auto intro!: assms elim!: toLimitView_good)
  then show "typed t (createLimit d ctx v k s)" "typed t (updateLimit d ctx lk lv tu b k s)"
    unfolding createLimit_def updateLimit_def Let_def
    by (intro typed_call; simp del: answer_to.simps; blast dest: answer_limit)+
qed

lemma deleteLimit_typed: "(\<And>s. typed t (k () s)) \<Longrightarrow> typed t (deleteLimit d ctx lk b k s)"
  unfolding deleteLimit_def by (intro typed_call) auto

definition good_refund :: "RefundResult \<Rightarrow> bool" where
  "good_refund r \<longleftrightarrow> num_isFinite (rr_remaining r) \<and> num_isFinite (rr_limit r)"

lemma refund_op_typed:
  assumes "\<And>r s. good_refund r \<Longrightarrow> typed t (k r s)"
  shows "typed t (refund d ctx lk a k s)"
  unfolding refund_def Let_def split_def
  by (intro typed_call typed_try_do plain_rules)
     (auto intro!: assms simp: good_refund_def then_do_eq_Inr split: rpc_response.splits dest: js_Number_finite)

lemma resetWindow_typed:
  assumes "\<And>u s. good_usage u \<Longrightarrow> typed t (k u s)"
  shows "typed t (resetWindow d ctx lk k s)"
proof -
  have fin: "typed t (reset_finish d ctx lk f k n rq s)" for f n rq s
    unfolding reset_finish_def
    by (intro typed_call typed_try_do plain_rules)
       (auto intro!: assms elim!: toUsageView_good split: rpc_response.splits)
  then have "typed t (reset_refund d ctx lk f k n s)" for f n s
    unfolding reset_refund_def Let_def split_def by (auto intro!: typed_call)
  then show ?thesis
    unfolding resetWindow_def Let_def split_def by (intro typed_call typed_try_do plain_rules) auto
qed

lemma executePendingOp_typed: "(\<And>r s. typed t (k r s)) \<Longrightarrow> typed t (executePendingOp d ctx op k s)"
  by (cases op) (auto intro: change_typed(2) deleteLimit_typed refund_op_typed resetWindow_typed)

lemma refund_typed: "good_refund r \<Longrightarrow>
    has_type (T_object [field ''remaining'' T_number, field ''limit'' T_number]) (received (refund_json r))"
  by (auto simp: good_refund_def refund_json_def field_def own_def or_null_def split: option.splits)

lemma decided_response:
  "typed ts_decided (respond 200 (P_approved r res) s)" "typed ts_decided (respond 200 (P_rejected r) s)"
  "typed (ts_result A_listReviews) (respond 200 (P_reviews rs) s)"
  using review_typed page_typed(3) [OF has_type_list [where f = review_json], of rs ts_Review "''reviews''"]
  by (auto intro!: typed_success simp: ts_decided_def field_def own_def)

lemma get_limits_typed: "typed (ts_result (A_listLimits p)) (get_limits d req b sess s)"
  unfolding get_limits_def
  by (rule typed_try_do, rule throws_query, split if_split, intro conjI impI)
     (auto intro!: typed_guard typed_try_do typed_call typed_failure plain_rules limits_response
       simp del: ts_result.simps answer_to.simps)

lemma get_resolve_typed: "typed (ts_result (A_resolveLimit lk)) (get_resolve d req b sess s)"
proof -
  have "typed ts_ResolveView (call_or (quotamgmt (GetLimit k True) [])
      (\<lambda>res. try_do (toLimitView (res_limit res) (res_is_default res)) (\<lambda>v. respond 200 (P_resolved v)))
      (\<lambda>e s. case e of RpcError http m c \<Rightarrow> if http = 404 then respond 200 (P_unconfigured k) s else throw e s
         | OtherError m \<Rightarrow> throw e s) s)" for k s
    by (rule typed_call_or)
       (auto intro!: typed_try_do plain_rules resolved_response unconfigured_response typed_throw
         dest!: answer_limit(3) simp del: answer_to.simps split: js_error.splits)
  then show ?thesis unfolding get_resolve_def by (auto intro!: typed_with_valid typed_guard plain_rules)
qed

lemma change_routes_typed:
  "typed (ts_result (A_createLimit x)) (post_limits d req b sess s)"
  "typed (ts_result (A_updateLimit x)) (put_limits d req b sess s)"
  "typed (ts_result (A_deleteLimit x)) (delete_limits d req b sess s)"
proof -
  have ok: "typed t (respond n (P_limit v) s)"
    if "good_limit v" "n \<in> {200, 201}" "\<And>x. has_type ts_LimitView x \<Longrightarrow> has_type t x" for t n v s
    using that limit_typed [OF that(1)] by (intro typed_success) (auto simp del: received.simps)
  show "typed (ts_result (A_createLimit x)) (post_limits d req b sess s)"
    unfolding post_limits_def by (intro typed_with_valid typed_guard plain_rules change_typed(1) ok) auto
  show "typed (ts_result (A_updateLimit x)) (put_limits d req b sess s)"
    unfolding put_limits_def
    by (intro typed_with_valid typed_guard plain_rules typed_review_or_apply change_typed(2) ok) auto
  show "typed (ts_result (A_deleteLimit x)) (delete_limits d req b sess s)"
    unfolding delete_limits_def
    by (intro typed_with_valid typed_guard plain_rules typed_review_or_apply deleteLimit_typed typed_success) auto
qed

lemma manual_routes_typed:
  "typed (ts_result (A_refund x)) (post_refund d req b sess s)"
  "typed (ts_result (A_reset lk)) (post_reset d req b sess s)"
proof -
  have r: "typed (ts_result (A_refund x)) (respond 200 (P_refund r) s)" if "good_refund r" for r s
    using refund_typed [OF that] by (intro typed_success) (auto simp del: received.simps)
  have "typed (ts_result (A_refund x)) (guard d sess Op_refund svc (review_or_apply d sess op
      (\<lambda>s. refund d (opContext s sess) k a (\<lambda>r. respond 200 (P_refund r)) s)) s)" for svc op k a s
    by (intro typed_guard typed_review_or_apply refund_op_typed r) auto
  then show "typed (ts_result (A_refund x)) (post_refund d req b sess s)"
    unfolding post_refund_def
    by (intro typed_with_valid plain_rules) (auto intro: typed_failure split: sum.splits simp del: ts_result.simps)
  have "typed (ts_result (A_reset lk)) (respond 200 (P_usage u) s)" if "good_usage u" for u s
    using usage_typed [OF that] by (intro typed_success) (auto simp del: received.simps)
  then show "typed (ts_result (A_reset lk)) (post_reset d req b sess s)"
    unfolding post_reset_def
    by (intro typed_with_valid typed_guard plain_rules typed_review_or_apply resetWindow_typed) auto
qed

lemma service_routes_typed:
  "typed (ts_result A_listServices) (get_services d req b sess s)"
  "typed (ts_result (A_createService x)) (post_services d req b sess s)"
  "typed (ts_result (A_updateService n x)) (put_service n d req b sess s)"
proof -
  show "typed (ts_result A_listServices) (get_services d req b sess s)"
    unfolding get_services_def
    by (auto intro!: typed_guard typed_try_do typed_call plain_rules services_response simp del: ts_result.simps answer_to.simps)
  have "typed ts_ServiceView (register_service d sess act n v s)" if "n \<in> {200, 201}" for act n v s
    unfolding register_service_def Let_def
    by (intro typed_call typed_try_do plain_rules service_response that) auto
  then show "typed (ts_result (A_createService x)) (post_services d req b sess s)"
    "typed (ts_result (A_updateService n x)) (put_service n d req b sess s)"
    unfolding post_services_def put_service_def by (auto intro!: typed_with_valid typed_guard plain_rules)
qed

lemma filter_subset: "x \<in> set (filter_unless_empty w f xs) \<Longrightarrow> x \<in> set xs"
  by (auto simp: filter_unless_empty_def split: if_splits)

lemma read_routes_typed:
  "typed (ts_result (A_listAudit p)) (get_audit d req b sess s)"
  "typed (ts_result (A_getUsage lk)) (get_usage d req b sess s)"
  "typed (ts_result A_listReviews) (get_reviews d req b sess s)"
  "typed (ts_result A_session) (session_route d req b sess s)"
proof -
  show "typed (ts_result (A_listAudit p)) (get_audit d req b sess s)"
    unfolding get_audit_def
    by (rule typed_try_do, rule throws_query, split if_split, intro conjI impI)
       (auto intro!: typed_guard typed_try_do typed_call typed_failure plain_rules audit_response
         dest!: filter_subset simp del: ts_result.simps answer_to.simps)
  show "typed (ts_result (A_getUsage lk)) (get_usage d req b sess s)"
    unfolding get_usage_def Let_def split_def
    by (auto intro!: typed_with_valid typed_guard typed_try_do typed_call plain_rules usage_response simp del: answer_to.simps)
  show "typed (ts_result A_listReviews) (get_reviews d req b sess s)"
    unfolding get_reviews_def by (intro typed_guard decided_response)
  show "typed (ts_result A_session) (session_route d req b sess s)"
    unfolding session_route_def using session_typed by (intro typed_success) (auto simp del: received.simps)
qed

lemma decision_code: "fst (reviews_decide d i who dec s) = Inl (n, e) \<Longrightarrow> 400 \<le> n"
  by (auto simp: reviews_decide_def review_decide_def split_def Let_def split: option.splits if_splits)

lemma review_routes_typed:
  "typed (ts_result (A_approveReview i)) (post_approve i d req b sess s)"
  "typed (ts_result (A_rejectReview i)) (post_reject i d req b sess s)"
  unfolding post_approve_def post_reject_def Let_def split_def
  by (auto intro!: typed_guard typed_failure executePendingOp_typed decided_response
      dest!: decision_code split: sum.splits)

lemma login_typed:
  "typed (ts_result (A_login u)) (devLogin d b s)" "typed (ts_result A_logout) (logout req s)"
proof -
  have ok: "typed_answer ts_SessionInfo \<lparr>code = 200, payload = P_session p, cookie_changes = cs\<rparr>" for p cs
    using session_typed payload_honest [of "P_session p"] by (simp add: typed_answer_def fits_value_def del: received.simps)
  show "typed (ts_result (A_login u)) (devLogin d b s)"
    unfolding devLogin_def Let_def split_def
    by (auto intro!: typed_failure typed_try_do plain_rules ok split: option.splits)
  show "typed (ts_result A_logout) (logout req s)"
    using payload_honest [of P_ok] by (simp add: logout_def typed_answer_def fits_value_def field_def own_def)
qed

lemma typed_500: "typed_answer t (reply 500 (P_error m))"
  by (simp add: typed_answer_def fits_value_def tells_why_def own_def)

lemma param_typed: "(\<And>v. typed t (h v d req b sess s)) \<Longrightarrow> typed t (param_route pl h x d req b sess s)"
  by (auto simp: param_route_def with_param_def typed_500 split: option.splits)

lemmas routes_typed = get_limits_typed get_resolve_typed change_routes_typed manual_routes_typed
  service_routes_typed read_routes_typed review_routes_typed

end
