(* ===== verification/Typed_Server.thy ===== *)
theory Typed_Server
  imports Console_Server Typed_Routes
begin

text \<open>
  The types of the console against the server: every function of the client receives a value of its declared
  type.
\<close>

lemma route_typed: "well_named c \<Longrightarrow> typed (ts_result c) (route_of pl c d req b sess s)"
proof (cases c)
  case (A_updateService n v)
  have "typed (ts_result c) (put_service m d req b sess s)" for m
    using service_routes_typed(3) [of m v] by (simp add: A_updateService)
  then show ?thesis by (simp add: A_updateService param_typed)
next
  case (A_approveReview i)
  have "typed (ts_result c) (post_approve m d req b sess s)" for m
    using review_routes_typed(1) [of m] by (simp add: A_approveReview)
  then show ?thesis by (simp add: A_approveReview param_typed)
next
  case (A_rejectReview i)
  have "typed (ts_result c) (post_reject m d req b sess s)" for m
    using review_routes_typed(2) [of m] by (simp add: A_rejectReview)
  then show ?thesis by (simp add: A_rejectReview param_typed)
qed (use routes_typed in \<open>auto simp del: ts_result.simps\<close>)

text \<open>The calls whose path a browser leaves as it is.\<close>

definition addressed :: "ApiCall \<Rightarrow> bool" where
  "addressed c \<longleftrightarrow> well_named c \<or> c = A_logout \<or> (\<exists>u. c = A_login u)"

lemma refusal_typed: "300 \<le> n \<Longrightarrow> typed_answer t (reply n (P_error e))"
  by (simp add: typed_answer_def fits_value_def tells_why_def own_def)

lemma call_typed:
  assumes "endpoint c = Inr (m, p, b)" "addressed c"
  shows "typed (ts_result c) (serve pl d (deliver ck q bd (req_fetch token m p b)) s)"
  using assms(2) unfolding addressed_def
proof (elim disjE exE)
  let ?req = "deliver ck q bd (req_fetch token m p b)"
  assume c: "well_named c"
  have r: "meth ?req = api_method c" "path ?req = ''api'' # api_path c" "body ?req = Inr bd"
    using method_endpoint [OF assms(1)] segments_endpoint [OF assms(1) c] by (simp_all add: deliver_def req_fetch_def)
  have "is_segment ''api'' ''api''" by (simp add: path_eval)
  then have "serve pl d ?req s = api pl d ?req bd (attachSession ?req s) (api_path c) s"
    using not_auth_path [OF c] by (auto simp: serve_def r Let_def)
  then show ?thesis
    using route_endpoint [OF c, of pl] route_typed [OF c]
    by (auto simp: api_def requireAuth_def requireCsrf_def r refusal_typed split: option.splits)
next
  let ?req = "deliver ck q bd (req_fetch token m p b)"
  assume c: "c = A_logout"
  then have r: "meth ?req = POST" "path ?req = [''api'', ''auth'', ''logout'']" "body ?req = Inr bd"
    using assms(1) by (auto simp: deliver_def req_fetch_def method_of_def segments_def)
  have "serve pl d ?req s = logout ?req s" by (simp add: serve_def r path_eval)
  then show ?thesis unfolding c by (simp only: login_typed)
next
  let ?req = "deliver ck q bd (req_fetch token m p b)"
  fix u
  assume c: "c = A_login u"
  then have r: "meth ?req = POST" "path ?req = [''api'', ''auth'', ''login'']" "body ?req = Inr bd"
    using assms(1) by (auto simp: deliver_def req_fetch_def method_of_def segments_def)
  have "serve pl d ?req s = devLogin d bd s" by (simp add: serve_def r path_eval)
  then show ?thesis unfolding c by (simp only: login_typed)
qed

section \<open>Properties\<close>

text \<open>
  C17. Every response to a call of the console's client has the type its client declares, whatever cookies and token
  come with it: as long as the backends answer with the messages of their protocol, errors included, the body of a
  success has the declared result type of the function that was called, and the body of a failure, the refusals of the
  gates included, has its message where the client looks for it.
\<close>

theorem responses_have_declared_types:
  assumes "endpoint c = Inr (m, p, b)" "addressed c"
  shows "answers proper_reply (typed_answer (ts_result c))
      (snd (serve pl d (deliver ck q bd (req_fetch token m p b)) s))"
  using assms by (rule call_typed)

text \<open>A usage message as the loader delivers it: 64-bit integers as text.\<close>

definition demo_usage :: RawUsage where
  "demo_usage = \<lparr>raw_consumed = JStr (int_str 3), raw_remaining = JStr (int_str 4), raw_limit = JStr (int_str 7), raw_reset_at = JNull,
     raw_configured = True\<rparr>"

theorem responses_have_declared_types_witness:
  "\<exists>k resp.
     snd (serve demo_platform demo_deps (deliver [(SESSION_COOKIE, JStr ''d0'')]
         (JObj (key_json demo_key)) JUndefined (req_fetch ''d1'' ''GET'' ''/usage?service_name=search-svc&customer_id=*&rate_limit_id=default'' None)) demo_state2)
       = Await (quotaenforcer (GetUsage demo_key) []) k
     \<and> snd (k (Inr (R_usage demo_usage)) demo_state2) = Respond resp \<and> code resp = 200
     \<and> typed_answer ts_UsageView resp"
proof -
  let ?k = "\<lparr>k_service_name = ''search-svc'', k_customer_id = ''*'', k_rate_limit_id = ''default''\<rparr>"
  let ?u = "''/usage?service_name=search-svc&customer_id=*&rate_limit_id=default''"
  let ?r = "deliver [(SESSION_COOKIE, JStr ''d0'')] (JObj (key_json demo_key)) JUndefined (req_fetch ''d1'' ''GET'' ?u None)"
  have e: "endpoint (A_getUsage ?k) = Inr (''GET'', ?u, None)" by code_simp
  have s: "attachSession ?r demo_state2 = Some (demo_session 0 ''d0'' ''d1'')" "csrfToken (demo_session 0 ''d0'' ''d1'') = ''d1''"
    by (simp_all add: attachSession_def deliver_def session_get_def own_def demo_states demo_session_def)
  have v: "validateKey (JObj (key_json demo_key)) = Inr (Valid demo_key)"
    by (simp add: validateKey_def key_json_def demo_key_def mkkey_def require_def isNonEmptyString_def)
  have a: "authorize (MOCK_USERS ! 0) Usage_read (Some ''search-svc'') DEFAULT_POLICY = Authz_ok"
    by (simp add: MOCK_USERS_def user_def authorize_def rbac_simps)
  have q: "query ?r = JObj (key_json demo_key)" by (simp add: deliver_def)
  have g: "get_usage demo_deps ?r JUndefined (demo_session 0 ''d0'' ''d1'') demo_state2
      = call (quotaenforcer (GetUsage demo_key) []) (\<lambda>res. try_do (toUsageView demo_key (res_usage res) (fst (iso_now demo_deps demo_state2)))
          (\<lambda>u. respond 200 (P_usage u))) (snd (iso_now demo_deps demo_state2))"
    using a unfolding get_usage_def with_valid_def q v
    by (simp add: guard_def session_user_def user_at_def demo_eval split_def) (simp add: demo_key_def mkkey_def)
  have u: "\<exists>v. toUsageView demo_key demo_usage t = Inr v" for t
    by (simp add: toUsageView_def demo_usage_def to_num_def timestampToIso_def)
  have p: "answers proper_reply (typed_answer ts_UsageView) (snd (serve demo_platform demo_deps ?r demo_state2))"
    using responses_have_declared_types [OF e, of demo_platform demo_deps "[(SESSION_COOKIE, JStr ''d0'')]"
      "JObj (key_json demo_key)" JUndefined "''d1''" demo_state2] by (simp add: addressed_def)
  have "serve demo_platform demo_deps ?r demo_state2 = get_usage demo_deps ?r JUndefined (demo_session 0 ''d0'' ''d1'') demo_state2"
    using client_call_routed [OF e _ s(1) s(2) [symmetric]] s(2) by simp
  with g obtain k where k: "snd (serve demo_platform demo_deps ?r demo_state2) = Await (quotaenforcer (GetUsage demo_key) []) k"
      "k = (\<lambda>r s'. case call_result r of Inl e \<Rightarrow> throw e s' | Inr res \<Rightarrow>
          try_do (toUsageView demo_key (res_usage res) (fst (iso_now demo_deps demo_state2))) (\<lambda>u. respond 200 (P_usage u)) s')"
    by (simp add: call_def)
  have "proper_usage demo_usage"
    using string_to_number_int_str [of 3] string_to_number_int_str [of 4] string_to_number_int_str [of 7]
    by (simp add: proper_usage_def number_field_def demo_usage_def num_isFinite_def)
  then have "proper_reply (quotaenforcer (GetUsage demo_key) []) (Inr (R_usage demo_usage))"
    by (simp add: proper_reply_def quotaenforcer_def)
  with p k(1) have "answers proper_reply (typed_answer ts_UsageView) (snd (k (Inr (R_usage demo_usage)) demo_state2))"
    by simp
  moreover obtain v where "toUsageView demo_key demo_usage (fst (iso_now demo_deps demo_state2)) = Inr v" using u by blast
  ultimately show ?thesis using k by (simp add: respond_def)
qed

end
