(* ===== verification/Console_Typed.thy ===== *)
theory Console_Typed
  imports Ts_Types Console_Contract
begin

text \<open>
  Pages on responses of the declared types: their states keep the declared types, nothing in them throws, and
  every error they show is a message of the server or of their own.
\<close>

section \<open>Responses that fit\<close>

definition fits_call :: "ApiCall \<Rightarrow> fetch_result \<Rightarrow> bool" where
  "fits_call c r \<longleftrightarrow>
     (case r of
        Inl e \<Rightarrow> False
      | Inr res \<Rightarrow> (case fr_parsed res of Inl e \<Rightarrow> False | Inr v \<Rightarrow> fits_value (ts_result c) (fr_status res) v))"

definition fits :: "Fetch \<Rightarrow> fetch_result \<Rightarrow> bool" where
  "fits f r \<longleftrightarrow> (\<forall>c token m p b. endpoint c = Inr (m, p, b) \<and> f = req_fetch token m p b \<longrightarrow> fits_call c r)"

lemma failure_told: "tells_why v \<Longrightarrow> \<exists>t. failure_message n v = Inr t"
proof (cases "prop_opt v ''error''")
  case JUndefined
  assume "tells_why v"
  then obtain es where "prop_opt v ''errors'' = JArr es" "\<forall>e \<in> set es. has_type T_string e"
    by (auto simp: tells_why_def JUndefined split: jsv.splits)
  moreover from this(2) have "\<exists>ts. map_throw (\<lambda>x. if nullish x then Inr [] else js_String x) es = Inr ts"
    by (induction es) (auto simp: nullish_def split: jsv.splits)
  ultimately show ?thesis by (auto simp: failure_message_def JUndefined nullish_def join_errors_def)
qed (auto simp: tells_why_def failure_message_def nullish_def Let_def)

lemma fits_result:
  assumes "fits_call c r"
  shows "(\<exists>v. req_result r = Inr v \<and> has_type (ts_result c) v \<and> honest v)
    \<or> (\<exists>n m v. req_result r = Inl (ApiError n m v))"
proof -
  obtain res v where r: "r = Inr res" "fr_parsed res = Inr v"
    using assms by (cases r; cases "fr_parsed (projr r)") (auto simp: fits_call_def)
  show ?thesis
  proof (cases "200 \<le> fr_status res \<and> fr_status res \<le> 299")
    case True
    then show ?thesis using assms r by (simp add: fits_call_def fits_value_def req_result_def)
  next
    case False
    then have "tells_why v" using assms r by (simp add: fits_call_def fits_value_def)
    then obtain t where "failure_message (fr_status res) v = Inr t" using failure_told by blast
    then show ?thesis using False r by (auto simp: req_result_def)
  qed
qed

section \<open>Careful pages\<close>

inductive careful :: "('c \<Rightarrow> 'r \<Rightarrow> bool) \<Rightarrow> ('s \<Rightarrow> bool) \<Rightarrow> ('c, 'r, 's, 'v) act \<Rightarrow> bool" for ok keeps where
  Respond: "careful ok keeps (Respond v)"
| Throw: "careful ok keeps (Throw e)"
| Await: "(\<And>r s. keeps s \<Longrightarrow> ok c r \<Longrightarrow> keeps (fst (k r s)) \<and> careful ok keeps (snd (k r s)))
    \<Longrightarrow> careful ok keeps (Await c k)"

inductive_simps careful_Await: "careful ok keeps (Await c k)"

declare careful.Respond [simp, intro] careful.Throw [simp, intro]

definition responses :: "('q, 'c, 'r) event list \<Rightarrow> ('c \<times> 'r) set" where
  "responses tr = {(c, r). \<exists>t. Settled t c r \<in> set tr}"

text \<open>
  A machine that keeps an invariant as long as every reply is one it may rely on.
\<close>

locale careful_machine =
  fixes serve :: "'q \<Rightarrow> 's \<Rightarrow> 's \<times> ('c, 'r, 's, 'v) act"
    and keeps :: "'s \<Rightarrow> bool"
    and ok :: "'c \<Rightarrow> 'r \<Rightarrow> bool"
  assumes serve_careful: "keeps s \<Longrightarrow> keeps (fst (serve q s)) \<and> careful ok keeps (snd (serve q s))"
begin

lemma kept:
  assumes "keeps s0" "reachable serve (\<lambda>_ _. False) s0 w" "\<forall>(c, r) \<in> responses (trace w). ok c r"
  shows "keeps (store w) \<and> (\<forall>a \<in> set (threads w). careful ok keeps a)"
  using assms(2,3)
proof (induction rule: reachable.induct)
  case init
  then show ?case using assms(1) by (simp add: boot_def)
next
  case (more w w')
  have old: "keeps (store w)" "\<forall>a \<in> set (threads w). careful ok keeps a"
    if "responses (trace w) \<subseteq> responses (trace w')" using that more.IH more.prems by blast+
  from more.hyps(2) show ?case
  proof cases
    case (arrive q s a)
    then have "responses (trace w) \<subseteq> responses (trace w')" by (auto simp: responses_def)
    from old [OF this] show ?thesis using serve_careful [of "store w" q] arrive by auto
  next
    case (settle t c k r s a)
    then have "responses (trace w) \<subseteq> responses (trace w')" by (auto simp: responses_def)
    note old = old [OF this]
    have "(c, r) \<in> responses (trace w')" using settle by (auto simp: responses_def)
    then have "ok c r" using more.prems by blast
    moreover have "careful ok keeps (Await c k)" using old(2) nth_mem [OF settle(2)] settle(3) by metis
    ultimately have "keeps (fst (k r (store w))) \<and> careful ok keeps (snd (k r (store w)))"
      using old(1) by (simp add: careful_Await)
    then show ?thesis
      using old settle set_update_subset_insert [of "threads w" t a] by auto
  qed simp
qed

end

text \<open>The pieces of a page.\<close>

definition careful_page :: "('s \<Rightarrow> bool) \<Rightarrow> 's \<times> 's ui_act \<Rightarrow> bool" where
  "careful_page keeps x \<longleftrightarrow> keeps (fst x) \<and> careful fits keeps (snd x)"

named_theorems careful_rules

lemma careful_settled [careful_rules]: "keeps s \<Longrightarrow> careful_page keeps (settled s)"
  by (simp add: careful_page_def settled_def)

lemma careful_ask [careful_rules]:
  assumes "keeps s" "\<exists>e. endpoint c = Inr e"
    and "\<And>v s. keeps s \<Longrightarrow> has_type (ts_result c) v \<Longrightarrow> honest v \<Longrightarrow> careful_page keeps (k v s)"
    and "\<And>n m v s. keeps s \<Longrightarrow> careful_page keeps (h (ApiError n m v) s)"
  shows "careful_page keeps (ask token c k h s)"
proof -
  obtain m p b where e: "endpoint c = Inr (m, p, b)" using assms(2) by auto
  let ?f = "req_fetch token m p b"
  have "careful_page keeps (case req_result r of Inl e \<Rightarrow> h e s | Inr v \<Rightarrow> k v s)" if "keeps s" "fits ?f r" for r s
  proof -
    have "fits_call c r" using that(2) e unfolding fits_def by blast
    from fits_result [OF this] show ?thesis using assms(3,4) that(1) by auto
  qed
  then show ?thesis using assms(1) by (auto simp: careful_page_def ask_def careful_Await e)
qed

lemma careful_attempt [careful_rules]:
  assumes "\<exists>a. x = Inr a" "\<And>a. x = Inr a \<Longrightarrow> careful_page keeps (k a s)"
  shows "careful_page keeps (attempt x k h s)"
  using assms by (auto simp: attempt_def)

section \<open>The limits page\<close>

definition told :: "ui_error option \<Rightarrow> bool" where
  \<comment> \<open>no error of JavaScript\<close>
  "told e = (case e of Some (JsError m) \<Rightarrow> False | _ \<Rightarrow> True)"

lemma told_simps [simp]: "told None" "told (Some (ApiError n m v))" "told (Some (UiText t))"
  by (simp_all add: told_def)

definition editor_typed :: "Editor \<Rightarrow> bool" where
  "editor_typed e \<longleftrightarrow> has_type ts_LimitView (JObj (ed_form e)) \<and> told (ed_error e)"

definition limits_typed :: "LimitsPage \<Rightarrow> bool" where
  "limits_typed st \<longleftrightarrow> has_type (T_array ts_LimitView) (lp_limits st) \<and> has_type (nullable ts_ResolveView) (lp_effective st)
     \<and> told (lp_error st)
     \<and> (case lp_editing st of None \<Rightarrow> True
        | Some r \<Rightarrow> has_type ts_LimitView (JObj r) \<and> editor_typed (lp_editor st))"

lemma limits_typed_simps [simp]:
  "limits_typed (st\<lparr>lp_filters := f\<rparr>) = limits_typed st"
  "limits_typed st \<Longrightarrow> told e \<Longrightarrow> limits_typed (st\<lparr>lp_error := e\<rparr>)"
  "limits_typed st \<Longrightarrow> has_type (T_array ts_LimitView) v \<Longrightarrow> limits_typed (st\<lparr>lp_limits := v\<rparr>)"
  "limits_typed st \<Longrightarrow> has_type (nullable ts_ResolveView) w \<Longrightarrow> limits_typed (st\<lparr>lp_effective := w\<rparr>)"
  by (auto simp: limits_typed_def split: option.splits)

lemma limits_typed_setEditing [simp]:
  "limits_typed st \<Longrightarrow> limits_typed (setEditing None st)"
  "limits_typed st \<Longrightarrow> has_type ts_LimitView (JObj r) \<Longrightarrow> limits_typed (setEditing (Some r) st)"
  by (auto simp: limits_typed_def setEditing_def editor_typed_def new_editor_def split: option.splits)

lemma limits_typed_in_editor:
  "limits_typed st \<Longrightarrow> (\<And>e. editor_typed e \<Longrightarrow> editor_typed (f e)) \<Longrightarrow> limits_typed (in_editor i f st)"
  by (auto simp: limits_typed_def in_editor_def split: option.splits)

lemma limits_typed_note [simp]:
  "limits_typed st \<Longrightarrow> limits_typed (in_editor i (ed_notice_update (\<lambda>_. n)) st)"
  "limits_typed st \<Longrightarrow> limits_typed (in_editor i (ed_confirm_update (\<lambda>_. t)) st)"
  "limits_typed st \<Longrightarrow> told e \<Longrightarrow> limits_typed (in_editor i (ed_error_update (\<lambda>_. e)) st)"
  "limits_typed st \<Longrightarrow> limits_typed (in_editor i (\<lambda>e. e\<lparr>ed_error := None, ed_notice := m\<rparr>) st)"
  by (erule limits_typed_in_editor; simp add: editor_typed_def)+

lemma empty_array_typed [simp]: "has_type (T_array t) (JArr [])" and null_typed [simp]: "has_type (nullable t) JNull"
  by (simp_all add: nullable_def)

text \<open>The rows of a result.\<close>

lemma limit_object: "has_type ts_LimitView v \<Longrightarrow> \<exists>l b. v = JObj l \<and> own l ''is_default'' = JBool b"
  by (cases v) (auto simp: ts_defs split: jsv.splits)

lemma is_default_read: "has_type ts_LimitView l \<Longrightarrow> \<exists>b. get_prop l ''is_default'' = Inr (JBool b)"
  using limit_object by (fastforce simp: get_prop_def)

lemma listed_rows_typed:
  assumes "has_type (ts_result (A_listLimits p)) res"
  shows "\<exists>rows. listed_rows kind res = Inr rows \<and> has_type (T_array ts_LimitView) rows"
proof -
  obtain ls where ls: "get_prop res ''limits'' = Inr (JArr ls)" "\<forall>l \<in> set ls. has_type ts_LimitView l"
    using assms by (cases res) (auto simp: field_def get_prop_def split: jsv.splits)
  have "\<exists>lbs. map_throw (\<lambda>l. then_do (get_prop l ''is_default'') (\<lambda>b. Inr (l, \<not> truthy b))) ls = Inr lbs
      \<and> map fst lbs = ls"
    using ls(2) by (induction ls) (auto dest!: is_default_read)
  then obtain lbs where lbs: "map_throw (\<lambda>l. then_do (get_prop l ''is_default'') (\<lambda>b. Inr (l, \<not> truthy b))) ls = Inr lbs"
      "map fst lbs = ls" by blast
  have "has_type ts_LimitView l" if "l \<in> fst ` set (filter snd lbs)" for l
  proof -
    have "l \<in> set (map fst lbs)" using that by auto
    then show ?thesis using ls(2) lbs(2) by simp
  qed
  then show ?thesis using ls lbs by (auto simp: listed_rows_def)
qed

lemma query_texts: "\<exists>e. with_query p (key_object k) = Inr e"
  "\<exists>e. endpoint (A_listLimits [(''service_name'', JStr a), (''customer_id'', if b then JStr c else or_undefined d),
     (''rate_limit_id'', or_undefined r)]) = Inr e"
  by (auto simp: with_query_def qs_def key_object_def or_undefined_def Let_def)

abbreviation careful_limits :: "LimitsPage \<times> LimitsPage ui_act \<Rightarrow> bool" where
  "careful_limits \<equiv> careful_page limits_typed"

lemma limits_failed_careful: "limits_typed st \<Longrightarrow> careful_limits (limits_failed (ApiError n m v) st)"
  unfolding limits_failed_def by (intro careful_settled limits_typed_simps) simp_all

lemma limits_shown_careful:
  assumes "limits_typed st" "has_type (T_array ts_LimitView) rows"
  shows "careful_limits (let st = st\<lparr>lp_limits := rows\<rparr> in
      if b then ask [] (A_resolveLimit k) (\<lambda>v st. settled (st\<lparr>lp_effective := v\<rparr>)) limits_failed st
      else settled (st\<lparr>lp_effective := JNull\<rparr>))"
proof -
  have e: "\<exists>e. endpoint (A_resolveLimit k) = Inr e" using query_texts(1) by simp
  have "careful_limits (ask [] (A_resolveLimit k) (\<lambda>v st. settled (st\<lparr>lp_effective := v\<rparr>)) limits_failed st)"
    if "limits_typed st" for st
    by (rule careful_ask [where keeps = limits_typed, OF that e])
       (auto intro!: careful_settled limits_failed_careful simp: nullable_def simp del: has_type.simps(10))
  then show ?thesis using assms by (auto intro!: careful_settled simp: Let_def simp del: has_type.simps(8))
qed

lemma limits_search_careful: "limits_typed st \<Longrightarrow> careful_limits (limits_search fl st)"
proof -
  assume st: "limits_typed st"
  define c where "c = A_listLimits [(''service_name'', JStr (fl_service fl)),
    (''customer_id'', if fl_kind fl = K_defaults then JStr ''*'' else or_undefined (fl_customer fl)),
    (''rate_limit_id'', or_undefined (fl_rlid fl))]"
  have e: "\<exists>e. endpoint c = Inr e" unfolding c_def by (rule query_texts(2))
  have rows: "\<exists>rows. listed_rows (fl_kind fl) v = Inr rows \<and> has_type (T_array ts_LimitView) rows"
    if "has_type (ts_result c) v" for v
    using that unfolding c_def by (rule listed_rows_typed)
  have "careful_limits (ask [] c
      (\<lambda>res. attempt (listed_rows (fl_kind fl) res) (\<lambda>rows st. let st = st\<lparr>lp_limits := rows\<rparr> in
         if b then ask [] (A_resolveLimit k) (\<lambda>v st. settled (st\<lparr>lp_effective := v\<rparr>)) limits_failed st
         else settled (st\<lparr>lp_effective := JNull\<rparr>)) limits_failed) limits_failed st')" if "limits_typed st'" for b k st'
    by (rule careful_ask [where keeps = limits_typed, OF that e])
       (auto dest!: rows intro!: careful_attempt limits_shown_careful limits_failed_careful)
  then show ?thesis
    using st unfolding limits_search_def c_def [symmetric] by (simp add: Let_def careful_settled)
qed

lemma saved_careful: "limits_typed st \<Longrightarrow> careful_limits (saved fl st)"
  unfolding saved_def by (intro limits_search_careful limits_typed_setEditing)

lemma editor_failed_careful: "limits_typed st \<Longrightarrow> careful_limits (editor_failed i (ApiError n m v) st)"
  unfolding editor_failed_def by (intro careful_settled limits_typed_note) simp_all

lemma pending_reason_typed: "isPending v \<Longrightarrow> honest v \<Longrightarrow> \<exists>t. pending_reason what v = Inr t"
  by (cases v) (auto simp: honest_def ts_defs pending_reason_def get_prop_def then_do_eq_Inr split: jsv.splits)

lemma done_or_pending_careful: "limits_typed st \<Longrightarrow> honest v \<Longrightarrow> careful_limits (done_or_pending i fl what v st)"
  unfolding done_or_pending_def
  by (auto dest!: pending_reason_typed [where what = what] intro!: careful_attempt careful_settled saved_careful)

lemma editor_handle_careful:
  assumes "limits_typed st" "lp_editing st = Some initial" "editor_offered initial (lp_editor st) e"
  shows "careful_limits (editor_handle token initial e st)"
proof -
  have field: "limits_typed (set_field k v st)"
    if "\<And>ob. has_type ts_LimitView (JObj ob) \<Longrightarrow> has_type ts_LimitView (JObj (map_set k v ob))" for k v
    unfolding set_field_def using assms(1) that
    by (intro limits_typed_in_editor) (auto simp: editor_typed_def simp del: has_type.simps)
  have form: "has_type ts_LimitView (JObj (ed_form (lp_editor st)))"
    using assms(1,2) by (simp add: limits_typed_def editor_typed_def)
  then obtain n where n: "own (ed_form (lp_editor st)) ''limit_value'' = JNum n"
    by (auto simp: ts_defs split: jsv.splits)
  show ?thesis
  proof (cases e)
    case (In_key f v)
    have "limits_typed (set_field (field_name f) (JStr v) st)"
      by (rule field) (cases f; auto simp: ts_defs own_set)
    then show ?thesis by (simp add: In_key careful_settled)
  next
    case (In_limit v)
    have "limits_typed (set_field ''limit_value'' (JNum (string_to_number v)) st)"
      by (rule field) (auto simp: ts_defs own_set)
    then show ?thesis by (simp add: In_limit careful_settled)
  next
    case (In_unit u)
    have "limits_typed (set_field ''time_unit'' (JStr u) st)"
      by (rule field) (use assms(3) In_unit in \<open>auto simp: ts_defs own_set editor_offered_def UNITS_def\<close>)
    then show ?thesis by (simp add: In_unit careful_settled)
  next
    case Click_save
    then show ?thesis
      unfolding Click_save editor_handle.simps save_def Let_def n
      using assms(1)
      by (intro careful_attempt)
         (auto intro!: careful_ask editor_failed_careful saved_careful done_or_pending_careful limits_typed_note
           simp del: has_type.simps ts_result.simps)
  next
    case Click_delete
    then show ?thesis
      unfolding Click_delete editor_handle.simps del_def Let_def
      using assms(1)
      by (intro careful_ask) (auto intro!: editor_failed_careful done_or_pending_careful limits_typed_note
           simp del: has_type.simps ts_result.simps)
  qed (use assms(1) in \<open>auto intro!: careful_settled\<close>)
qed

lemma row_typed: "limits_typed st \<Longrightarrow> row_at (lp_limits st) i = Some v \<Longrightarrow> has_type ts_LimitView v"
  by (auto simp: limits_typed_def row_at_def split: jsv.splits if_splits)

lemma EMPTY_typed: "has_type ts_LimitView (JObj (map_set ''service_name'' (JStr s) EMPTY))"
  by (simp add: EMPTY_def ts_defs own_def)

lemma limits_serve_careful: "limits_typed st \<Longrightarrow> careful_limits (limits_serve ss ev st)"
  by (cases ev)
     (auto simp: limits_serve_def limits_offered_def simp del: has_type.simps
       intro!: careful_settled limits_search_careful editor_handle_careful limits_typed_setEditing EMPTY_typed dest: row_typed
       split: option.splits jsv.splits)

interpretation typed_limits: careful_machine "limits_serve ss" limits_typed fits
  by unfold_locales (use limits_serve_careful in \<open>simp add: careful_page_def\<close>)

section \<open>The other pages\<close>

definition usage_page_typed :: "UsagePage \<Rightarrow> bool" where
  "usage_page_typed st \<longleftrightarrow> has_type (nullable ts_UsageView) (up_usage st) \<and> told (up_error st)"

lemma usage_page_simps [simp]:
  "usage_page_typed (st\<lparr>up_service := a\<rparr>) = usage_page_typed st" "usage_page_typed (st\<lparr>up_customer := a\<rparr>) = usage_page_typed st"
  "usage_page_typed (st\<lparr>up_rlid := a\<rparr>) = usage_page_typed st" "usage_page_typed (st\<lparr>up_notice := n\<rparr>) = usage_page_typed st"
  "usage_page_typed st \<Longrightarrow> usage_page_typed (clear_usage st)"
  "usage_page_typed st \<Longrightarrow> told e \<Longrightarrow> usage_page_typed (st\<lparr>up_error := e\<rparr>)"
  "usage_page_typed st \<Longrightarrow> has_type (nullable ts_UsageView) u \<Longrightarrow> usage_page_typed (st\<lparr>up_usage := u\<rparr>)"
  by (simp_all add: usage_page_typed_def clear_usage_def)

lemma lookup_careful: "usage_page_typed st \<Longrightarrow> careful_page usage_page_typed (lookup k st)"
proof -
  assume st: "usage_page_typed st"
  have e: "\<exists>e. endpoint (A_getUsage k) = Inr e" using query_texts(1) by simp
  show ?thesis unfolding lookup_def
    by (rule careful_ask [where keeps = usage_page_typed, OF _ e])
       (use st in \<open>auto intro!: careful_settled usage_page_simps(7) simp: nullable_def simp del: has_type.simps(10)\<close>)
qed

lemma usage_failed_careful: "usage_page_typed st \<Longrightarrow> careful_page usage_page_typed (usage_failed (ApiError n m v) st)"
  unfolding usage_failed_def by (intro careful_settled usage_page_simps) simp_all

lemma pending_notice_careful:
  "usage_page_typed st \<Longrightarrow> isPending v \<Longrightarrow> honest v \<Longrightarrow> careful_page usage_page_typed (pending_notice what v st)"
  unfolding pending_notice_def
  by (intro careful_attempt pending_reason_typed) (auto intro!: careful_settled)

lemma not_pending: "has_type ts_PendingReview v \<Longrightarrow> isPending v"
  by (cases v) (auto simp: ts_defs isPending_def)

lemma manual_careful:
  assumes "usage_page_typed st"
  shows "careful_page usage_page_typed (doRefund token answer st)" "careful_page usage_page_typed (doReset token b st)"
proof -
  show "careful_page usage_page_typed (doRefund token answer st)"
    unfolding doRefund_def Let_def using assms
    by (auto intro!: careful_ask careful_settled lookup_careful pending_notice_careful usage_failed_careful
        simp del: has_type.simps ts_result.simps split: option.splits list.splits)
  have "has_type (nullable ts_UsageView) v" if "has_type (ts_result (A_reset k)) v" "\<not> isPending v" for k v
    using that not_pending by (auto simp: nullable_def simp del: has_type.simps(10))
  then show "careful_page usage_page_typed (doReset token b st)"
    unfolding doReset_def using assms
    by (auto intro!: careful_ask careful_settled pending_notice_careful usage_failed_careful usage_page_simps(7)
        simp del: has_type.simps ts_result.simps)
qed

interpretation typed_usage: careful_machine "usage_serve ss" usage_page_typed fits
proof (unfold_locales, goal_cases)
  case (1 st ev)
  then have "careful_page usage_page_typed (usage_serve ss ev st)"
    by (cases ev) (auto simp: usage_serve_def intro!: careful_settled lookup_careful manual_careful)
  then show ?case by (simp add: careful_page_def)
qed

definition audit_page_typed :: "AuditPage \<Rightarrow> bool" where
  "audit_page_typed st \<longleftrightarrow> has_type (T_array ts_AuditView) (ap_entries st) \<and> told (ap_error st)"

lemma list_read:
  assumes "has_type (T_object [field k (T_array t)]) v"
  shows "\<exists>xs. get_prop v k = Inr xs \<and> has_type (T_array t) xs"
  using assms by (cases v) (auto simp: field_def get_prop_def)

interpretation typed_audit: careful_machine audit_serve audit_page_typed fits
proof (unfold_locales, goal_cases)
  case (1 st ev)
  have "careful_page audit_page_typed (audit_search st)"
    unfolding audit_search_def Let_def
    by (rule careful_ask)
       (use 1 in \<open>auto intro!: careful_settled careful_attempt dest!: list_read
          simp: audit_page_typed_def with_query_def qs_def or_undefined_def Let_def simp del: has_type.simps\<close>)
  then have "careful_page audit_page_typed (audit_serve ev st)"
    using 1 by (cases ev) (auto intro!: careful_settled simp: audit_page_typed_def toggle_def simp del: has_type.simps split: option.splits)
  then show ?case by (simp add: careful_page_def)
qed

definition services_page_typed :: "ServicesPage \<Rightarrow> bool" where
  "services_page_typed st \<longleftrightarrow> has_type (T_array ts_ServiceView) (sp_services st) \<and> told (sp_error st)"

lemma load_services_careful: "services_page_typed st \<Longrightarrow> careful_page services_page_typed (load_services st)"
  unfolding load_services_def services_failed_def
  by (intro careful_ask)
     (auto intro!: careful_settled careful_attempt dest!: list_read simp: services_page_typed_def simp del: has_type.simps)

interpretation typed_services: careful_machine "services_serve ss" services_page_typed fits
proof (unfold_locales, goal_cases)
  case (1 st ev)
  have "\<exists>e. endpoint (case sp_editingName st of Some (c # cs) \<Rightarrow> A_updateService (c # cs) x | _ \<Rightarrow> A_createService y) = Inr e" for x y
    by (auto split: option.splits list.splits)
  then have "careful_page services_page_typed (submit token st)" for token
    unfolding submit_def services_failed_def Let_def using 1
    by (intro careful_ask) (auto intro!: careful_settled load_services_careful simp: services_page_typed_def
        simp del: has_type.simps ts_result.simps split: option.splits list.splits)
  then have "careful_page services_page_typed (services_serve ss ev st)"
    using 1 by (cases ev) (auto intro!: careful_settled load_services_careful
        simp: services_serve_def services_page_typed_def edit_service_def cancel_edit_def simp del: has_type.simps split: option.splits)
  then show ?case by (simp add: careful_page_def)
qed

definition reviews_page_typed :: "ReviewsPage \<Rightarrow> bool" where
  "reviews_page_typed st \<longleftrightarrow> has_type (T_array ts_Review) (rp_reviews st) \<and> told (rp_error st)"

lemma load_reviews_careful: "reviews_page_typed st \<Longrightarrow> careful_page reviews_page_typed (load_reviews st)"
  unfolding load_reviews_def reviews_failed_def
  by (intro careful_ask)
     (auto intro!: careful_settled careful_attempt dest!: list_read simp: reviews_page_typed_def simp del: has_type.simps)

interpretation typed_reviews: careful_machine "reviews_serve ss" reviews_page_typed fits
proof (unfold_locales, goal_cases)
  case (1 st ev)
  have "careful_page reviews_page_typed (decide token i b st)" for token i b
    unfolding decide_def reviews_failed_def using 1
    by (intro careful_ask) (auto intro!: careful_settled load_reviews_careful simp: reviews_page_typed_def
        simp del: has_type.simps ts_result.simps split: if_splits)
  then have "careful_page reviews_page_typed (reviews_serve ss ev st)"
    using 1 by (cases ev) (auto intro!: careful_settled load_reviews_careful split: option.splits jsv.splits)
  then show ?case by (simp add: careful_page_def)
qed

end
