(* ===== verification/Console_Display.thy ===== *)
theory Console_Display
  imports Console_Typed
begin

text \<open>
  Rendering on typed states: nothing that is computed while a page is drawn throws, and what is put into its
  elements is text, numbers and truth values, never an object, which React would refuse.
\<close>

definition shown :: "jsv \<Rightarrow> bool" where
  "shown v = (case v of JObj ob \<Rightarrow> False | JArr xs \<Rightarrow> False | _ \<Rightarrow> True)"

lemma shown_simps [simp]:
  "shown (JStr t)" "shown (JNum n)" "shown (JBool b)" "shown JNull" "shown JUndefined"
  by (simp_all add: shown_def)

definition limits_drawn :: "SessionState \<Rightarrow> LimitsPage \<Rightarrow> bool" where
  "limits_drawn ss st \<longleftrightarrow>
     list_all (\<lambda>(cells, _, _). list_all shown cells) (limits_table ss (lp_limits st))
     \<and> (truthy (lp_effective st) \<longrightarrow> isl (effective_hint (lp_effective st)) = False)
     \<and> (case lp_editing st of None \<Rightarrow> True | Some r \<Rightarrow> isl (LimitEditor r (lp_editor st)) = False)
     \<and> told (lp_error st)"

definition usage_drawn :: "int \<Rightarrow> int \<Rightarrow> UsagePage \<Rightarrow> bool" where
  "usage_drawn now1 now2 st \<longleftrightarrow>
     (case usage_panel now1 now2 st of
        None \<Rightarrow> True
      | Some p \<Rightarrow> list_all (\<lambda>(_, v). case v of None \<Rightarrow> True | Some v \<Rightarrow> shown v) (pn_values p))
     \<and> told (up_error st)"

definition audit_drawn :: "AuditPage \<Rightarrow> bool" where
  "audit_drawn st \<longleftrightarrow> list_all (\<lambda>(cells, _). list_all shown cells) (audit_table st) \<and> told (ap_error st)"

definition services_drawn :: "SessionState \<Rightarrow> ServicesPage \<Rightarrow> bool" where
  "services_drawn ss st \<longleftrightarrow> list_all (\<lambda>(cells, _). list_all shown cells) (services_table ss st) \<and> told (sp_error st)"

definition reviews_drawn :: "ReviewsPage \<Rightarrow> bool" where
  "reviews_drawn st \<longleftrightarrow>
     (case review_panels st of
        Inl e \<Rightarrow> False
      | Inr ps \<Rightarrow> list_all (\<lambda>p. list_all shown [rv_kind p, rv_reason p, rv_initiator p, rv_createdAt p]) ps)
     \<and> told (rp_error st)"

text \<open>Texts of typed values.\<close>

lemma text_of_primitive: "shown v \<Longrightarrow> \<exists>t. js_String v = Inr t"
  by (cases v) (auto simp: shown_def)

lemma isl_then_do: "isl (then_do x f) \<longleftrightarrow> isl x \<or> isl (f (projr x))"
  by (cases x) auto

lemma js_String_drawn: "shown v \<Longrightarrow> isl (js_String v) = False"
  using text_of_primitive [of v] by auto

text \<open>The types whose values can be shown, and the fields of an object that have one.\<close>

fun scalar :: "tstype \<Rightarrow> bool" where
  "scalar (T_union ts) = list_all scalar ts"
| "scalar (T_array t) = False"
| "scalar T_record = False"
| "scalar (T_object fs) = False"
| "scalar t = True"

lemma scalar_shown: "scalar t \<Longrightarrow> has_type t v \<Longrightarrow> shown v"
  by (induction t rule: scalar.induct) (auto simp: shown_def list_all_iff split: jsv.splits)

definition has_scalar :: "(string \<times> bool \<times> tstype) list \<Rightarrow> string \<Rightarrow> bool" where
  "has_scalar fs k \<longleftrightarrow> list_ex (\<lambda>(k', _, t). k' = k \<and> scalar t) fs"

lemma scalar_field:
  assumes "has_type (T_object fs) v" "has_scalar fs k"
  shows "shown (prop_opt v k)"
proof -
  obtain ob where v: "v = JObj ob" using assms(1) by (cases v) auto
  obtain b t where t: "(k, b, t) \<in> set fs" "scalar t" using assms(2) by (auto simp: has_scalar_def list_ex_iff)
  then have "own ob k = JUndefined \<or> has_type t (own ob k)" using assms(1) by (auto simp: v dest!: bspec)
  then show ?thesis using scalar_shown [OF t(2)] by (auto simp: v)
qed

lemma scalar_cells: "has_type (T_object fs) v \<Longrightarrow> list_all (has_scalar fs) ks \<Longrightarrow> list_all shown (map (prop_opt v) ks)"
  by (auto simp: list_all_iff intro: scalar_field)

lemmas scalar_eval = has_scalar_def ts_TimeUnit_def nullable_def field_def optional_def

lemma limit_shown:
  assumes "has_type ts_LimitView v"
    and "k \<in> {''service_name'', ''customer_id'', ''rate_limit_id'', ''limit_value'', ''time_unit''}"
  shows "shown (prop_opt v k)"
  using assms(1) unfolding ts_LimitView_def
  by (rule scalar_field) (use assms(2) in \<open>auto simp: scalar_eval LimitView_fields_def\<close>)

lemma editor_drawn: "editor_typed e \<Longrightarrow> isl (LimitEditor r e) = False"
proof -
  assume "editor_typed e"
  then have t: "has_type ts_LimitView (JObj (ed_form e))" by (simp add: editor_typed_def)
  then obtain n where n: "own (ed_form e) ''limit_value'' = JNum n" by (auto simp: ts_defs split: jsv.splits)
  have "isl (js_String (own (ed_form e) k)) = False"
    if "k \<in> {''service_name'', ''customer_id'', ''rate_limit_id''}" for k
    using js_String_drawn [OF limit_shown [OF t, of k]] that by auto
  then show ?thesis
    unfolding LimitEditor_def preview_def tuple_of_def n split_def by (simp add: isl_then_do)
qed

lemma hint_drawn: "has_type ts_ResolveView v \<Longrightarrow> isl (effective_hint v) = False"
proof -
  assume t: "has_type ts_ResolveView v"
  have "isl (js_String (prop_opt v k)) = False"
    if "k \<in> {''customer_id'', ''rate_limit_id'', ''limit_value'', ''time_unit'', ''note''}" for k
    by (rule js_String_drawn [OF scalar_field [OF t [unfolded ts_ResolveView_def]]])
       (use that in \<open>auto simp: scalar_eval LimitView_fields_def\<close>)
  then show ?thesis
    unfolding effective_hint_def Let_def by (simp add: isl_then_do)
qed

lemma limits_typed_drawn: "limits_typed st \<Longrightarrow> limits_drawn ss st"
proof -
  assume st: "limits_typed st"
  then obtain ls where ls: "lp_limits st = JArr ls" "\<forall>l \<in> set ls. has_type ts_LimitView l"
    by (auto simp: limits_typed_def simp del: has_type.simps(10) split: jsv.splits)
  then have "list_all (\<lambda>(cells, _, _). list_all shown cells) (limits_table ss (lp_limits st))"
    by (auto simp: limits_table_def list_all_iff intro!: limit_shown)
  moreover have "isl (effective_hint (lp_effective st)) = False" if "truthy (lp_effective st)"
    using st that hint_drawn by (auto simp: limits_typed_def nullable_def simp del: has_type.simps(10))
  ultimately show ?thesis
    using st editor_drawn by (auto simp: limits_typed_def limits_drawn_def simp del: has_type.simps split: option.splits)
qed

lemma usage_shown:
  assumes "usage_page_typed st" "truthy (up_usage st)"
    and "k \<in> {''limit'', ''consumed'', ''remaining'', ''reset_at'', ''fetched_at''}"
  shows "shown (prop_opt (up_usage st) k)"
proof -
  have "has_type ts_UsageView (up_usage st)"
    using assms(1,2) by (auto simp: usage_page_typed_def nullable_def simp del: has_type.simps(10))
  then show ?thesis unfolding ts_UsageView_def
    by (rule scalar_field) (use assms(3) in \<open>auto simp: scalar_eval\<close>)
qed

lemma usage_typed_drawn: "usage_page_typed st \<Longrightarrow> usage_drawn now1 now2 st"
  using usage_shown [of st] by (auto simp: usage_page_typed_def usage_drawn_def usage_panel_def Let_def)

lemma audit_typed_drawn: "audit_page_typed st \<Longrightarrow> audit_drawn st"
proof -
  assume st: "audit_page_typed st"
  have "list_all shown (map (prop_opt e) [''changed_at'', ''changed_by'', ''operation'', ''config_id''])"
    if "has_type ts_AuditView e" for e
    using that unfolding ts_AuditView_def by (rule scalar_cells) (simp add: scalar_eval)
  then show ?thesis using st
    by (auto simp: audit_page_typed_def audit_drawn_def audit_table_def list_all_iff split: jsv.splits)
qed

lemma services_typed_drawn: "services_page_typed st \<Longrightarrow> services_drawn ss st"
proof -
  assume st: "services_page_typed st"
  have "list_all shown (map (prop_opt e) [''service_name'', ''display_name'', ''owner''])"
    if "has_type ts_ServiceView e" for e
    using that unfolding ts_ServiceView_def by (rule scalar_cells) (simp add: scalar_eval)
  then show ?thesis using st
    by (auto simp: services_page_typed_def services_drawn_def services_table_def list_all_iff split: jsv.splits)
qed

lemma review_panel_typed:
  assumes "has_type ts_Review r"
  shows "\<exists>p. review_panel r = Inr p \<and> list_all shown [rv_kind p, rv_reason p, rv_initiator p, rv_createdAt p]"
proof -
  have "list_all shown (map (prop_opt r) [''reason'', ''initiator'', ''createdAt''])"
    using assms unfolding ts_Review_def by (rule scalar_cells) (simp add: scalar_eval)
  moreover obtain ob op t where "r = JObj ob" "own ob ''op'' = JObj op" "own op ''kind'' = JStr t"
    using assms by (cases r) (auto simp: ts_Review_def field_def split: jsv.splits)
  ultimately show ?thesis by (simp add: review_panel_def)
qed

lemma reviews_typed_drawn: "reviews_page_typed st \<Longrightarrow> reviews_drawn st"
proof -
  assume st: "reviews_page_typed st"
  then obtain rs where rs: "rp_reviews st = JArr rs" "\<forall>r \<in> set rs. has_type ts_Review r"
    by (auto simp: reviews_page_typed_def split: jsv.splits)
  from rs(2) have "\<exists>ps. map_throw review_panel rs = Inr ps
      \<and> list_all (\<lambda>p. list_all shown [rv_kind p, rv_reason p, rv_initiator p, rv_createdAt p]) ps"
    by (induction rs) (auto dest!: review_panel_typed)
  then show ?thesis using st rs(1) by (auto simp: reviews_drawn_def review_panels_def reviews_page_typed_def)
qed

end
