(* ===== verification/Markup.thy ===== *)
theory Markup
  imports Console_Display
begin

text \<open>
  What a component renders: a tree of elements with attributes, handlers and text, as React makes it from JSX. The
  expressions between the elements may throw, and then nothing is rendered. A handler is described by the event it
  stands for, so that the events a user can cause are read off the tree. The identifying \<^verbatim>\<open>key\<close> of an element
  of a list is not part of what is shown, and left out. Characters outside Latin-1 have a stand-in in ASCII: an arrow is
  \<^verbatim>\<open>->\<close>, a dash \<^verbatim>\<open>-\<close>, an ellipsis \<^verbatim>\<open>...\<close>, a warning sign \<^verbatim>\<open>(!)\<close>, at least is \<^verbatim>\<open>>=\<close>.
\<close>

section \<open>Trees\<close>

text \<open>
  A change handler gets the new text of its field. Two buttons ask the user first, for a text that may be refused, or for
  a confirmation; the answer is a part of their event.
\<close>

datatype 'e ui_handler =
    No_handler
  | On_click 'e
  | On_change "string \<Rightarrow> 'e"
  | On_prompt "string option \<Rightarrow> 'e"
  | On_confirm "bool \<Rightarrow> 'e"

type_synonym attributes = "(string \<times> string) list"

datatype 'e node =
    Text string
  | Element string attributes "'e ui_handler" "'e node list"

type_synonym 'e markup = "'e node list js"

text \<open>
  A child that is text or a number becomes a text. Nothing is rendered for the empty text, a truth value and what is
  missing; an array is rendered one by one; an object is an error.
\<close>

fun child :: "jsv \<Rightarrow> 'e markup" where
  "child JUndefined = Inr []"
| "child JNull = Inr []"
| "child (JBool b) = Inr []"
| "child (JNum n) = Inr [Text (num_to_string n)]"
| "child (JStr s) = Inr (if s = [] then [] else [Text s])"
| "child (JArr xs) = then_do (map_throw child xs) (\<lambda>ns. Inr (concat ns))"
| "child (JObj ob) = Inl (OtherError ''Objects are not valid as a React child'')"

definition caption :: "string \<Rightarrow> 'e markup" where
  "caption s = child (JStr s)"

definition each :: "('a \<Rightarrow> 'e markup) \<Rightarrow> 'a list \<Rightarrow> 'e markup" where
  "each f xs = then_do (map_throw f xs) (\<lambda>ns. Inr (concat ns))"

abbreviation fragment :: "'e markup list \<Rightarrow> 'e markup" where
  "fragment \<equiv> each (\<lambda>m. m)"

definition control :: "string \<Rightarrow> attributes \<Rightarrow> 'e ui_handler \<Rightarrow> 'e markup list \<Rightarrow> 'e markup" where
  "control tag as h ms = then_do (fragment ms) (\<lambda>ns. Inr [Element tag as h ns])"

abbreviation elem :: "string \<Rightarrow> attributes \<Rightarrow> 'e markup list \<Rightarrow> 'e markup" where
  "elem tag as \<equiv> control tag as No_handler"

text \<open>\<^verbatim>\<open>{x && ...}\<close>, for a truth value and for any value.\<close>

definition shown_if :: "bool \<Rightarrow> 'e markup \<Rightarrow> 'e markup" where
  "shown_if b m = (if b then m else Inr [])"

definition shown_if_truthy :: "jsv \<Rightarrow> 'e markup \<Rightarrow> 'e markup" where
  "shown_if_truthy v m = (if truthy v then m else child v)"

text \<open>The attributes of a field. A value that is not there leaves the attribute out.\<close>

definition value_attr :: "jsv \<Rightarrow> attributes js" where
  "value_attr v = (if nullish v then Inr [] else then_do (js_String v) (\<lambda>t. Inr [(''value'', t)]))"

definition disabled :: "bool \<Rightarrow> attributes" where
  "disabled b = (if b then [(''disabled'', [])] else [])"

definition input :: "attributes \<Rightarrow> jsv \<Rightarrow> (string \<Rightarrow> 'e) \<Rightarrow> 'e markup" where
  "input as v f = then_do (value_attr v) (\<lambda>va. control ''input'' (as @ va) (On_change f) [])"

definition select :: "jsv \<Rightarrow> (string \<Rightarrow> 'e) \<Rightarrow> (string \<times> string) list \<Rightarrow> 'e markup" where
  "select v f opts =
     then_do (value_attr v) (\<lambda>va.
       control ''select'' va (On_change f) (map (\<lambda>p. elem ''option'' [(''value'', fst p)] [caption (snd p)]) opts))"

definition button :: "attributes \<Rightarrow> 'e ui_handler \<Rightarrow> string \<Rightarrow> 'e markup" where
  "button as h label = control ''button'' as h [caption label]"

section \<open>What a user can do\<close>

text \<open>The choices of a selection are the values of its options.\<close>

fun option_value :: "'e node \<Rightarrow> string list" where
  "option_value (Element tag as h ns) = (if tag = ''option'' then map snd (filter (\<lambda>(k, _). k = ''value'') as) else [])"
| "option_value (Text t) = []"

fun handler_events :: "string set \<Rightarrow> 'e ui_handler \<Rightarrow> 'e set" where
  "handler_events choices No_handler = {}"
| "handler_events choices (On_click e) = {e}"
| "handler_events choices (On_change f) = f ` choices"
| "handler_events choices (On_prompt f) = range f"
| "handler_events choices (On_confirm f) = range f"

text \<open>A disabled control produces no event; into a field that is no selection any text can be typed.\<close>

primrec node_events :: "'e node \<Rightarrow> 'e set" where
  "node_events (Text t) = {}"
| "node_events (Element tag as h ns) =
     (if ''disabled'' \<in> set (map fst as) then {}
      else handler_events (if tag = ''select'' then set (concat (map option_value ns)) else UNIV) h)
     \<union> \<Union> (set (map node_events ns))"

text \<open>The events of a rendered tree; \<open>None\<close> when rendering throws.\<close>

definition events :: "'e markup \<Rightarrow> 'e set option" where
  "events m = (case m of Inl e \<Rightarrow> None | Inr ns \<Rightarrow> Some (\<Union> (set (map node_events ns))))"

section \<open>Reading the events off a description\<close>

definition both :: "'e set option \<Rightarrow> 'e set option \<Rightarrow> 'e set option" where
  "both x y = (case (x, y) of (Some A, Some B) \<Rightarrow> Some (A \<union> B) | _ \<Rightarrow> None)"

lemma both_simps [simp]: "both (Some A) (Some B) = Some (A \<union> B)" "both None y = None" "both x None = None"
  by (simp_all add: both_def split: option.splits)

named_theorems markup

lemma events_Inr: "events (Inr ns) = Some (\<Union> (set (map node_events ns)))"
  by (simp add: events_def)

lemma events_nothing [markup, simp]: "events (Inr []) = Some {}"
  by (simp add: events_def)

lemma events_each_Nil [markup]: "events (each f []) = Some {}"
  by (simp add: each_def events_def)

lemma events_each_Cons [markup]: "events (each f (x # xs)) = both (events (f x)) (events (each f xs))"
  by (cases "f x"; cases "map_throw f xs") (auto simp: each_def events_def both_def)

lemma events_control [markup]:
  assumes "tag \<noteq> ''select''"
  shows "events (control tag as h ms) =
    both (Some (if ''disabled'' \<in> set (map fst as) then {} else handler_events UNIV h)) (events (fragment ms))"
  using assms by (cases "fragment ms") (auto simp: control_def events_def)


lemma events_child [markup]: "shown v \<Longrightarrow> events (child v) = Some {}"
  by (cases v) (simp_all add: events_def shown_def)

lemma events_caption [markup]: "events (caption s) = Some {}"
  by (simp add: caption_def events_def)

lemma events_button [markup]:
  "events (button as h label) = Some (if ''disabled'' \<in> set (map fst as) then {} else handler_events UNIV h)"
  by (simp add: button_def markup)

lemma value_attr_shown: "shown v \<Longrightarrow> \<exists>va. value_attr v = Inr va \<and> ''disabled'' \<notin> set (map fst va)"
  using text_of_primitive [of v] by (auto simp: value_attr_def)

lemma events_input [markup]:
  assumes "shown v"
  shows "events (input as v f) = Some (if ''disabled'' \<in> set (map fst as) then {} else range f)"
proof -
  obtain va where "value_attr v = Inr va" "''disabled'' \<notin> fst ` set va" using value_attr_shown [OF assms] by auto
  then show ?thesis by (simp add: input_def markup image_Un)
qed

lemma events_select [markup]:
  assumes "shown v"
  shows "events (select v f opts) = Some (f ` fst ` set opts)"
proof -
  have opts: "fragment (map (\<lambda>p. elem ''option'' [(''value'', fst p)] [caption (snd p)]) opts)
      = Inr (map (\<lambda>p. Element ''option'' [(''value'', fst p)] No_handler (if snd p = [] then [] else [Text (snd p)])) opts)"
  proof (induction opts)
    case (Cons p opts)
    then show ?case by (auto simp: control_def each_def caption_def then_do_eq_Inr)
  qed (simp add: each_def)
  obtain va where "value_attr v = Inr va" "''disabled'' \<notin> fst ` set va" using value_attr_shown [OF assms] by auto
  then show ?thesis
    unfolding select_def by (simp add: control_def [of "''select''"] opts events_def image_image) (auto split: if_splits)
qed

lemma events_shown_if [markup]: "events (shown_if b m) = (if b then events m else Some {})"
  by (simp add: shown_if_def)

lemma events_shown_if_truthy [markup]: "events (shown_if_truthy v m) = (if truthy v then events m else Some {})"
proof -
  have "shown v" if "\<not> truthy v" using that by (cases v) simp_all
  then show ?thesis by (simp add: shown_if_truthy_def events_child)
qed

text \<open>The rows of a table: the events of the whole are those of each.\<close>

lemma events_each:
  assumes "\<And>x. x \<in> set xs \<Longrightarrow> events (f x) = Some (E x)"
  shows "events (each f xs) = Some (\<Union>x \<in> set xs. E x)"
  using assms by (induction xs) (simp_all add: markup)

text \<open>Events of a part as events of the whole.\<close>

definition lift :: "('a \<Rightarrow> 'b) \<Rightarrow> 'a markup \<Rightarrow> 'b markup" where
  "lift f m = then_do m (\<lambda>ns. Inr (map (map_node f) ns))"

lemma option_value_map [simp]: "option_value (map_node f n) = option_value n"
  by (cases n) simp_all

lemma handler_events_map: "handler_events C (map_ui_handler f h) = f ` handler_events C h"
  by (cases h) auto

lemma node_events_map: "node_events (map_node f n) = f ` node_events n"
proof (induction n)
  case (Element tag as h ns)
  have "\<Union> (node_events ` map_node f ` set ns) = f ` \<Union> (node_events ` set ns)" using Element.IH by auto
  then show ?case by (simp add: handler_events_map image_Un comp_def)
qed simp

lemma events_lift [markup]: "events (lift f m) = map_option ((`) f) (events m)"
  by (cases m) (auto simp: lift_def events_def node_events_map)

section \<open>The text on the screen\<close>

primrec node_text :: "'e node \<Rightarrow> string" where
  "node_text (Text t) = t"
| "node_text (Element tag as h ns) = concat (map node_text ns)"

definition text_of :: "'e markup \<Rightarrow> string js" where
  "text_of m = then_do m (\<lambda>ns. Inr (concat (map node_text ns)))"

text \<open>Sets of events, in a normal form.\<close>

lemmas set_ac = Un_ac insert_commute

end
