(* ===== verification/Page_Views.thy ===== *)
theory Page_Views
  imports Markup
begin

text \<open>
  The trees the pages of \<^verbatim>\<open>frontend/src/pages/\<close> and the shared pieces of \<^verbatim>\<open>frontend/src/components.tsx\<close> render.
  The event of a control is the one the machine of the page is driven by; a row of a table is named by its position.
\<close>

section \<open>Shared pieces\<close>

definition className :: "string \<Rightarrow> attributes" where
  "className c = [(''class'', c)]"

definition KindBadge_view :: "jsv \<Rightarrow> 'e markup" where
  "KindBadge_view isDefault =
     elem ''span'' (className (''badge '' @ (if truthy isDefault then ''badge-default'' else ''badge-override'')))
       [caption (KindBadge (truthy isDefault))]"

definition ErrorText_view :: "ui_error option \<Rightarrow> 'e markup" where
  "ErrorText_view e =
     (case ErrorText e of
        None \<Rightarrow> Inr []
      | Some msg \<Rightarrow> elem ''p'' (className ''error'' @ [(''role'', ''alert'')]) [caption msg])"

definition Field :: "string \<Rightarrow> 'e markup \<Rightarrow> 'e markup" where
  "Field label m =
     elem ''label'' (className ''field'') [elem ''span'' (className ''field-label'') [caption label], m]"

definition fmt :: "jsv \<Rightarrow> string" where
  "fmt v = (case stringify v of None \<Rightarrow> ''-'' | Some t \<Rightarrow> t)"

definition DiffTable_view :: "jsv \<Rightarrow> jsv \<Rightarrow> 'e markup" where
  "DiffTable_view oldRow newRow =
     elem ''table'' (className ''diff'')
       [elem ''tbody'' []
          [each (\<lambda>r. elem ''tr'' (className (if fd_changed r then ''changed'' else []))
             [elem ''th'' [(''scope'', ''row'')] [caption (fd_field r)],
              elem ''td'' [] [caption (fmt (fd_before r))],
              elem ''td'' [(''aria-hidden'', ''true'')] [caption ''->''],
              elem ''td'' [] [caption (fmt (fd_after r))],
              elem ''td'' [] [caption (if fd_changed r then ''changed'' else ''unchanged'')]])
            (diffRows oldRow newRow)]]"

text \<open>The notice two pages show, and the parts of their tables.\<close>

definition notice_view :: "string option \<Rightarrow> 'e markup" where
  "notice_view n =
     (case n of
        Some (c # cs) \<Rightarrow> elem ''p'' (className ''notice'' @ [(''role'', ''status'')]) [caption (c # cs)]
      | _ \<Rightarrow> Inr [])"

definition head_row :: "string list \<Rightarrow> 'e markup" where
  "head_row titles = elem ''thead'' [] [elem ''tr'' [] (map (\<lambda>t. elem ''th'' [] [caption t]) titles)]"

definition value_cell :: "jsv \<Rightarrow> string \<Rightarrow> 'e markup" where
  "value_cell x k = then_do (get_prop x k) (\<lambda>v. elem ''td'' [] [child v])"

definition no_rows :: "nat \<Rightarrow> string \<Rightarrow> 'e markup" where
  "no_rows n label =
     elem ''tr'' [] [elem ''td'' ((''colspan'', nat_str (int n)) # className ''muted'') [caption label]]"

text \<open>\<^verbatim>\<open>rows.map(...)\<close> followed by what is shown for no rows.\<close>

definition rows_view :: "string \<Rightarrow> jsv \<Rightarrow> (nat \<Rightarrow> jsv \<Rightarrow> 'e markup) \<Rightarrow> 'e markup \<Rightarrow> 'e markup list" where
  "rows_view name rows f none =
     (case rows of
        JArr ls \<Rightarrow> [each (\<lambda>(i, l). f i l) (enumerate 0 ls), shown_if (ls = []) none]
      | _ \<Rightarrow> [Inl (OtherError (name @ ''.map is not a function''))])"

section \<open>The limits page\<close>

definition kind_of :: "string \<Rightarrow> Kind" where
  "kind_of t = (if t = ''defaults'' then K_defaults else if t = ''overrides'' then K_overrides else K_all)"

fun kind_text :: "Kind \<Rightarrow> string" where
  "kind_text K_all = ''all''"
| "kind_text K_defaults = ''defaults''"
| "kind_text K_overrides = ''overrides''"

definition limit_row_view :: "SessionState \<Rightarrow> nat \<Rightarrow> jsv \<Rightarrow> LimitsEvent markup" where
  "limit_row_view ss i l =
     elem ''tr'' []
       [value_cell l ''service_name'', value_cell l ''customer_id'', value_cell l ''rate_limit_id'', value_cell l ''limit_value'', value_cell l ''time_unit'',
        elem ''td'' [] [then_do (get_prop l ''is_default'') KindBadge_view],
        elem ''td'' []
          [if offers ss Limit_write (prop_opt l ''service_name'') then button [] (On_click (Click_edit i)) ''Edit''
           else elem ''span'' (className ''muted'') [caption ''read-only'']]]"

definition LimitEditor_view :: "obj \<Rightarrow> Editor \<Rightarrow> EditorEvent markup" where
  "LimitEditor_view initial e =
     (let form = ed_form e; title = (if isNew initial then ''Create limit'' else ''Edit limit'') in
      then_do (preview initial form) (\<lambda>(oldRow, newRow).
      then_do (tuple_of form) (\<lambda>tuple.
        elem ''div'' (className ''panel'' @ [(''role'', ''dialog''), (''aria-label'', title)])
          [elem ''h3'' [] [caption title],
           Field ''Service'' (input (disabled (\<not> isNew initial)) (own form ''service_name'') (In_key F_service_name)),
           Field (''Customer ('' @ CHR 0x27 # ''*'' @ CHR 0x27 # '' = default for all)'')
             (input (disabled (\<not> isNew initial)) (own form ''customer_id'') (In_key F_customer_id)),
           Field ''Rate limit id'' (input (disabled (\<not> isNew initial)) (own form ''rate_limit_id'') (In_key F_rate_limit_id)),
           Field ''Limit value (>= 0)'' (input [(''type'', ''number'')] (own form ''limit_value'') In_limit),
           Field ''Unit'' (select (own form ''time_unit'') In_unit (map (\<lambda>u. (u, u)) UNITS)),
           shown_if (own form ''customer_id'' = JStr ''*'')
             (elem ''p'' (className ''warn'')
                [caption (''(!) This is a '' @ CHR 0x27 # ''*'' @ CHR 0x27 # '' default - it applies to every customer of ''),
                 child (own form ''service_name''), caption ''/'', child (own form ''rate_limit_id''),
                 caption '' without an explicit override.'']),
           elem ''h4'' [] [caption ''Change preview (-> limit_config_audit)''],
           DiffTable_view oldRow newRow,
           ErrorText_view (ed_error e),
           notice_view (ed_notice e),
           elem ''div'' (className ''actions'')
             [button [] (On_click Click_cancel) ''Cancel'',
              button (className ''primary'') (On_click Click_save) (if isNew initial then ''Create'' else ''Save change'')],
           shown_if (\<not> isNew initial)
             (elem ''div'' (className ''delete-box'')
                [elem ''p'' [] [caption ''Delete? Type '', elem ''code'' [] [caption tuple], caption '' to confirm:''],
                 input [] (JStr (ed_confirm e)) In_confirm,
                 button (className ''danger'' @ disabled (ed_confirm e \<noteq> tuple)) (On_click Click_delete) ''Delete''])])))"

definition LimitsBrowser_view :: "SessionState \<Rightarrow> LimitsPage \<Rightarrow> LimitsEvent markup" where
  "LimitsBrowser_view ss st =
     (let fl = lp_filters st in
      elem ''section'' []
        [elem ''h2'' [] [caption ''Limits''],
         elem ''div'' (className ''filters'')
           [Field ''Service'' (input [(''placeholder'', ''search-svc'')] (JStr (fl_service fl)) In_service),
            Field ''Customer'' (input [(''placeholder'', ''cust_42 or *'')] (JStr (fl_customer fl)) In_customer),
            Field ''Rate limit id'' (input [(''placeholder'', ''default'')] (JStr (fl_rlid fl)) In_rlid),
            Field ''Show'' (select (JStr (kind_text (fl_kind fl))) (\<lambda>t. In_kind (kind_of t))
              [(''all'', ''all''), (''defaults'', ''defaults only''), (''overrides'', ''overrides only'')]),
            button [] (On_click Click_search) ''Search'',
            shown_if (offers ss Limit_write (JStr (fl_service fl))) (button [] (On_click Click_new) ''+ New limit'')],
         ErrorText_view (lp_error st),
         elem ''table'' (className ''grid'')
           [head_row [''Service'', ''Customer'', ''RL id'', ''Limit'', ''Unit'', ''Kind'', []],
            elem ''tbody'' []
              (rows_view ''limits'' (lp_limits st) (limit_row_view ss) (no_rows 7 ''no limits - search a service''))],
         shown_if_truthy (lp_effective st)
           (elem ''p'' (className ''hint'') [then_do (effective_hint (lp_effective st)) caption]),
         (case lp_editing st of
            None \<Rightarrow> Inr []
          | Some initial \<Rightarrow> lift In_the_editor (LimitEditor_view initial (lp_editor st)))])"

section \<open>The other pages\<close>

text \<open>A missing limit or reset time is shown as a dash. The two windows are named at two readings of the clock.\<close>

definition or_dash :: "jsv \<Rightarrow> 'e markup" where
  "or_dash v = (if nullish v then caption ''-'' else child v)"

definition entry :: "string \<Rightarrow> 'e markup list \<Rightarrow> 'e markup list" where
  "entry label ms = [elem ''dt'' [] [caption label], elem ''dd'' [] ms]"

definition LiveUsage_view :: "SessionState \<Rightarrow> int \<Rightarrow> int \<Rightarrow> UsagePage \<Rightarrow> UsageEvent markup" where
  "LiveUsage_view ss now1 now2 st =
     (let u = up_usage st; refund = offers ss Op_refund (prop_opt u ''service_name'');
          reset = offers ss Op_reset (prop_opt u ''service_name'') in
      elem ''section'' []
        [elem ''h2'' [] [caption ''Live usage''],
         elem ''p'' (className ''muted'')
           [caption (''source: quotaenforcer read API -> Redis (never cached, '' @ CHR 0xA7 # ''2.4)'')],
         elem ''div'' (className ''filters'')
           [Field ''Service'' (input [] (JStr (up_service st)) U_service),
            Field ''Customer'' (input [] (JStr (up_customer st)) U_customer),
            Field ''Rate limit id'' (input [] (JStr (up_rlid st)) U_rlid),
            button [] (On_click U_lookup) ''Lookup''],
         ErrorText_view (up_error st),
         notice_view (up_notice st),
         shown_if_truthy u
           (elem ''div'' (className ''panel'')
              [shown_if (\<not> truthy (prop_opt u ''configured''))
                 (elem ''p'' (className ''warn'') [caption (''unconfigured -> allow (fail-open, parent '' @ CHR 0xA7 # ''9)'')]),
               elem ''dl'' (className ''kv'')
                 (entry ''limit'' [or_dash (prop_opt u ''limit'')]
                  @ entry ''consumed'' [child (prop_opt u ''consumed'')]
                  @ entry ''remaining'' [child (prop_opt u ''remaining''),
                      shown_if (overQuota st)
                        (elem ''span'' (className ''warn'') [caption ('' (!) over quota (bounded overshoot, '' @ CHR 0xA7 # ''6.4)'')])]
                  @ entry ''reset_at'' [or_dash (prop_opt u ''reset_at'')]
                  @ entry ''window (computed)'' [caption ''minute: '', caption (windowId Minute now1),
                      caption (CHR '' '' # CHR 0xB7 # '' day: ''), caption (windowId Day now2)]
                  @ entry ''fetched_at'' [child (prop_opt u ''fetched_at'')]),
               shown_if (refund \<or> reset)
                 (elem ''div'' (className ''actions'')
                    [shown_if refund (button [] (On_prompt U_refund) ''Refund...''),
                     shown_if reset (button [] (On_confirm U_reset) ''Reset window...'')])])])"

definition audit_row_view :: "AuditPage \<Rightarrow> nat \<Rightarrow> jsv \<Rightarrow> AuditEvent markup" where
  "audit_row_view st i e =
     (let expanded = (ap_expanded st = Some (prop_opt e ''audit_id'')) in
      fragment
        [elem ''tr'' []
           [value_cell e ''changed_at'', value_cell e ''changed_by'', value_cell e ''operation'',
            elem ''td'' [] [caption ''#'', child (prop_opt e ''config_id'')],
            elem ''td'' [] [button [] (On_click (Au_toggle i)) (if expanded then ''hide'' else ''diff'')]],
         shown_if expanded
           (elem ''tr'' [] [elem ''td'' [(''colspan'', ''5'')]
              [DiffTable_view (prop_opt e ''old_row'') (prop_opt e ''new_row'')]])])"

definition AuditBrowser_view :: "AuditPage \<Rightarrow> AuditEvent markup" where
  "AuditBrowser_view st =
     elem ''section'' []
       [elem ''h2'' [] [caption ''Audit / history''],
        elem ''div'' (className ''filters'')
          [Field ''Service'' (input [] (JStr (ap_service st)) Au_service),
           Field ''Customer'' (input [] (JStr (ap_customer st)) Au_customer),
           Field ''Rate limit id'' (input [] (JStr (ap_rlid st)) Au_rlid),
           Field ''By'' (input [] (JStr (ap_changedBy st)) Au_changedBy),
           Field ''Op'' (select (JStr (ap_operation st)) Au_operation
             [([], ''all''), (''INSERT'', ''INSERT''), (''UPDATE'', ''UPDATE''), (''DELETE'', ''DELETE'')]),
           button [] (On_click Au_search) ''Search''],
        ErrorText_view (ap_error st),
        elem ''table'' (className ''grid'')
          [head_row [''When (UTC)'', ''By'', ''Op'', ''Config'', []],
           elem ''tbody'' []
             (rows_view ''entries'' (ap_entries st) (audit_row_view st) (no_rows 5 ''no entries - search a service''))]]"

definition service_row_view :: "SessionState \<Rightarrow> nat \<Rightarrow> jsv \<Rightarrow> ServicesEvent markup" where
  "service_row_view ss i s =
     elem ''tr'' []
       [value_cell s ''service_name'', value_cell s ''display_name'', value_cell s ''owner'',
        elem ''td'' []
          [shown_if (offers ss Service_edit (prop_opt s ''service_name'')) (button [] (On_click (Sv_edit i)) ''Edit'')]]"

definition Services_view :: "SessionState \<Rightarrow> ServicesPage \<Rightarrow> ServicesEvent markup" where
  "Services_view ss st =
     (let form = sp_form st; editing = editing_service st in
      elem ''section'' []
        [elem ''h2'' [] [caption ''Services''],
         ErrorText_view (sp_error st),
         elem ''table'' (className ''grid'')
           [head_row [''Service'', ''Display name'', ''Owner'', []],
            elem ''tbody'' []
              (rows_view ''services'' (sp_services st) (service_row_view ss) (no_rows 4 ''no services registered''))],
         shown_if (service_panel ss st)
           (elem ''div'' (className ''panel'')
              [elem ''h3'' []
                 [caption (case sp_editingName st of Some (c # cs) \<Rightarrow> ''Edit '' @ c # cs | _ \<Rightarrow> ''Register a service'')],
               Field ''Service name (immutable)'' (input (disabled editing) (JStr (sf_service_name form)) Sv_name),
               Field ''Display name'' (input [] (JStr (sf_display_name form)) Sv_display),
               Field ''Owner'' (input [] (JStr (sf_owner form)) Sv_owner),
               elem ''div'' (className ''actions'')
                 [shown_if editing (button [] (On_click Sv_cancel) ''Cancel''),
                  button (className ''primary'') (On_click Sv_submit) (if editing then ''Save'' else ''Register'')]])])"

text \<open>
  \<^verbatim>\<open>JSON.stringify(v, null, 2)\<close>: as without the last argument, with every element and member on a line of its own,
  indented by two more blanks than the bracket that opens it.
\<close>

definition new_line :: "nat \<Rightarrow> string" where
  "new_line n = CHR 0x0A # replicate n (CHR '' '')"

definition bracketed :: "nat \<Rightarrow> string \<Rightarrow> string \<Rightarrow> string list \<Rightarrow> string" where
  "bracketed n l r ts =
     (if ts = [] then l @ r else l @ new_line (n + 2) @ join ('','' @ new_line (n + 2)) ts @ new_line n @ r)"

fun stringify_indented :: "nat \<Rightarrow> jsv \<Rightarrow> string option" where
  "stringify_indented n (JArr xs) =
     Some (bracketed n ''['' '']''
       (map (\<lambda>x. case stringify_indented (n + 2) x of None \<Rightarrow> ''null'' | Some t \<Rightarrow> t) xs))"
| "stringify_indented n (JObj ob) =
     Some (bracketed n ''{'' ''}''
       (concat (map (\<lambda>(k, v). case stringify_indented (n + 2) v of None \<Rightarrow> [] | Some t \<Rightarrow> [quote k @ '': '' @ t]) ob)))"
| "stringify_indented n v = stringify v"

definition review_view :: "nat \<Rightarrow> jsv \<Rightarrow> ReviewsEvent markup" where
  "review_view i r =
     then_do (get_prop r ''op'') (\<lambda>op.
     then_do (get_prop op ''kind'') (\<lambda>kind.
       elem ''div'' (className ''panel'')
         [elem ''p'' [] [elem ''strong'' [] [child kind], caption '' - '', child (prop_opt r ''reason'')],
          elem ''p'' (className ''muted'')
            [caption ''initiated by '', child (prop_opt r ''initiator''), caption '' at '', child (prop_opt r ''createdAt'')],
          elem ''pre'' (className ''op'') [case stringify_indented 0 op of None \<Rightarrow> Inr [] | Some t \<Rightarrow> caption t],
          elem ''div'' (className ''actions'')
            [button (className ''danger'') (On_click (Rv_decide i False)) ''Reject'',
             button (className ''primary'') (On_click (Rv_decide i True)) ''Approve & apply'']]))"

definition Reviews_view :: "ReviewsPage \<Rightarrow> ReviewsEvent markup" where
  "Reviews_view st =
     elem ''section'' []
       ([elem ''h2'' [] [caption ''Pending reviews''],
         ErrorText_view (rp_error st)]
        @ rev (rows_view ''reviews'' (rp_reviews st) review_view
            (elem ''p'' (className ''muted'') [caption ''no pending reviews''])))"

end
