(* ===== verification/Page_Controls.thy ===== *)
theory Page_Controls
  imports Page_Views
begin

text \<open>
  The controls of the rendered pages and the machines that handle their events: on a typed state every page can be
  rendered, and the events its controls can produce are exactly those the machine of the page accepts.
\<close>

section \<open>The pieces have no controls of their own\<close>

lemma events_pieces [markup]:
  "events (KindBadge_view v) = Some {}" "events (ErrorText_view e) = Some {}" "events (notice_view n) = Some {}"
  "events (no_rows k label) = Some {}" "events (Field label m) = events m"
  by (auto simp: KindBadge_view_def ErrorText_view_def notice_view_def no_rows_def Field_def markup both_def
      split: option.splits list.splits)

lemma events_each_silent: "(\<And>x. x \<in> set xs \<Longrightarrow> events (f x) = Some {}) \<Longrightarrow> events (each f xs) = Some {}"
  using events_each [of xs f "\<lambda>_. {}"] by simp

lemma each_map: "each f (map g xs) = each (\<lambda>x. f (g x)) xs"
proof -
  have "map_throw f (map g xs) = map_throw (\<lambda>x. f (g x)) xs" by (induction xs) simp_all
  then show ?thesis by (simp add: each_def)
qed

lemma events_head_row [markup]: "events (head_row titles) = Some {}"
  by (simp add: head_row_def markup each_map events_each_silent)

lemma events_DiffTable [markup]: "events (DiffTable_view a b) = Some {}"
  by (simp add: DiffTable_view_def markup events_each_silent)

lemma events_value_cell: "has_type (T_object fs) v \<Longrightarrow> has_scalar fs k \<Longrightarrow> events (value_cell v k) = Some {}"
  using scalar_field [of fs v k] by (cases v) (simp_all add: value_cell_def markup)

lemma events_or_dash [markup]: "shown v \<Longrightarrow> events (or_dash v) = Some {}"
  by (simp add: or_dash_def markup)

text \<open>The body of a table.\<close>

lemma events_rows:
  assumes "\<And>i. i < length ls \<Longrightarrow> events (f i (ls ! i)) = Some (E i)" "events none = Some {}"
  shows "events (fragment (rows_view name (JArr ls) f none)) = Some (\<Union>i < length ls. E i)"
    "events (fragment (rev (rows_view name (JArr ls) f none))) = Some (\<Union>i < length ls. E i)"
proof -
  have "events (each (\<lambda>(i, l). f i l) (enumerate 0 ls)) = Some (\<Union>x \<in> set (enumerate 0 ls). E (fst x))"
    by (rule events_each) (use assms(1) in \<open>auto simp: in_set_enumerate_eq\<close>)
  moreover have "fst ` set (enumerate 0 ls) = {..< length ls}"
    by (simp add: enumerate_eq_zip flip: set_map) auto
  then have "(\<Union>x \<in> set (enumerate 0 ls). E (fst x)) = (\<Union>i < length ls. E i)" by (metis image_image)
  ultimately show "events (fragment (rows_view name (JArr ls) f none)) = Some (\<Union>i < length ls. E i)"
    "events (fragment (rev (rows_view name (JArr ls) f none))) = Some (\<Union>i < length ls. E i)"
    using assms(2) by (auto simp: rows_view_def markup)
qed

lemma row_at_array [simp]: "row_at (JArr ls) i = (if i < length ls then Some (ls ! i) else None)"
  by (simp add: row_at_def)

section \<open>The limits page\<close>

lemma limit_row_controls:
  assumes "has_type ts_LimitView l"
  shows "events (limit_row_view ss i l)
    = Some (if offers ss Limit_write (prop_opt l ''service_name'') then {Click_edit i} else {})"
proof -
  note cells = assms [unfolded ts_LimitView_def, THEN events_value_cell]
  obtain b where "get_prop l ''is_default'' = Inr b" using is_default_read [OF assms] by blast
  then show ?thesis
    by (simp add: limit_row_view_def markup cells scalar_eval LimitView_fields_def)
qed

lemma editor_controls:
  assumes "editor_typed e"
  shows "events (LimitEditor_view initial e) = Some {ev. editor_offered initial e ev}"
proof -
  have t: "has_type ts_LimitView (JObj (ed_form e))" using assms by (simp add: editor_typed_def)
  have s: "shown (own (ed_form e) k)"
    if "k \<in> {''service_name'', ''customer_id'', ''rate_limit_id'', ''limit_value'', ''time_unit''}" for k
    using limit_shown [OF t that] by simp
  obtain n where n: "own (ed_form e) ''limit_value'' = JNum n" using t by (auto simp: ts_defs split: jsv.splits)
  obtain tuple where tuple: "tuple_of (ed_form e) = Inr tuple"
    using s [THEN text_of_primitive, of "''service_name''"] s [THEN text_of_primitive, of "''customer_id''"]
      s [THEN text_of_primitive, of "''rate_limit_id''"] by (auto simp: tuple_of_def)
  have "ev \<in> {ev. editor_offered initial e ev} \<longleftrightarrow> ev \<in> (if isNew initial
       then range (In_key F_service_name) \<union> range (In_key F_customer_id) \<union> range (In_key F_rate_limit_id)
       else range In_confirm \<union> (if ed_confirm e = tuple then {Click_delete} else {}))
      \<union> range In_limit \<union> In_unit ` set UNITS \<union> {Click_cancel, Click_save}" for ev
  proof (cases ev)
    case (In_key f v)
    then show ?thesis by (cases f) (auto simp: editor_offered_def)
  qed (auto simp: editor_offered_def delete_enabled_def tuple)
  note offered = set_eqI [OF this]
  show ?thesis
    by (simp add: LimitEditor_view_def preview_def n tuple s markup disabled_def className_def image_image Let_def offered set_ac)
qed

lemma limits_controls:
  assumes "limits_typed st"
  shows "events (LimitsBrowser_view ss st) = Some {ev. limits_offered ss st ev}"
proof -
  obtain ls where ls: "lp_limits st = JArr ls" "\<forall>l \<in> set ls. has_type ts_LimitView l"
    using assms by (auto simp: limits_typed_def simp del: has_type.simps(10) split: jsv.splits)
  let ?editable = "\<lambda>i. offers ss Limit_write (prop_opt (ls ! i) ''service_name'')"
  have editable: "(case ls ! i of JObj l \<Rightarrow> offers ss Limit_write (own l ''service_name'') | _ \<Rightarrow> False) = ?editable i"
    if i: "i < length ls" for i
  proof -
    obtain l where "ls ! i = JObj l" using limit_object ls(2) nth_mem [OF i] by blast
    then show ?thesis by simp
  qed
  have rows: "events (fragment (rows_view ''limits'' (JArr ls) (limit_row_view ss) (no_rows 7 t)))
      = Some (\<Union>i < length ls. if ?editable i then {Click_edit i} else {})" for t
    by (rule events_rows) (use ls(2) in \<open>simp_all add: limit_row_controls markup\<close>)
  have hint: "events (then_do (effective_hint (lp_effective st)) caption) = Some {}" if "truthy (lp_effective st)"
  proof -
    have "has_type ts_ResolveView (lp_effective st)"
      using assms that by (auto simp: limits_typed_def nullable_def simp del: has_type.simps(10))
    from hint_drawn [OF this] show ?thesis by (cases "effective_hint (lp_effective st)") (simp_all add: markup)
  qed
  have kinds: "(\<lambda>t. In_kind (kind_of t)) ` fst ` set [(''all'', ''all''), (''defaults'', ''defaults only''), (''overrides'', ''overrides only'')]
      = range In_kind"
  proof -
    have "x \<in> range In_kind \<longleftrightarrow> x \<in> {In_kind K_all, In_kind K_defaults, In_kind K_overrides}" for x
      using Kind.exhaust by (auto simp: image_iff)
    then show ?thesis by (auto simp: kind_of_def)
  qed
  have "ev \<in> {ev. limits_offered ss st ev} \<longleftrightarrow> ev \<in> range In_service \<union> range In_customer \<union> range In_rlid \<union> range In_kind
      \<union> {Click_search} \<union> (if offers ss Limit_write (JStr (fl_service (lp_filters st))) then {Click_new} else {})
      \<union> (\<Union>i < length ls. if ?editable i then {Click_edit i} else {})
      \<union> (case lp_editing st of None \<Rightarrow> {} | Some initial \<Rightarrow> In_the_editor ` {ev. editor_offered initial (lp_editor st) ev})" for ev
    by (cases ev) (auto simp: limits_offered_def ls(1) editable split: option.splits if_splits)
  note offered = set_eqI [OF this]
  have editor: "events (case lp_editing st of None \<Rightarrow> Inr [] | Some initial \<Rightarrow> lift In_the_editor (LimitEditor_view initial (lp_editor st)))
      = Some (case lp_editing st of None \<Rightarrow> {} | Some initial \<Rightarrow> In_the_editor ` {ev. editor_offered initial (lp_editor st) ev})"
    using assms by (auto simp: limits_typed_def markup editor_controls split: option.splits)
  show ?thesis
    unfolding LimitsBrowser_view_def Let_def
    by (simp add: ls(1) rows hint editor offered markup className_def kinds [simplified] set_ac)
qed

section \<open>The usage page\<close>

lemma usage_controls:
  assumes "usage_page_typed st"
  shows "events (LiveUsage_view ss now1 now2 st) = Some {ev. usage_offered ss st ev}"
proof -
  have s: "shown (prop_opt (up_usage st) k)" if "truthy (up_usage st)"
    and "k \<in> {''limit'', ''consumed'', ''remaining'', ''reset_at'', ''fetched_at''}" for k
    using usage_shown [OF assms that] .
  have "ev \<in> {ev. usage_offered ss st ev} \<longleftrightarrow> ev \<in> range U_service \<union> range U_customer \<union> range U_rlid \<union> {U_lookup}
      \<union> (if truthy (up_usage st)
         then (if offers ss Op_refund (prop_opt (up_usage st) ''service_name'') then range U_refund else {})
            \<union> (if offers ss Op_reset (prop_opt (up_usage st) ''service_name'') then range U_reset else {})
         else {})" for ev
    by (cases ev) (auto simp: usage_offered_def)
  note offered = set_eqI [OF this]
  show ?thesis
    unfolding LiveUsage_view_def Let_def
    by (simp add: offered markup s entry_def className_def set_ac)
qed

section \<open>The audit page\<close>

text \<open>The audit page handles all its events; those for a choice or a row that is not there do nothing.\<close>

definition audit_offered :: "AuditPage \<Rightarrow> AuditEvent \<Rightarrow> bool" where
  "audit_offered st ev \<longleftrightarrow>
     (case ev of
        Au_operation v \<Rightarrow> v \<in> set OPERATIONS
      | Au_toggle i \<Rightarrow> row_at (ap_entries st) i \<noteq> None
      | _ \<Rightarrow> True)"

lemma audit_row_controls:
  assumes "has_type ts_AuditView e"
  shows "events (audit_row_view st i e) = Some {Au_toggle i}"
proof -
  note cells = assms [unfolded ts_AuditView_def, THEN events_value_cell]
  have "shown (prop_opt e ''config_id'')"
    using assms unfolding ts_AuditView_def by (rule scalar_field) (simp add: scalar_eval)
  then show ?thesis by (simp add: audit_row_view_def Let_def markup cells scalar_eval)
qed

lemma audit_controls:
  assumes "audit_page_typed st"
  shows "events (AuditBrowser_view st) = Some {ev. audit_offered st ev}"
proof -
  obtain es where es: "ap_entries st = JArr es" "\<forall>e \<in> set es. has_type ts_AuditView e"
    using assms by (auto simp: audit_page_typed_def split: jsv.splits)
  have rows: "events (fragment (rows_view ''entries'' (JArr es) (audit_row_view st) (no_rows 5 t)))
      = Some (\<Union>i < length es. {Au_toggle i})" for t
    by (rule events_rows) (use es(2) in \<open>simp_all add: audit_row_controls markup\<close>)
  have "ev \<in> {ev. audit_offered st ev} \<longleftrightarrow> ev \<in> range Au_service \<union> range Au_customer \<union> range Au_rlid \<union> range Au_changedBy
      \<union> Au_operation ` set OPERATIONS \<union> {Au_search} \<union> (\<Union>i < length es. {Au_toggle i})" for ev
    by (cases ev) (auto simp: audit_offered_def es(1))
  note offered = set_eqI [OF this]
  show ?thesis
    unfolding AuditBrowser_view_def
    by (simp add: es(1) rows offered markup OPERATIONS_def set_ac)
qed

section \<open>The services page\<close>

lemma service_row_controls:
  assumes "has_type ts_ServiceView s"
  shows "events (service_row_view ss i s)
    = Some (if offers ss Service_edit (prop_opt s ''service_name'') then {Sv_edit i} else {})"
proof -
  note cells = assms [unfolded ts_ServiceView_def, THEN events_value_cell]
  show ?thesis by (simp add: service_row_view_def markup cells scalar_eval)
qed

lemma services_controls:
  assumes "services_page_typed st"
  shows "events (Services_view ss st) = Some {ev. services_offered ss st ev \<and> ev \<noteq> Sv_mounted}"
proof -
  obtain ls where ls: "sp_services st = JArr ls" "\<forall>l \<in> set ls. has_type ts_ServiceView l"
    using assms by (auto simp: services_page_typed_def split: jsv.splits)
  let ?editable = "\<lambda>i. offers ss Service_edit (prop_opt (ls ! i) ''service_name'')"
  have editable: "(case service_row (ls ! i) of Some s \<Rightarrow> offers ss Service_edit (JStr (sf_service_name s)) | None \<Rightarrow> False)
      = ?editable i" if "i < length ls" for i
  proof -
    have "has_type ts_ServiceView (ls ! i)" using ls(2) nth_mem [OF that] by blast
    then show ?thesis by (cases "ls ! i") (auto simp: ts_ServiceView_def field_def service_row_def split: jsv.splits)
  qed
  have rows: "events (fragment (rows_view ''services'' (JArr ls) (service_row_view ss) (no_rows 4 t)))
      = Some (\<Union>i < length ls. if ?editable i then {Sv_edit i} else {})" for t
    by (rule events_rows) (use ls(2) in \<open>simp_all add: service_row_controls markup\<close>)
  have "ev \<in> {ev. services_offered ss st ev \<and> ev \<noteq> Sv_mounted}
    \<longleftrightarrow> ev \<in> (\<Union>i < length ls. if ?editable i then {Sv_edit i} else {})
      \<union> (if service_panel ss st
         then (if editing_service st then {Sv_cancel} else range Sv_name) \<union> range Sv_display \<union> range Sv_owner \<union> {Sv_submit}
         else {})" for ev
    by (cases ev) (auto simp: services_offered_def service_panel_def ls(1) editable split: if_splits)
  note offered = set_eqI [OF this]
  show ?thesis
    unfolding Services_view_def Let_def
    by (simp add: ls(1) rows offered markup disabled_def className_def set_ac)
qed

section \<open>The reviews page\<close>

definition reviews_offered :: "ReviewsPage \<Rightarrow> ReviewsEvent \<Rightarrow> bool" where
  "reviews_offered st ev \<longleftrightarrow>
     (case ev of Rv_mounted \<Rightarrow> False | Rv_decide i approve \<Rightarrow> row_at (rp_reviews st) i \<noteq> None)"

lemma review_controls:
  assumes "has_type ts_Review r"
  shows "events (review_view i r) = Some {Rv_decide i False, Rv_decide i True}"
proof -
  have s: "shown (prop_opt r k)" if "k \<in> {''reason'', ''initiator'', ''createdAt''}" for k
    using assms unfolding ts_Review_def by (rule scalar_field) (use that in \<open>auto simp: scalar_eval\<close>)
  obtain ob op t where r: "r = JObj ob" "own ob ''op'' = JObj op" "own op ''kind'' = JStr t"
    using assms by (cases r) (auto simp: ts_Review_def field_def split: jsv.splits)
  have "shown (own ob k)" if "k \<in> {''reason'', ''initiator'', ''createdAt''}" for k using s [OF that] r by simp
  then show ?thesis using r by (simp add: review_view_def markup className_def del: child.simps) auto
qed

lemma reviews_controls:
  assumes "reviews_page_typed st"
  shows "events (Reviews_view st) = Some {ev. reviews_offered st ev}"
proof -
  obtain rs where rs: "rp_reviews st = JArr rs" "\<forall>r \<in> set rs. has_type ts_Review r"
    using assms by (auto simp: reviews_page_typed_def split: jsv.splits)
  have rows: "events (fragment (rev (rows_view ''reviews'' (JArr rs) review_view m)))
      = Some (\<Union>i < length rs. {Rv_decide i False, Rv_decide i True})" if "events m = Some {}" for m
    by (rule events_rows) (use rs(2) that in \<open>simp_all add: review_controls\<close>)
  have "ev \<in> {ev. reviews_offered st ev} \<longleftrightarrow> ev \<in> (\<Union>i < length rs. {Rv_decide i False, Rv_decide i True})" for ev
    by (cases ev) (auto simp: reviews_offered_def rs(1))
  note offered = set_eqI [OF this]
  show ?thesis
    unfolding Reviews_view_def
    by (simp add: rs(1) rows offered markup)
qed

end
