(* ===== verification/Console_App.thy ===== *)
theory Console_App
  imports Console_Display Console_Shell
begin

text \<open>
  The whole console: the shell of \<^verbatim>\<open>App.tsx\<close> with the page it shows below the tabs. React keeps a page as long as
  the same one is rendered, and throws its state away when it is not: a page is mounted anew by a login and by a
  change of the tab. A function of a page that was left runs on, and what it sets has no effect any more.
\<close>

section \<open>State\<close>

datatype Content =
    On_limits LimitsPage
  | On_services ServicesPage
  | On_usage UsagePage
  | On_audit AuditPage
  | On_reviews ReviewsPage

fun tab_of :: "Content \<Rightarrow> Tab" where
  "tab_of (On_limits p) = T_limits"
| "tab_of (On_services p) = T_services"
| "tab_of (On_usage p) = T_usage"
| "tab_of (On_audit p) = T_audit"
| "tab_of (On_reviews p) = T_reviews"

fun new_content :: "Tab \<Rightarrow> Content" where
  "new_content T_limits = On_limits new_limits_page"
| "new_content T_services = On_services new_services_page"
| "new_content T_usage = On_usage new_usage_page"
| "new_content T_audit = On_audit new_audit_page"
| "new_content T_reviews = On_reviews new_reviews_page"

text \<open>
  \<open>co_mounts\<close> counts the pages mounted so far, \<open>co_effect\<close> says that the effect of the mounted one has not run yet.
\<close>

record Console =
  co_shell :: Shell
  co_content :: "Content option"
  co_mounts :: nat
  co_effect :: bool

text \<open>What rendering makes of a change of the shell.\<close>

definition reconcile :: "Console \<Rightarrow> Console" where
  "reconcile st =
     (case App_screen (sh_session (co_shell st)) (sh_tab (co_shell st)) of
        Page t tabs \<Rightarrow>
          if map_option tab_of (co_content st) = Some t then st
          else st\<lparr>co_content := Some (new_content t), co_mounts := Suc (co_mounts st), co_effect := True\<rparr>
      | _ \<Rightarrow> st\<lparr>co_content := None\<rparr>)"

definition new_console :: Console where
  "new_console = \<lparr>co_shell = new_shell, co_content = None, co_mounts = 0, co_effect = False\<rparr>"

definition put_shell :: "Shell \<Rightarrow> Console \<Rightarrow> Console" where
  "put_shell sh st = reconcile (st\<lparr>co_shell := sh\<rparr>)"

text \<open>
  The state a function of the \<open>i\<close>th page finds, and what it changes: nothing, when that page is no longer there.
\<close>

definition alive :: "nat \<Rightarrow> Console \<Rightarrow> bool" where
  "alive i st \<longleftrightarrow> co_mounts st = i"

definition get_content :: "Tab \<Rightarrow> nat \<Rightarrow> Console \<Rightarrow> Content" where
  "get_content t i st =
     (case co_content st of
        Some x \<Rightarrow> if alive i st \<and> tab_of x = t then x else new_content t
      | None \<Rightarrow> new_content t)"

definition put_content :: "nat \<Rightarrow> Content \<Rightarrow> Console \<Rightarrow> Console" where
  "put_content i x st =
     (case co_content st of
        Some y \<Rightarrow> if alive i st \<and> tab_of y = tab_of x then st\<lparr>co_content := Some x\<rparr> else st
      | None \<Rightarrow> st)"

fun limits_of :: "Content \<Rightarrow> LimitsPage" where
  "limits_of (On_limits p) = p" | "limits_of _ = new_limits_page"

fun services_of :: "Content \<Rightarrow> ServicesPage" where
  "services_of (On_services p) = p" | "services_of _ = new_services_page"

fun usage_of :: "Content \<Rightarrow> UsagePage" where
  "usage_of (On_usage p) = p" | "usage_of _ = new_usage_page"

fun audit_of :: "Content \<Rightarrow> AuditPage" where
  "audit_of (On_audit p) = p" | "audit_of _ = new_audit_page"

fun reviews_of :: "Content \<Rightarrow> ReviewsPage" where
  "reviews_of (On_reviews p) = p" | "reviews_of _ = new_reviews_page"

section \<open>Events\<close>

datatype ConsoleEvent =
    Co_shell ShellEvent
  | Co_effect
  | Co_limits LimitsEvent
  | Co_services ServicesEvent
  | Co_usage UsageEvent
  | Co_audit AuditEvent
  | Co_reviews ReviewsEvent

definition in_limits :: "(LimitsPage \<Rightarrow> LimitsPage \<times> LimitsPage ui_act) \<Rightarrow> Console \<Rightarrow> Console \<times> Console ui_act" where
  "in_limits f st = zoomed (\<lambda>s. limits_of (get_content T_limits (co_mounts st) s))
     (\<lambda>p. put_content (co_mounts st) (On_limits p)) f st"

definition in_services :: "(ServicesPage \<Rightarrow> ServicesPage \<times> ServicesPage ui_act) \<Rightarrow> Console \<Rightarrow> Console \<times> Console ui_act" where
  "in_services f st = zoomed (\<lambda>s. services_of (get_content T_services (co_mounts st) s))
     (\<lambda>p. put_content (co_mounts st) (On_services p)) f st"

definition in_usage :: "(UsagePage \<Rightarrow> UsagePage \<times> UsagePage ui_act) \<Rightarrow> Console \<Rightarrow> Console \<times> Console ui_act" where
  "in_usage f st = zoomed (\<lambda>s. usage_of (get_content T_usage (co_mounts st) s))
     (\<lambda>p. put_content (co_mounts st) (On_usage p)) f st"

definition in_audit :: "(AuditPage \<Rightarrow> AuditPage \<times> AuditPage ui_act) \<Rightarrow> Console \<Rightarrow> Console \<times> Console ui_act" where
  "in_audit f st = zoomed (\<lambda>s. audit_of (get_content T_audit (co_mounts st) s))
     (\<lambda>p. put_content (co_mounts st) (On_audit p)) f st"

definition in_reviews :: "(ReviewsPage \<Rightarrow> ReviewsPage \<times> ReviewsPage ui_act) \<Rightarrow> Console \<Rightarrow> Console \<times> Console ui_act" where
  "in_reviews f st = zoomed (\<lambda>s. reviews_of (get_content T_reviews (co_mounts st) s))
     (\<lambda>p. put_content (co_mounts st) (On_reviews p)) f st"

text \<open>
  A control of a page that is not shown produces no event. The effect of a page runs once, after it was
  mounted; the services and the reviews page have one.
\<close>

fun console_serve :: "ConsoleEvent \<Rightarrow> Console \<Rightarrow> Console \<times> Console ui_act" where
  "console_serve (Co_shell ev) st = zoomed co_shell put_shell (shell_serve ev) st"
| "console_serve Co_effect st =
     (if \<not> co_effect st then settled st
      else let st = st\<lparr>co_effect := False\<rparr>; ss = sh_session (co_shell st) in
        (case co_content st of
           Some (On_services p) \<Rightarrow> in_services (services_serve ss Sv_mounted) st
         | Some (On_reviews p) \<Rightarrow> in_reviews (reviews_serve ss Rv_mounted) st
         | _ \<Rightarrow> settled st))"
| "console_serve (Co_limits ev) st =
     (case co_content st of
        Some (On_limits p) \<Rightarrow> in_limits (limits_serve (sh_session (co_shell st)) ev) st
      | _ \<Rightarrow> settled st)"
| "console_serve (Co_services ev) st =
     (case co_content st of
        Some (On_services p) \<Rightarrow>
          if ev = Sv_mounted then settled st else in_services (services_serve (sh_session (co_shell st)) ev) st
      | _ \<Rightarrow> settled st)"
| "console_serve (Co_usage ev) st =
     (case co_content st of
        Some (On_usage p) \<Rightarrow> in_usage (usage_serve (sh_session (co_shell st)) ev) st
      | _ \<Rightarrow> settled st)"
| "console_serve (Co_audit ev) st =
     (case co_content st of Some (On_audit p) \<Rightarrow> in_audit (audit_serve ev) st | _ \<Rightarrow> settled st)"
| "console_serve (Co_reviews ev) st =
     (case co_content st of
        Some (On_reviews p) \<Rightarrow>
          if ev = Rv_mounted then settled st else in_reviews (reviews_serve (sh_session (co_shell st)) ev) st
      | _ \<Rightarrow> settled st)"

section \<open>Invariants of the parts\<close>

text \<open>
  A part of a state with an invariant of its own. It need not be there all the time: what is read in its place has
  the invariant, and what is written is ignored then.
\<close>

locale component =
  fixes get :: "'s \<Rightarrow> 't" and put :: "'t \<Rightarrow> 's \<Rightarrow> 's" and part_keeps :: "'t \<Rightarrow> bool" and keeps :: "'s \<Rightarrow> bool"
  assumes get_keeps: "keeps s \<Longrightarrow> part_keeps (get s)"
    and put_keeps: "keeps s \<Longrightarrow> part_keeps t \<Longrightarrow> keeps (put t s)"
begin

lemma careful_zoom: "careful ok part_keeps a \<Longrightarrow> careful ok keeps (zoom get put a)"
proof (induction rule: careful.induct)
  case (Await c k)
  then show ?case by (auto simp: careful_Await get_keeps put_keeps)
qed simp_all

lemma careful_zoomed:
  "keeps s \<Longrightarrow> (\<And>t. part_keeps t \<Longrightarrow> careful_page part_keeps (f t)) \<Longrightarrow> careful_page keeps (zoomed get put f s)"
  using get_keeps [of s] by (auto simp: careful_page_def zoomed_def put_keeps careful_zoom)

end

fun content_typed :: "Content \<Rightarrow> bool" where
  "content_typed (On_limits p) = limits_typed p"
| "content_typed (On_services p) = services_page_typed p"
| "content_typed (On_usage p) = usage_page_typed p"
| "content_typed (On_audit p) = audit_page_typed p"
| "content_typed (On_reviews p) = reviews_page_typed p"

definition session_state_typed :: "SessionState \<Rightarrow> bool" where
  "session_state_typed ss \<longleftrightarrow> has_type (nullable ts_SessionInfo) (ui_session ss) \<and> token_ok ss"

text \<open>A page is there exactly when the shell shows one, and it is the one of the chosen tab.\<close>

definition mounted_right :: "Console \<Rightarrow> bool" where
  "mounted_right st \<longleftrightarrow>
     map_option tab_of (co_content st)
       = (case App_screen (sh_session (co_shell st)) (sh_tab (co_shell st)) of Page t tabs \<Rightarrow> Some t | _ \<Rightarrow> None)"

definition console_typed :: "Console \<Rightarrow> bool" where
  "console_typed st \<longleftrightarrow> session_state_typed (sh_session (co_shell st)) \<and> mounted_right st
     \<and> (\<forall>x. co_content st = Some x \<longrightarrow> content_typed x)"

lemma new_pages_typed [simp]:
  "limits_typed new_limits_page" "usage_page_typed new_usage_page" "audit_page_typed new_audit_page"
  "services_page_typed new_services_page" "reviews_page_typed new_reviews_page"
  by (simp_all add: limits_typed_def new_limits_page_def usage_page_typed_def new_usage_page_def audit_page_typed_def
      new_audit_page_def services_page_typed_def new_services_page_def reviews_page_typed_def new_reviews_page_def
      del: has_type.simps)

lemma new_content_typed [simp]: "content_typed (new_content t)"
  by (cases t) simp_all

lemma tab_of_new [simp]: "tab_of (new_content t) = t"
  by (cases t) simp_all

text \<open>The session.\<close>

lemma session_applied:
  "has_type ts_SessionInfo v \<Longrightarrow> session_state_typed (apply_session v ss)" "session_state_typed (apply_session JNull ss)"
  "session_state_typed (ss\<lparr>ui_loading := b\<rparr>) = session_state_typed ss"
  by (simp_all add: session_state_typed_def nullable_def del: has_type.simps(10)) (simp_all add: apply_session_def)

lemma session_serve_careful:
  assumes "session_state_typed ss" shows "careful_page session_state_typed (session_serve ev ss)"
proof -
  have t: "careful_page session_state_typed (st, Throw e)" if "session_state_typed st" for st e
    using that by (simp add: careful_page_def)
  show ?thesis
    by (cases ev)
       (auto simp: load_session_def ui_login_def ui_logout_def session_applied assms simp del: has_type.simps
         intro!: careful_ask careful_settled t)
qed

interpretation session_component: component sh_session put_session session_state_typed
  "\<lambda>sh. session_state_typed (sh_session sh)"
  by unfold_locales simp_all

lemma shell_serve_careful:
  "session_state_typed (sh_session sh) \<Longrightarrow> careful_page (\<lambda>sh. session_state_typed (sh_session sh)) (shell_serve ev sh)"
  using session_component.careful_zoomed [OF _ session_serve_careful [of _ Mounted]]
    session_component.careful_zoomed [OF _ session_serve_careful [of _ "Clicked_login (sh_devUser sh)"]]
    session_component.careful_zoomed [OF _ session_serve_careful [of _ Clicked_logout]]
  by (cases ev) (auto simp: shell_serve_def intro!: careful_settled)

interpretation shell_component: component co_shell put_shell "\<lambda>sh. session_state_typed (sh_session sh)" console_typed
proof (unfold_locales, goal_cases)
  case (2 st sh)
  then show ?case
    by (auto simp: console_typed_def put_shell_def reconcile_def mounted_right_def split: Screen.splits)
qed (simp add: console_typed_def)

text \<open>The pages.\<close>

lemma get_content_typed: "console_typed st \<Longrightarrow> content_typed (get_content t i st)"
  by (auto simp: console_typed_def get_content_def split: option.splits)

lemma get_content_tab: "tab_of (get_content t i st) = t"
  by (auto simp: get_content_def split: option.splits)

lemma put_content_typed: "console_typed st \<Longrightarrow> content_typed x \<Longrightarrow> console_typed (put_content i x st)"
  by (auto simp: console_typed_def put_content_def mounted_right_def split: option.splits)

lemma part_typed:
  assumes "console_typed st"
  shows "limits_typed (limits_of (get_content T_limits i st))" "services_page_typed (services_of (get_content T_services i st))"
    "usage_page_typed (usage_of (get_content T_usage i st))" "audit_page_typed (audit_of (get_content T_audit i st))"
    "reviews_page_typed (reviews_of (get_content T_reviews i st))"
  using get_content_typed [OF assms, of _ i]
  by (metis content_typed.simps limits_of.simps services_of.simps usage_of.simps audit_of.simps reviews_of.simps
      Content.exhaust new_pages_typed)+

interpretation limits_component: component "\<lambda>s. limits_of (get_content T_limits i s)" "\<lambda>p. put_content i (On_limits p)"
  limits_typed console_typed
  by unfold_locales (simp_all add: part_typed put_content_typed)

interpretation services_component: component "\<lambda>s. services_of (get_content T_services i s)" "\<lambda>p. put_content i (On_services p)"
  services_page_typed console_typed
  by unfold_locales (simp_all add: part_typed put_content_typed)

interpretation usage_component: component "\<lambda>s. usage_of (get_content T_usage i s)" "\<lambda>p. put_content i (On_usage p)"
  usage_page_typed console_typed
  by unfold_locales (simp_all add: part_typed put_content_typed)

interpretation audit_component: component "\<lambda>s. audit_of (get_content T_audit i s)" "\<lambda>p. put_content i (On_audit p)"
  audit_page_typed console_typed
  by unfold_locales (simp_all add: part_typed put_content_typed)

interpretation reviews_component: component "\<lambda>s. reviews_of (get_content T_reviews i s)" "\<lambda>p. put_content i (On_reviews p)"
  reviews_page_typed console_typed
  by unfold_locales (simp_all add: part_typed put_content_typed)

lemma pages_careful:
  "limits_typed p1 \<Longrightarrow> careful_page limits_typed (limits_serve ss e1 p1)"
  "services_page_typed p2 \<Longrightarrow> careful_page services_page_typed (services_serve ss e2 p2)"
  "usage_page_typed p3 \<Longrightarrow> careful_page usage_page_typed (usage_serve ss e3 p3)"
  "audit_page_typed p4 \<Longrightarrow> careful_page audit_page_typed (audit_serve e4 p4)"
  "reviews_page_typed p5 \<Longrightarrow> careful_page reviews_page_typed (reviews_serve ss e5 p5)"
  using typed_limits.serve_careful typed_services.serve_careful typed_usage.serve_careful typed_audit.serve_careful
    typed_reviews.serve_careful by (simp_all add: careful_page_def)

lemma in_pages_careful:
  assumes "console_typed st"
  shows "careful_page console_typed (in_limits (limits_serve ss e1) st)"
    "careful_page console_typed (in_services (services_serve ss e2) st)"
    "careful_page console_typed (in_usage (usage_serve ss e3) st)" "careful_page console_typed (in_audit (audit_serve e4) st)"
    "careful_page console_typed (in_reviews (reviews_serve ss e5) st)"
  unfolding in_limits_def in_services_def in_usage_def in_audit_def in_reviews_def
  using assms
  by (auto intro!: limits_component.careful_zoomed services_component.careful_zoomed usage_component.careful_zoomed
      audit_component.careful_zoomed reviews_component.careful_zoomed pages_careful)

lemma effect_typed: "console_typed (st\<lparr>co_effect := b\<rparr>) = console_typed st"
  by (simp add: console_typed_def mounted_right_def)

interpretation console: careful_machine console_serve console_typed fits
proof (unfold_locales, goal_cases)
  case (1 st ev)
  have "careful_page console_typed (console_serve ev st)"
    using 1 by (cases ev)
      (auto simp: Let_def effect_typed intro!: careful_settled in_pages_careful shell_component.careful_zoomed shell_serve_careful
        split: option.splits Content.splits)
  then show ?case by (simp add: careful_page_def)
qed

section \<open>Drawing the console\<close>

text \<open>The name in the bar.\<close>

definition who :: "SessionState \<Rightarrow> jsv js" where
  "who ss = then_do (get_prop (ui_session ss) ''user'') (\<lambda>u. get_prop u ''email'')"

fun content_drawn :: "SessionState \<Rightarrow> int \<Rightarrow> int \<Rightarrow> Content \<Rightarrow> bool" where
  "content_drawn ss now1 now2 (On_limits p) = limits_drawn ss p"
| "content_drawn ss now1 now2 (On_services p) = services_drawn ss p"
| "content_drawn ss now1 now2 (On_usage p) = usage_drawn now1 now2 p"
| "content_drawn ss now1 now2 (On_audit p) = audit_drawn p"
| "content_drawn ss now1 now2 (On_reviews p) = reviews_drawn p"

definition console_drawn :: "int \<Rightarrow> int \<Rightarrow> Console \<Rightarrow> bool" where
  "console_drawn now1 now2 st \<longleftrightarrow>
     (let ss = sh_session (co_shell st) in
      case App_screen ss (sh_tab (co_shell st)) of
        Page t tabs \<Rightarrow>
          (case who ss of Inl e \<Rightarrow> False | Inr v \<Rightarrow> shown v)
          \<and> (\<forall>cap svc. can ss cap svc \<noteq> None)
          \<and> (case co_content st of None \<Rightarrow> False | Some x \<Rightarrow> tab_of x = t \<and> content_drawn ss now1 now2 x)
      | _ \<Rightarrow> co_content st = None)"

lemma content_typed_drawn: "content_typed x \<Longrightarrow> content_drawn ss now1 now2 x"
  by (cases x) (auto intro: limits_typed_drawn services_typed_drawn usage_typed_drawn audit_typed_drawn reviews_typed_drawn)

lemma grant_read: "has_type ts_Grant g \<Longrightarrow> \<exists>x. grant_of g = Some x"
proof -
  assume t: "has_type ts_Grant g"
  then obtain ob where g: "g = JObj ob" by (cases g) (auto simp: ts_Grant_def)
  obtain r where "own ob ''role'' = JStr r" "\<exists>x. role_of r = Some x"
    using t by (auto simp: g ts_Grant_def ts_Role_def field_def optional_def role_of_def)
  moreover have "own ob ''service'' = JUndefined \<or> (\<exists>s. own ob ''service'' = JStr s)"
    using t by (auto simp: g ts_Grant_def field_def optional_def split: jsv.splits)
  ultimately show ?thesis by (auto simp: g grant_of_def)
qed

lemma those_all: "\<forall>x \<in> set xs. \<exists>y. f x = Some y \<Longrightarrow> \<exists>ys. those (map f xs) = Some ys"
  by (induction xs) auto

lemma session_drawn:
  assumes "has_type ts_SessionInfo v" "ui_session ss = v"
  shows "\<exists>t. who ss = Inr (JStr t)" "can ss cap svc \<noteq> None"
proof -
  obtain ob u t gs where v: "v = JObj ob" "own ob ''user'' = JObj u" "own u ''email'' = JStr t"
    "own ob ''grants'' = JArr gs" "\<forall>g \<in> set gs. has_type ts_Grant g"
    using assms(1) by (cases v) (auto simp: ts_SessionInfo_def field_def split: jsv.splits)
  then show "\<exists>t. who ss = Inr (JStr t)" using assms(2) by (simp add: who_def)
  obtain ys where "those (map grant_of gs) = Some ys" using those_all [of gs grant_of] v(5) grant_read by blast
  then show "can ss cap svc \<noteq> None" using assms(2) v by (simp add: can_def grants_of_def)
qed

lemma console_typed_drawn: "console_typed st \<Longrightarrow> console_drawn now1 now2 st"
proof -
  assume st: "console_typed st"
  let ?ss = "sh_session (co_shell st)"
  have "has_type ts_SessionInfo (ui_session ?ss)" if "App_screen ?ss (sh_tab (co_shell st)) = Page t tabs" for t tabs
    using st that by (auto simp: console_typed_def session_state_typed_def nullable_def App_screen_def
        simp del: has_type.simps(10) split: if_splits)
  then show ?thesis using st content_typed_drawn session_drawn [OF _ refl, of ?ss]
    by (fastforce simp: console_typed_def mounted_right_def console_drawn_def Let_def split: Screen.splits option.splits)
qed

end
