(* ===== verification/Console_View.thy ===== *)
theory Console_View
  imports Page_Controls Console_App
begin

text \<open>
  What \<^verbatim>\<open>frontend/src/App.tsx\<close> renders: the notice while the session is loaded, the login form, or the bar with the
  tabs and the mounted page below it. The controls on the screen and the machine of the console agree.
\<close>

section \<open>The screen\<close>

fun tab_label :: "Tab \<Rightarrow> string" where
  "tab_label T_limits = ''Limits''"
| "tab_label T_services = ''Services''"
| "tab_label T_usage = ''Live Usage''"
| "tab_label T_audit = ''Audit''"
| "tab_label T_reviews = ''Reviews''"

fun content_view :: "SessionState \<Rightarrow> int \<Rightarrow> int \<Rightarrow> Content \<Rightarrow> ConsoleEvent markup" where
  "content_view ss now1 now2 (On_limits p) = lift Co_limits (LimitsBrowser_view ss p)"
| "content_view ss now1 now2 (On_services p) = lift Co_services (Services_view ss p)"
| "content_view ss now1 now2 (On_usage p) = lift Co_usage (LiveUsage_view ss now1 now2 p)"
| "content_view ss now1 now2 (On_audit p) = lift Co_audit (AuditBrowser_view p)"
| "content_view ss now1 now2 (On_reviews p) = lift Co_reviews (Reviews_view p)"

definition login_view :: "string \<Rightarrow> ShellEvent markup" where
  "login_view devUser =
     elem ''main'' (className ''login'')
       [elem ''h1'' [] [caption ''quotaui''],
        elem ''p'' (className ''muted'') [caption ''Internal admin console - sign in.''],
        elem ''p'' (className ''muted'')
          [caption (''Dev auth (stands in for OIDC/SSO, design '' @ CHR 0xA7 # ''4.1). Seeded users:''),
           elem ''code'' [] [caption ''alice''], caption '' (operator), '', elem ''code'' [] [caption ''bob''],
           caption '' (search-svc editor),'', elem ''code'' [] [caption ''vic''], caption '' (viewer), '',
           elem ''code'' [] [caption ''admin''], caption ''.''],
        elem ''div'' (className ''filters'')
          [input [(''aria-label'', ''dev user'')] (JStr devUser) Sh_user,
           button (className ''primary'') (On_click Sh_sign_in) ''Sign in'']]"

definition tab_view :: "Tab \<Rightarrow> Tab \<Rightarrow> ShellEvent markup" where
  "tab_view tab t =
     button (className (if tab = t then ''tab active'' else ''tab'')
             @ [(''aria-current'', if tab = t then ''true'' else ''false'')])
       (On_click (Sh_tab t)) (tab_label t)"

definition topbar_view :: "Shell \<Rightarrow> ShellEvent markup" where
  "topbar_view sh =
     elem ''header'' (className ''topbar'')
       [elem ''strong'' [] [caption ''quotaui''],
        elem ''nav'' [] [each (tab_view (sh_tab sh)) (visible_tabs (sh_session sh))],
        elem ''span'' (className ''who'')
          [then_do (who (sh_session sh)) child, button [] (On_click Sh_sign_out) ''sign out'']]"

definition App_view :: "int \<Rightarrow> int \<Rightarrow> Console \<Rightarrow> ConsoleEvent markup" where
  "App_view now1 now2 st =
     (let sh = co_shell st; ss = sh_session sh in
      if ui_loading ss then elem ''p'' (className ''center'') [caption ''loading...'']
      else if \<not> truthy (ui_session ss) then lift Co_shell (login_view (sh_devUser sh))
      else elem ''main'' []
        [lift Co_shell (topbar_view sh),
         (case co_content st of None \<Rightarrow> Inr [] | Some x \<Rightarrow> content_view ss now1 now2 x)])"

section \<open>The controls on the screen\<close>

text \<open>What the machine of the console accepts from its user.\<close>

fun content_offered :: "SessionState \<Rightarrow> Content \<Rightarrow> ConsoleEvent \<Rightarrow> bool" where
  "content_offered ss (On_limits p) (Co_limits ev) = limits_offered ss p ev"
| "content_offered ss (On_services p) (Co_services ev) = (services_offered ss p ev \<and> ev \<noteq> Sv_mounted)"
| "content_offered ss (On_usage p) (Co_usage ev) = usage_offered ss p ev"
| "content_offered ss (On_audit p) (Co_audit ev) = audit_offered p ev"
| "content_offered ss (On_reviews p) (Co_reviews ev) = reviews_offered p ev"
| "content_offered ss x ev = False"

definition console_offered :: "Console \<Rightarrow> ConsoleEvent \<Rightarrow> bool" where
  "console_offered st ev \<longleftrightarrow>
     (case ev of
        Co_shell e \<Rightarrow> shell_offered (co_shell st) e \<and> e \<noteq> Sh_mounted
      | Co_effect \<Rightarrow> False
      | _ \<Rightarrow> (case co_content st of None \<Rightarrow> False | Some x \<Rightarrow> content_offered (sh_session (co_shell st)) x ev))"

lemma content_controls:
  assumes "content_typed x"
  shows "events (content_view ss now1 now2 x) = Some {ev. content_offered ss x ev}"
proof (cases x)
  case (On_limits p)
  have "ev \<in> {ev. content_offered ss x ev} \<longleftrightarrow> ev \<in> Co_limits ` {ev. limits_offered ss p ev}" for ev
    by (cases ev) (auto simp: On_limits)
  then show ?thesis using assms by (auto simp: On_limits markup limits_controls)
next
  case (On_services p)
  have "ev \<in> {ev. content_offered ss x ev} \<longleftrightarrow> ev \<in> Co_services ` {ev. services_offered ss p ev \<and> ev \<noteq> Sv_mounted}" for ev
    by (cases ev) (auto simp: On_services)
  then show ?thesis using assms by (auto simp: On_services markup services_controls)
next
  case (On_usage p)
  have "ev \<in> {ev. content_offered ss x ev} \<longleftrightarrow> ev \<in> Co_usage ` {ev. usage_offered ss p ev}" for ev
    by (cases ev) (auto simp: On_usage)
  then show ?thesis using assms by (auto simp: On_usage markup usage_controls)
next
  case (On_audit p)
  have "ev \<in> {ev. content_offered ss x ev} \<longleftrightarrow> ev \<in> Co_audit ` {ev. audit_offered p ev}" for ev
    by (cases ev) (auto simp: On_audit)
  then show ?thesis using assms by (auto simp: On_audit markup audit_controls)
next
  case (On_reviews p)
  have "ev \<in> {ev. content_offered ss x ev} \<longleftrightarrow> ev \<in> Co_reviews ` {ev. reviews_offered p ev}" for ev
    by (cases ev) (auto simp: On_reviews)
  then show ?thesis using assms by (auto simp: On_reviews markup reviews_controls)
qed

lemma bar_controls:
  assumes "has_type ts_SessionInfo (ui_session (sh_session sh))"
  shows "events (topbar_view sh) = Some (Sh_tab ` set (visible_tabs (sh_session sh)) \<union> {Sh_sign_out})"
proof -
  have "events (each (tab_view t) ts) = Some (Sh_tab ` set ts)" for t ts
    using events_each [of ts "tab_view t" "\<lambda>t. {Sh_tab t}"] by (auto simp: tab_view_def markup className_def)
  moreover obtain n where "who (sh_session sh) = Inr (JStr n)" using session_drawn(1) [OF assms refl] by blast
  ultimately show ?thesis by (simp add: topbar_view_def markup className_def del: child.simps)
qed

text \<open>
  The controls of the whole console, for a state in which the session and the page have the declared types.
\<close>

lemma console_controls:
  assumes "console_typed st"
  shows "events (App_view now1 now2 st) = Some {ev. console_offered st ev}"
proof -
  let ?sh = "co_shell st" and ?ss = "sh_session (co_shell st)"
  have session: "has_type (nullable ts_SessionInfo) (ui_session ?ss)" and m: "mounted_right st"
    using assms by (simp_all add: console_typed_def session_state_typed_def)
  consider (loading) "ui_loading ?ss" | (login) "\<not> ui_loading ?ss" "\<not> truthy (ui_session ?ss)"
    | (page) "\<not> ui_loading ?ss" "truthy (ui_session ?ss)" by blast
  then show ?thesis
  proof cases
    case loading
    have "\<not> console_offered st ev" for ev
      using m loading by (cases ev) (auto simp: console_offered_def shell_offered_def mounted_right_def App_screen_def split: ShellEvent.splits)
    then show ?thesis using loading by (simp add: App_view_def markup)
  next
    case login
    have "ev \<in> {ev. console_offered st ev} \<longleftrightarrow> ev \<in> Co_shell ` (range Sh_user \<union> {Sh_sign_in})" for ev
      using m login by (cases ev) (auto simp: console_offered_def shell_offered_def mounted_right_def App_screen_def split: ShellEvent.splits)
    note offered = set_eqI [OF this]
    show ?thesis using login by (simp add: App_view_def login_view_def markup className_def offered)
  next
    case page
    then obtain x where x: "co_content st = Some x" "content_typed x"
      using assms m by (auto simp: console_typed_def mounted_right_def App_screen_def)
    have t: "has_type ts_SessionInfo (ui_session ?ss)"
      using session page(2) by (auto simp: nullable_def simp del: has_type.simps(10))
    have "ev \<in> {ev. console_offered st ev}
      \<longleftrightarrow> ev \<in> Co_shell ` (Sh_tab ` set (visible_tabs ?ss) \<union> {Sh_sign_out}) \<union> {ev. content_offered ?ss x ev}" for ev
      using page by (cases ev; cases x) (auto simp: console_offered_def shell_offered_def App_screen_def x(1) split: ShellEvent.splits)
    note offered = set_eqI [OF this]
    show ?thesis using page by (simp add: App_view_def Let_def x content_controls bar_controls [OF t] markup offered)
  qed
qed

text \<open>What is not on the screen has no effect.\<close>

lemma settled_zoomed: "f (get s) = settled (get s) \<Longrightarrow> put (get s) s = s \<Longrightarrow> zoomed get put f s = settled s"
  by (simp add: zoomed_def settled_def)

lemma reconcile_right: "mounted_right st \<Longrightarrow> put_shell (co_shell st) st = st"
  by (auto simp: put_shell_def reconcile_def mounted_right_def split: Screen.splits)

lemma content_there [simp]:
  "co_content st = Some x \<Longrightarrow> get_content (tab_of x) (co_mounts st) st = x"
  "co_content st = Some x \<Longrightarrow> put_content (co_mounts st) x st = st"
  by (simp_all add: get_content_def put_content_def alive_def)

lemma content_there_at:
  assumes "co_content st = Some x" "tab_of x = t"
  shows "get_content t (co_mounts st) st = x"
  using assms by auto

lemma unoffered_settled:
  "\<not> limits_offered ss p1 e1 \<Longrightarrow> limits_serve ss e1 p1 = settled p1"
  "\<not> services_offered ss p2 e2 \<Longrightarrow> services_serve ss e2 p2 = settled p2"
  "\<not> usage_offered ss p3 e3 \<Longrightarrow> usage_serve ss e3 p3 = settled p3"
  "\<not> audit_offered p4 e4 \<Longrightarrow> audit_serve e4 p4 = settled p4"
  "\<not> reviews_offered p5 e5 \<Longrightarrow> e5 \<noteq> Rv_mounted \<Longrightarrow> reviews_serve ss e5 p5 = settled p5"
  by (auto simp: limits_serve_def services_serve_def usage_serve_def audit_offered_def reviews_offered_def
      split: AuditEvent.splits ReviewsEvent.splits)

lemma unoffered_has_no_effect:
  assumes "console_typed st" "\<not> console_offered st ev" "ev \<noteq> Co_shell Sh_mounted" "ev \<noteq> Co_effect"
  shows "console_serve ev st = settled st"
proof (cases ev)
  case (Co_shell e)
  then have "shell_serve e (co_shell st) = settled (co_shell st)"
    using assms(2,3) by (auto simp: console_offered_def shell_serve_def)
  moreover have "mounted_right st" using assms(1) by (simp add: console_typed_def)
  ultimately show ?thesis by (simp add: Co_shell settled_zoomed reconcile_right)
qed (use assms in \<open>auto simp: console_offered_def in_limits_def in_services_def in_usage_def in_audit_def in_reviews_def
      content_there_at unoffered_settled intro!: settled_zoomed split: option.splits Content.splits\<close>)

end
