(* ===== verification/Full_Stack.thy ===== *)
theory Full_Stack
  imports Typed_Server Console_View
begin

text \<open>
  The whole console in front of the server. A response it receives is one the server can give to the request, for
  any cookies, any state of the server, any replies of the backends that have the shape of their protocol and
  any interleaving with other requests.
\<close>

section \<open>Responses of the server\<close>

text \<open>What a handler may answer in the end. Between two of its stretches the state may have changed.\<close>

inductive yields :: "(rpc_call \<Rightarrow> rpc_reply \<Rightarrow> bool) \<Rightarrow> bff_act \<Rightarrow> Response \<Rightarrow> bool" for ok where
  Respond: "yields ok (Respond r) r"
| Throw: "yields ok (Throw e) (errorMiddleware e)"
| Await: "ok c x \<Longrightarrow> yields ok (snd (k x s)) r \<Longrightarrow> yields ok (Await c k) r"

lemma answers_yields: "answers ok P a \<Longrightarrow> yields ok a r \<Longrightarrow> P r"
  by (induction rule: answers.induct) (auto elim: yields.cases)

text \<open>The response as the browser hands it to the client. A body that is not the text of a value is not parsed.\<close>

definition fetched :: "Response \<Rightarrow> fetch_result" where
  "fetched r = Inr \<lparr>fr_status = code r,
     fr_parsed = (case payload_json (payload r) of
                    None \<Rightarrow> Inl (OtherError ''not JSON'')
                  | Some v \<Rightarrow> Inr (received v))\<rparr>"

text \<open>
  The segments of the path that come from data, the name of a service and the identifier of a review, are such that
  a browser leaves them alone.
\<close>

definition served :: "Platform \<Rightarrow> Deps \<Rightarrow> Fetch \<Rightarrow> fetch_result \<Rightarrow> bool" where
  "served pl d f r \<longleftrightarrow>
     (\<exists>c token m p b ck q bd s resp.
        endpoint c = Inr (m, p, b) \<and> addressed c \<and> f = req_fetch token m p b
        \<and> yields proper_reply (snd (serve pl d (deliver ck q bd f) s)) resp \<and> r = fetched resp)"

lemma with_query_path:
  "with_query p0 ps = Inr (m, p, b) \<Longrightarrow> m = ''GET'' \<and> (p = p0 \<or> (\<exists>q. p = p0 @ CHR ''?'' # q))"
  by (auto simp: with_query_def qs_def then_do_eq_Inr Let_def split: if_splits)

text \<open>A request determines the type of its result.\<close>

lemma request_type:
  assumes "endpoint c = Inr (m, p, b)" "endpoint c' = Inr (m, p, b')"
  shows "ts_result c = ts_result c'"
  using assms by (cases c; cases c') (auto dest!: with_query_path simp del: ts_result.simps simp: ts_result.simps)

lemma served_fits: "served pl d f r \<Longrightarrow> fits f r"
  unfolding fits_def
proof (intro allI impI, elim conjE)
  fix c' token' m' p' b'
  assume "served pl d f r" and c': "endpoint c' = Inr (m', p', b')" "f = req_fetch token' m' p' b'"
  then obtain c token m p b ck q bd s resp where c: "endpoint c = Inr (m, p, b)" "addressed c" "f = req_fetch token m p b"
    and s: "yields proper_reply (snd (serve pl d (deliver ck q bd f) s)) resp" "r = fetched resp"
    unfolding served_def by blast
  have "typed_answer (ts_result c) resp"
    using answers_yields [OF call_typed [OF c(1,2)] s(1) [unfolded c(3)]] .
  moreover have "m = m'" "p = p'" using c(3) c'(2) by (auto simp: req_fetch_def)
  ultimately show "fits_call c' r"
    using request_type [OF c(1), of c' b'] c'(1)
    by (auto simp: fits_call_def typed_answer_def s(2) fetched_def split: option.splits)
qed

text \<open>In front of the server the state of the console keeps its declared types.\<close>

lemma console_stays_typed:
  assumes "runs_from console_serve new_console w" "\<forall>(f, r) \<in> responses (trace w). served pl d f r"
  shows "console_typed (store w)"
proof -
  have "console_typed new_console"
    by (simp add: console_typed_def mounted_right_def new_console_def new_shell_def session_state_typed_def App_screen_def)
       (simp add: new_session_state_def nullable_def)
  moreover have "\<forall>(f, r) \<in> responses (trace w). fits f r" using assms(2) served_fits by fast
  ultimately show ?thesis using console.kept [OF _ assms(1)] by blast
qed

section \<open>Properties\<close>

text \<open>
  C14. In front of this server the console never breaks: in every run of the whole console whose responses come from
  the server, whatever the user does, however logins, changes of the tab and responses overlap and whatever the
  backends reply within their protocol, rendering the console throws nothing and gives a tree of elements, its elements
  hold text, numbers and truth values, the page shown is the one of the chosen tab, and an error it shows is a message of
  the server or of the page itself, never an error of JavaScript.
\<close>

theorem console_never_breaks:
  assumes "runs_from console_serve new_console w" "\<forall>(f, r) \<in> responses (trace w). served pl d f r"
  shows "console_drawn now1 now2 (store w) \<and> (\<exists>tree. App_view now1 now2 (store w) = Inr tree)"
proof -
  have t: "console_typed (store w)" by (rule console_stays_typed [OF assms])
  moreover have "\<exists>tree. App_view now1 now2 (store w) = Inr tree"
    using console_controls [OF t, of now1 now2] by (auto simp: events_def split: sum.splits)
  ultimately show ?thesis using console_typed_drawn by blast
qed


text \<open>The operator Carol loads the console, goes to the reviews and is shown the one that is pending.\<close>

definition demo_visit :: "(ConsoleEvent, fetch_result) cue list" where
  "demo_visit =
     [Input (Co_shell Sh_mounted), Reply 0 (fetched (reply 200 (P_session (sessionPayload demo_state3 (demo_session 1 ''d2'' ''d3''))))),
      Input (Co_shell (Sh_tab T_reviews)), Input Co_effect, Reply 2 (fetched (reply 200 (P_reviews [demo_review])))]"

lemma get_without_token: "req_fetch t ''GET'' p b = req_fetch t' ''GET'' p b"
  by (simp add: req_fetch_def)

lemma demo_payload:
  "sessionPayload demo_state3 (demo_session 1 ''d2'' ''d3'')
     = \<lparr>sp_id = ''carol'', sp_email = ''carol@anthropic.com'', sp_grants = [\<lparr>role = Operator, service = None\<rparr>],
        sp_editable = [], sp_csrf = ''d3''\<rparr>"
proof -
  have "session_user demo_state3 (demo_session 1 ''d2'' ''d3'')
      = \<lparr>user_id = ''carol'', email = ''carol@anthropic.com'', grants = [\<lparr>role = Operator, service = None\<rparr>]\<rparr>"
    by (simp add: session_user_def user_at_def demo_eval) (simp add: MOCK_USERS_def user_def)
  then show ?thesis by (simp add: sessionPayload_def demo_session_def) (simp add: editableServices_def)
qed

lemma demo_answers:
  defines "sess \<equiv> demo_session 1 ''d2'' ''d3''"
  shows "served demo_platform demo_deps (req_fetch [] ''GET'' ''/session'' None) (fetched (reply 200 (P_session (sessionPayload demo_state3 sess))))"
    "served demo_platform demo_deps (req_fetch [] ''GET'' ''/reviews'' None) (fetched (reply 200 (P_reviews [demo_review])))"
proof -
  let ?ck = "[(SESSION_COOKIE, JStr ''d2'')]"
  have s: "attachSession (deliver ?ck (JObj []) JUndefined f) demo_state3 = Some sess" "csrfToken sess = ''d3''" for f
    by (simp_all add: sess_def attachSession_def deliver_def session_get_def own_def demo_states demo_session_def)
  have routed: "serve demo_platform demo_deps (deliver ?ck (JObj []) JUndefined (req_fetch [] ''GET'' p None)) demo_state3
      = route_of demo_platform c demo_deps (deliver ?ck (JObj []) JUndefined (req_fetch [] ''GET'' p None)) JUndefined sess demo_state3"
    if "endpoint c = Inr (''GET'', p, None)" "well_named c" for c p
    using client_call_routed [OF that s(1) s(2) [symmetric]] s(2) get_without_token [of "[]" p None "''d3''"] by simp
  have served: "served demo_platform demo_deps (req_fetch [] ''GET'' p None) (fetched a)"
    if "endpoint c = Inr (''GET'', p, None)" "well_named c" "\<And>req. route_of demo_platform c demo_deps req JUndefined sess demo_state3 = (demo_state3, Respond a)" for c p a
  proof -
    have "yields proper_reply (snd (serve demo_platform demo_deps
        (deliver ?ck (JObj []) JUndefined (req_fetch [] ''GET'' p None)) demo_state3)) a"
      by (simp add: routed [OF that(1,2)] that(3) yields.Respond)
    then show ?thesis unfolding served_def addressed_def using that(1,2) by blast
  qed
  show "served demo_platform demo_deps (req_fetch [] ''GET'' ''/session'' None) (fetched (reply 200 (P_session (sessionPayload demo_state3 sess))))"
    by (rule served [of A_session]) (simp_all add: session_route_def respond_def)
  have "get_reviews demo_deps req JUndefined sess demo_state3 = respond 200 (P_reviews [demo_review]) demo_state3" for req
    using mock_users(4) unfolding sess_def
    by (simp add: get_reviews_def guard_def session_user_def user_at_def demo_eval) (simp add: listPending_def demo_review_def)
  then show "served demo_platform demo_deps (req_fetch [] ''GET'' ''/reviews'' None) (fetched (reply 200 (P_reviews [demo_review])))"
    by (intro served [of A_listReviews]) (simp_all add: respond_def)
qed

lemmas visit_eval = boot_def new_console_def new_shell_def new_session_state_def zoomed_def shell_serve_def
  shell_offered_def load_session_def ask_def fetched_def req_result_def settled_def put_shell_def reconcile_def App_screen_def
  session_json_def grant_json_def apply_session_def csrf_text_def visible_tabs_def TABS_def can_def grants_of_def grant_of_def
  role_of_def canDo_def ui_isOperatorOrAdmin_def ui_hasGlobalRole_def nullish_def in_reviews_def load_reviews_def attempt_def
  get_content_def put_content_def alive_def own_def new_reviews_page_def Let_def

abbreviation demo_screen :: "(ConsoleEvent, Fetch, fetch_result, Console, unit) server" where
  "demo_screen \<equiv> fold (play console_serve) demo_visit (boot new_console)"

lemma demo_visit_served:
  "runs_from console_serve new_console demo_screen"
  "\<forall>(f, r) \<in> responses (trace demo_screen). served demo_platform demo_deps f r"
  "co_content (store demo_screen) = Some (On_reviews \<lparr>rp_reviews = JArr [received (review_json demo_review)], rp_error = None\<rparr>)"
proof -
  show "runs_from console_serve new_console demo_screen" by (rule reachable_script [OF reachable.init])
  let ?r1 = "fetched (reply 200 (P_session (sessionPayload demo_state3 (demo_session 1 ''d2'' ''d3''))))"
  let ?r2 = "fetched (reply 200 (P_reviews [demo_review]))"
  have "trace demo_screen = [Arrived 0 (Co_shell Sh_mounted), Issued 0 (req_fetch [] ''GET'' ''/session'' None),
      Settled 0 (req_fetch [] ''GET'' ''/session'' None) ?r1, Arrived 1 (Co_shell (Sh_tab T_reviews)), Arrived 2 Co_effect,
      Issued 2 (req_fetch [] ''GET'' ''/reviews'' None), Settled 2 (req_fetch [] ''GET'' ''/reviews'' None) ?r2]"
    and "co_content (store demo_screen) = Some (On_reviews \<lparr>rp_reviews = JArr [received (review_json demo_review)], rp_error = None\<rparr>)"
    unfolding demo_visit_def demo_payload
    by (simp_all add: visit_eval)
  then show "\<forall>(f, r) \<in> responses (trace demo_screen). served demo_platform demo_deps f r"
    "co_content (store demo_screen) = Some (On_reviews \<lparr>rp_reviews = JArr [received (review_json demo_review)], rp_error = None\<rparr>)"
    using demo_answers by (auto simp: responses_def)
qed

theorem console_never_breaks_witness:
  "console_drawn 0 0 (store demo_screen)
   \<and> co_content (store demo_screen) = Some (On_reviews \<lparr>rp_reviews = JArr [received (review_json demo_review)], rp_error = None\<rparr>)
   \<and> (\<exists>tree. App_view 0 0 (store demo_screen) = Inr tree)"
  using console_never_breaks [OF demo_visit_served(1,2)] demo_visit_served(3) by simp


end
