(* ===== verification/Screen_Text.thy ===== *)
theory Screen_Text
  imports Page_Controls
begin

text \<open>
  What the tables on the screen say: the texts of the cells, row by row, read off the rendered tree, and what they are
  for the state of a page.
\<close>

section \<open>Reading a table\<close>

fun cell_text :: "'e node \<Rightarrow> string list" where
  "cell_text (Element tag as h ns) = (if tag = ''td'' then [concat (map node_text ns)] else [])"
| "cell_text (Text t) = []"

fun row_cells :: "'e node \<Rightarrow> string list list" where
  "row_cells (Element tag as h ns) = (if tag = ''tr'' then [concat (map cell_text ns)] else [])"
| "row_cells (Text t) = []"

fun body_rows :: "'e node \<Rightarrow> string list list" where
  "body_rows (Element tag as h ns) = (if tag = ''tbody'' then concat (map row_cells ns) else [])"
| "body_rows (Text t) = []"

text \<open>The rows of the tables of class \<^verbatim>\<open>grid\<close>, of which every page has one at most.\<close>

primrec node_grid :: "'e node \<Rightarrow> string list list" where
  "node_grid (Text t) = []"
| "node_grid (Element tag as h ns) =
     (if tag = ''table'' then if (''class'', ''grid'') \<in> set as then concat (map body_rows ns) else []
      else concat (map node_grid ns))"

definition collect :: "('e node \<Rightarrow> 'a list) \<Rightarrow> 'e markup \<Rightarrow> 'a list option" where
  "collect f m = (case m of Inl e \<Rightarrow> None | Inr ns \<Rightarrow> Some (concat (map f ns)))"

definition grid_of :: "'e markup \<Rightarrow> string list list option" where
  "grid_of = collect node_grid"

definition followed_by :: "'a list option \<Rightarrow> 'a list option \<Rightarrow> 'a list option" where
  "followed_by x y = (case (x, y) of (Some a, Some b) \<Rightarrow> Some (a @ b) | _ \<Rightarrow> None)"

lemma followed_by_simps [simp]:
  "followed_by (Some a) (Some b) = Some (a @ b)" "followed_by None y = None" "followed_by x None = None"
  by (simp_all add: followed_by_def split: option.splits)

named_theorems screen

lemma collect_nothing [screen]: "collect f (Inr []) = Some []"
  by (simp add: collect_def)

lemma collect_Nil [screen]: "collect f (each g []) = Some []"
  by (simp add: each_def collect_def)

lemma collect_Cons [screen]: "collect f (each g (x # xs)) = followed_by (collect f (g x)) (collect f (each g xs))"
  by (cases "g x"; cases "map_throw g xs") (simp_all add: each_def collect_def followed_by_def)

lemma collect_shown_if [screen]: "collect f (shown_if b m) = (if b then collect f m else Some [])"
  by (simp add: shown_if_def collect_def)

lemma collect_each:
  assumes "\<And>x. x \<in> set xs \<Longrightarrow> collect f (g x) = Some (E x)"
  shows "collect f (each g xs) = Some (concat (map E xs))"
  using assms by (induction xs) (simp_all add: screen)

lemma collect_silent: "(\<And>x. x \<in> set xs \<Longrightarrow> collect f (g x) = Some []) \<Longrightarrow> collect f (each g xs) = Some []"
  using collect_each [of xs f g "\<lambda>_. []"] by simp

lemma control_Inr: "control tag as h ms = Inr ns \<longleftrightarrow> (\<exists>cs. fragment ms = Inr cs \<and> [Element tag as h cs] = ns)"
  by (simp add: control_def then_do_eq_Inr)

text \<open>Texts.\<close>

lemma text_child: "shown v \<Longrightarrow> collect (\<lambda>n. node_text n) (child v) = Some (case v of JNum n \<Rightarrow> num_to_string n | JStr s \<Rightarrow> s | _ \<Rightarrow> [])"
  by (cases v) (simp_all add: collect_def shown_def)

lemma text_caption [screen]: "collect node_text (caption s) = Some s"
  by (simp add: caption_def collect_def)

lemma text_control [screen]: "collect node_text (control tag as h ms) = collect node_text (fragment ms)"
  by (cases "fragment ms") (simp_all add: control_def collect_def)

lemma text_button [screen]: "collect node_text (button as h label) = Some label"
  by (simp add: button_def screen)

section \<open>Everything but the tables\<close>

lemma grid_control [screen]: "tag \<noteq> ''table'' \<Longrightarrow> collect node_grid (control tag as h ms) = collect node_grid (fragment ms)"
  by (cases "fragment ms") (simp_all add: control_def collect_def)

lemma grid_caption [screen]: "collect node_grid (caption s) = Some []"
  by (simp add: caption_def collect_def)

lemma grid_child [screen]: "shown v \<Longrightarrow> collect node_grid (child v) = Some []"
  by (cases v) (simp_all add: collect_def shown_def)

lemma grid_button [screen]: "collect node_grid (button as h label) = Some []"
  by (simp add: button_def screen)

lemma grid_input [screen]: "shown v \<Longrightarrow> collect node_grid (input as v f) = Some []"
  using value_attr_shown [of v] by (auto simp: input_def screen)

lemma grid_select [screen]: "shown v \<Longrightarrow> collect node_grid (select v f opts) = Some []"
  using value_attr_shown [of v] by (auto simp: select_def screen each_map intro!: collect_silent)

lemma grid_pieces [screen]:
  "collect node_grid (ErrorText_view e) = Some []" "collect node_grid (notice_view n) = Some []"
  "collect node_grid (Field label m) = collect node_grid m"
  by (auto simp: ErrorText_view_def notice_view_def Field_def screen followed_by_def split: option.splits list.splits)

lemma grid_shown_if_truthy [screen]:
  "collect node_grid (shown_if_truthy v m) = (if truthy v then collect node_grid m else Some [])"
proof -
  have "shown v" if "\<not> truthy v" using that by (cases v) simp_all
  then show ?thesis by (simp add: shown_if_truthy_def screen)
qed

lemma drawn_by_events: "events m = Some E \<Longrightarrow> \<exists>ns. m = Inr ns"
  by (auto simp: events_def split: sum.splits)

lemma grid_diff [screen]: "collect node_grid (DiffTable_view a b :: 'e markup) = Some []"
proof -
  obtain ns where ns: "(DiffTable_view a b :: 'e markup) = Inr ns" using drawn_by_events [OF events_DiffTable] by blast
  then have "concat (map node_grid ns) = []" unfolding DiffTable_view_def control_Inr by (auto simp: className_def)
  then show ?thesis by (simp add: collect_def ns)
qed

lemma node_text_map [simp]: "node_text (map_node f n) = node_text n"
  by (induction n) (simp_all cong: map_cong)

lemma node_grid_map [simp]: "node_grid (map_node f n) = node_grid n"
proof (induction n)
  case (Element tag as h ns)
  have c: "cell_text (map_node f n) = cell_text n" for n by (cases n) (simp_all add: comp_def)
  have r: "row_cells (map_node f n) = row_cells n" for n by (cases n) (simp_all add: comp_def c)
  have b: "body_rows (map_node f n) = body_rows n" for n by (cases n) (simp_all add: comp_def r)
  show ?case using Element.IH by (simp add: comp_def b cong: map_cong)
qed simp

lemma grid_lift [screen]: "collect node_grid (lift f m) = collect node_grid m"
  by (cases m) (simp_all add: lift_def collect_def comp_def)

section \<open>The table of a page\<close>

lemma grid_table:
  "collect node_grid (elem ''table'' (className ''grid'') [head_row titles, elem ''tbody'' [] ms :: 'e markup])
     = collect row_cells (fragment ms)"
proof -
  obtain hs where h: "(head_row titles :: 'e markup) = Inr hs" using drawn_by_events [OF events_head_row] by blast
  then have "concat (map body_rows hs) = []" unfolding head_row_def control_Inr by auto
  then show ?thesis by (cases "fragment ms") (auto simp: control_def h each_def collect_def className_def)
qed

lemma grid_row: "collect row_cells (elem ''tr'' as ms) = map_option (\<lambda>ts. [ts]) (collect cell_text (fragment ms))"
  by (cases "fragment ms") (simp_all add: control_def collect_def)

lemma grid_cell: "collect cell_text (elem ''td'' as ms) = map_option (\<lambda>t. [t]) (collect node_text (fragment ms))"
  by (cases "fragment ms") (simp_all add: control_def collect_def)

text \<open>The text of a cell.\<close>

definition said :: "jsv \<Rightarrow> string" where
  "said v = (case v of JNum n \<Rightarrow> num_to_string n | JStr s \<Rightarrow> s | _ \<Rightarrow> [])"

lemma grid_value_cell: "shown (own ob k) \<Longrightarrow> collect cell_text (value_cell (JObj ob) k) = Some [said (own ob k)]"
  by (simp add: value_cell_def grid_cell screen text_child said_def)

lemma grid_no_rows: "collect row_cells (no_rows n label) = Some [[label]]"
  by (simp add: no_rows_def grid_row grid_cell screen)

text \<open>What the table shows: a line for each row, or the one that says that there are none.\<close>

definition lines :: "string \<Rightarrow> (jsv \<Rightarrow> string list) \<Rightarrow> jsv list \<Rightarrow> string list list" where
  "lines none line ls = (if ls = [] then [[none]] else map line ls)"

lemma set_enumerate_row: "(i, l) \<in> set (enumerate 0 ls) \<Longrightarrow> l \<in> set ls"
  by (auto simp: in_set_enumerate_eq)

lemma grid_rows:
  assumes "\<And>i l. l \<in> set ls \<Longrightarrow> collect row_cells (f i l) = Some [line l]"
  shows "collect row_cells (fragment (rows_view name (JArr ls) f (no_rows n none))) = Some (lines none line ls)"
proof -
  have "collect row_cells (each (\<lambda>(i, l). f i l) (enumerate 0 ls)) = Some (concat (map (\<lambda>p. [line (snd p)]) (enumerate 0 ls)))"
    by (rule collect_each) (use assms in \<open>auto dest!: set_enumerate_row\<close>)
  moreover have "concat (map (\<lambda>p. [line (snd p)]) ps) = map (\<lambda>p. line (snd p)) ps" for ps :: "(nat \<times> jsv) list"
    by (induction ps) simp_all
  moreover have "map line (map snd (enumerate 0 ls)) = map line ls" by (rule arg_cong [where f = "map line"]) simp
  then have "map (\<lambda>p. line (snd p)) (enumerate 0 ls) = map line ls" by (simp only: map_map comp_def)
  ultimately show ?thesis by (simp add: rows_view_def screen grid_no_rows lines_def)
qed

definition limit_line :: "SessionState \<Rightarrow> jsv \<Rightarrow> string list" where
  "limit_line ss l =
     map (\<lambda>k. said (prop_opt l k)) [''service_name'', ''customer_id'', ''rate_limit_id'', ''limit_value'', ''time_unit'']
     @ [KindBadge (truthy (prop_opt l ''is_default'')),
        if offers ss Limit_write (prop_opt l ''service_name'') then ''Edit'' else ''read-only'']"

lemma grid_limit_row:
  assumes "\<forall>k \<in> {''service_name'', ''customer_id'', ''rate_limit_id'', ''limit_value'', ''time_unit''}. shown (own ob k)"
  shows "collect row_cells (limit_row_view ss i (JObj ob)) = Some [limit_line ss (JObj ob)]"
  using assms
  by (simp add: limit_row_view_def limit_line_def grid_row grid_cell grid_value_cell screen KindBadge_view_def)

text \<open>The limits page, with the editor closed.\<close>

lemma limits_on_screen:
  assumes "lp_limits st = JArr ls"
    and "\<forall>l \<in> set ls. \<exists>ob. l = JObj ob
      \<and> (\<forall>k \<in> {''service_name'', ''customer_id'', ''rate_limit_id'', ''limit_value'', ''time_unit''}. shown (own ob k))"
    and "truthy (lp_effective st) \<longrightarrow> isl (effective_hint (lp_effective st)) = False" "lp_editing st = None"
  shows "grid_of (LimitsBrowser_view ss st) = Some (lines ''no limits - search a service'' (limit_line ss) ls)"
proof -
  have rows: "collect row_cells (fragment (rows_view ''limits'' (JArr ls) (limit_row_view ss) (no_rows 7 t)))
      = Some (lines t (limit_line ss) ls)" for t
  proof (rule grid_rows)
    fix i l
    assume "l \<in> set ls"
    then obtain ob where "l = JObj ob"
      "\<forall>k \<in> {''service_name'', ''customer_id'', ''rate_limit_id'', ''limit_value'', ''time_unit''}. shown (own ob k)"
      using assms(2) by auto
    then show "collect row_cells (limit_row_view ss i l) = Some [limit_line ss l]" by (simp add: grid_limit_row)
  qed
  have hint: "collect node_grid (then_do (effective_hint (lp_effective st)) caption) = Some []" if "truthy (lp_effective st)"
    using assms(3) that by (cases "effective_hint (lp_effective st)") (simp_all add: screen)
  show ?thesis
    unfolding grid_of_def LimitsBrowser_view_def Let_def
    by (simp add: screen assms(1,4) grid_table rows hint)
qed

end
