(* ===== verification/Console_Search.thy ===== *)
theory Console_Search
  imports Full_Stack Screen_Text
begin

text \<open>
  A search from the click to the table: the page asks the server, the server asks the stand-in for the
  registry, and what comes back is shown.
\<close>

section \<open>A page in front of the server and the stand-ins\<close>

text \<open>
  The query parser of Express is a parameter. What is relied on: for the text of a form it gives an object with the
  values of the names, which are those of a key here.
\<close>

definition reads_queries :: "(string \<Rightarrow> jsv) \<Rightarrow> bool" where
  "reads_queries parser \<longleftrightarrow>
     (\<forall>kvs. distinct (map fst kvs) \<and> set (map fst kvs) \<subseteq> {''service_name'', ''customer_id'', ''rate_limit_id''} \<longrightarrow>
        (\<exists>ob. parser (join ''&'' (map form_pair kvs)) = JObj ob
           \<and> (\<forall>k. own ob k = (case map_of kvs k of None \<Rightarrow> JUndefined | Some v \<Rightarrow> JStr v))))"

definition query_text_of :: "Fetch \<Rightarrow> string" where
  "query_text_of f = drop 1 (dropWhile (\<lambda>c. c \<noteq> CHR ''?'') (f_url f))"

text \<open>The response to a request that only reads: the state the server and the stand-ins are in afterwards is not kept.\<close>

definition asked ::
  "(string \<Rightarrow> jsv) \<Rightarrow> Platform \<Rightarrow> Deps \<Rightarrow> (string \<times> jsv) list \<Rightarrow> int \<Rightarrow> bff \<Rightarrow> mocks \<Rightarrow> Fetch \<Rightarrow> fetch_result option" where
  "asked parser pl d ck ms s m f =
     map_option (\<lambda>(resp, _, _). fetched resp)
       (drive 3 ms (serve pl d (deliver ck (parser (query_text_of f)) JUndefined f) s) m)"

fun browse :: "nat \<Rightarrow> (Fetch \<Rightarrow> fetch_result option) \<Rightarrow> 's \<times> 's ui_act \<Rightarrow> 's option" where
  "browse n net (s, Respond u) = Some s"
| "browse n net (s, Throw e) = Some s"
| "browse 0 net (s, Await f k) = None"
| "browse (Suc n) net (s, Await f k) = (case net f of None \<Rightarrow> None | Some r \<Rightarrow> browse n net (k r s))"

section \<open>What a search is to show\<close>

definition limit_view :: "bool \<Rightarrow> StoredLimit \<Rightarrow> LimitView" where
  "limit_view b l =
     \<lparr>lv_config_id = Some (num_of_int (st_config_id l)), lv_key = st_key l, lv_limit_value = st_limit_value l,
      lv_time_unit = st_time_unit l, lv_is_default = b\<rparr>"

definition row_for :: "StoredLimit \<Rightarrow> jsv" where
  "row_for l = JObj (limit_json (limit_view (customer_id (st_key l) = ''*'') l))"

definition wanted :: "Filters \<Rightarrow> StoredLimit \<Rightarrow> bool" where
  "wanted fl l \<longleftrightarrow>
     service_name (st_key l) = fl_service fl
     \<and> (fl_rlid fl \<noteq> [] \<longrightarrow> rate_limit_id (st_key l) = fl_rlid fl)
     \<and> (case fl_kind fl of
          K_defaults \<Rightarrow> customer_id (st_key l) = ''*''
        | K_overrides \<Rightarrow> customer_id (st_key l) \<noteq> ''*'' \<and> (fl_customer fl \<noteq> [] \<longrightarrow> customer_id (st_key l) = fl_customer fl)
        | K_all \<Rightarrow> fl_customer fl \<noteq> [] \<longrightarrow> customer_id (st_key l) = fl_customer fl)"

definition hint_for :: "Filters \<Rightarrow> FakeQuotamgmt \<Rightarrow> jsv" where
  "hint_for fl g =
     (if fl_customer fl \<noteq> [] \<and> fl_customer fl \<noteq> ''*'' \<and> fl_rlid fl \<noteq> []
      then let lk = mkkey (fl_service fl) (fl_customer fl) (fl_rlid fl) in
           (case map_get (limits g) (k_of lk) of
              Some l \<Rightarrow> JObj ((''configured'', JBool True) # limit_json (limit_view False l))
            | None \<Rightarrow>
                (case map_get (limits g) (k_of (lk\<lparr>customer_id := ''*''\<rparr>)) of
                   Some l \<Rightarrow> JObj ((''configured'', JBool True) # limit_json (limit_view True l))
                 | None \<Rightarrow> JObj ((''configured'', JBool False) # (''note'', JStr UNCONFIGURED_NOTE) # key_json lk)))
      else JNull)"

section \<open>The request\<close>

definition customer_filter :: "Filters \<Rightarrow> string" where
  "customer_filter fl = (if fl_kind fl = K_defaults then ''*'' else fl_customer fl)"

definition search_params :: "Filters \<Rightarrow> (string \<times> jsv) list" where
  "search_params fl =
     [(''service_name'', JStr (fl_service fl)),
      (''customer_id'', if fl_kind fl = K_defaults then JStr ''*'' else or_undefined (fl_customer fl)),
      (''rate_limit_id'', or_undefined (fl_rlid fl))]"

definition search_pairs :: "Filters \<Rightarrow> (string \<times> string) list" where
  "search_pairs fl =
     (''service_name'', fl_service fl)
     # (if customer_filter fl = [] then [] else [(''customer_id'', customer_filter fl)])
     @ (if fl_rlid fl = [] then [] else [(''rate_limit_id'', fl_rlid fl)])"

lemma form_pair_nonempty [simp]: "form_pair p \<noteq> []"
  by (simp add: form_pair_def)

lemma join_form_pairs: "kvs \<noteq> [] \<Longrightarrow> join ''&'' (map form_pair kvs) \<noteq> []"
  by (cases kvs rule: list.exhaust; cases "tl kvs") auto

lemma search_query:
  "fl_service fl \<noteq> [] \<Longrightarrow> qs (search_params fl) = Inr (CHR ''?'' # join ''&'' (map form_pair (search_pairs fl)))"
  using join_form_pairs [of "search_pairs fl"]
  by (auto simp: qs_def search_params_def search_pairs_def customer_filter_def or_undefined_def Let_def)

lemma key_query:
  assumes "k_service_name k \<noteq> []" "k_customer_id k \<noteq> []" "k_rate_limit_id k \<noteq> []"
  shows "qs (key_object k) = Inr (CHR ''?'' # join ''&'' (map form_pair
    [(''service_name'', k_service_name k), (''customer_id'', k_customer_id k), (''rate_limit_id'', k_rate_limit_id k)]))"
  using assms join_form_pairs [of "[(''service_name'', k_service_name k), (''customer_id'', k_customer_id k), (''rate_limit_id'', k_rate_limit_id k)]"]
  by (simp add: qs_def key_object_def Let_def)

lemma query_text_fetch:
  assumes "CHR ''?'' \<notin> set p" shows "query_text_of (req_fetch t ''GET'' (p @ CHR ''?'' # u) None) = u"
proof -
  have "dropWhile (\<lambda>c. c \<noteq> CHR ''?'') ((''/api'' @ p) @ CHR ''?'' # u) = CHR ''?'' # u"
    using assms by (subst dropWhile_append2) auto
  then show ?thesis by (simp add: query_text_of_def req_fetch_def)
qed

lemma parsed_pairs:
  assumes "reads_queries parser" "distinct (map fst kvs)"
    and "set (map fst kvs) \<subseteq> {''service_name'', ''customer_id'', ''rate_limit_id''}"
  shows "prop_opt (parser (join ''&'' (map form_pair kvs))) k = (case map_of kvs k of None \<Rightarrow> JUndefined | Some v \<Rightarrow> JStr v)"
    "\<not> nullish (parser (join ''&'' (map form_pair kvs)))"
  using assms unfolding reads_queries_def by (metis get_prop_simps(1), fastforce simp: nullish_def)

section \<open>The server\<close>

lemma view_of_raw: "toLimitView (Some (raw_of l)) b
    = Inr (limit_view (case b of Some b \<Rightarrow> b | None \<Rightarrow> customer_id (st_key l) = ''*'') l)"
  by (simp add: toLimitView_def raw_of_def limit_view_def nullish_def)

lemma views_of_raw: "map_throw (\<lambda>l. toLimitView (Some l) None) (map raw_of ls)
    = Inr (map (\<lambda>l. limit_view (customer_id (st_key l) = ''*'') l) ls)"
  by (induction ls) (simp_all add: view_of_raw)

lemma drive_call_or:
  "well_addressed c \<Longrightarrow> drive (Suc n) ms (call_or c k h s) b =
     (let (r, b') = mock_handle ms c b
      in drive n ms (case call_result r of Inl e \<Rightarrow> h e s | Inr res \<Rightarrow> k res s) b')"
  by (simp add: split_def)

lemma handle_read:
  "mock_handle ms (quotamgmt (ListLimits sn ci ri ps pt) []) m = (mock_list sn ci ri (mgmt m), m)"
  "mock_handle ms (quotamgmt (GetLimit lk b) []) m = (mock_get lk b (mgmt m), m)"
  by (simp_all add: mock_handle_def quotamgmt_def)

definition listed :: "Filters \<Rightarrow> FakeQuotamgmt \<Rightarrow> StoredLimit list" where
  "listed fl g = filter (\<lambda>l. service_name (st_key l) = fl_service fl
     \<and> (customer_filter fl = [] \<or> customer_id (st_key l) = customer_filter fl)
     \<and> (fl_rlid fl = [] \<or> rate_limit_id (st_key l) = fl_rlid fl)) (map snd (limits g))"

lemma search_pairs_read:
  fixes fl
  assumes "reads_queries parser"
  defines "q \<equiv> parser (join ''&'' (map form_pair (search_pairs fl)))"
  shows "prop_opt q ''service_name'' = JStr (fl_service fl)"
    "prop_opt q ''customer_id'' = (if customer_filter fl = [] then JUndefined else JStr (customer_filter fl))"
    "prop_opt q ''rate_limit_id'' = (if fl_rlid fl = [] then JUndefined else JStr (fl_rlid fl))"
    "prop_opt q ''page_size'' = JUndefined" "prop_opt q ''page_token'' = JUndefined"
proof -
  have "distinct (map fst (search_pairs fl))"
    "set (map fst (search_pairs fl)) \<subseteq> {''service_name'', ''customer_id'', ''rate_limit_id''}"
    by (simp_all add: search_pairs_def)
  note p = parsed_pairs(1) [OF assms(1) this, folded q_def]
  show "prop_opt q ''service_name'' = JStr (fl_service fl)"
    "prop_opt q ''customer_id'' = (if customer_filter fl = [] then JUndefined else JStr (customer_filter fl))"
    "prop_opt q ''rate_limit_id'' = (if fl_rlid fl = [] then JUndefined else JStr (fl_rlid fl))"
    "prop_opt q ''page_size'' = JUndefined" "prop_opt q ''page_token'' = JUndefined"
    unfolding p by (simp_all add: search_pairs_def)
qed

lemma list_served:
  assumes "reads_queries parser" "fl_service fl \<noteq> []" "query req = parser (join ''&'' (map form_pair (search_pairs fl)))"
    and "authorize (session_user s sess) Limits_read (Some (fl_service fl)) (policy d) = Authz_ok"
  shows "drive (Suc n) ms (get_limits d req b sess s) m
    = Some (reply 200 (P_limits (map (\<lambda>l. limit_view (customer_id (st_key l) = ''*'') l) (listed fl (mgmt m))) None), s, m)"
proof -
  have q: "query_text req ''service_name'' = Inr (fl_service fl)" "query_string req ''customer_id'' = Inr (customer_filter fl)"
    "query_string req ''rate_limit_id'' = Inr (fl_rlid fl)" "query_number req ''page_size'' = Inr (Fin 0)"
    "query_string req ''page_token'' = Inr []"
    using search_pairs_read [OF assms(1), of fl]
    by (simp_all add: query_text_def query_string_def query_number_def assms(3) or_default_def nullish_def)
  show ?thesis
    unfolding get_limits_def q using assms(2,4)
    by (simp add: guard_def drive_call handle_read mock_list_def list_or_empty_def views_of_raw page_token_def listed_def)
qed

lemma resolve_served:
  assumes "reads_queries parser" "query req = parser (join ''&'' (map form_pair
      [(''service_name'', fl_service fl), (''customer_id'', fl_customer fl), (''rate_limit_id'', fl_rlid fl)]))"
    and "fl_service fl \<noteq> []" "fl_customer fl \<noteq> []" "fl_customer fl \<noteq> ''*''" "fl_rlid fl \<noteq> []"
    and "authorize (session_user s sess) Limits_read (Some (fl_service fl)) (policy d) = Authz_ok"
  shows "\<exists>p. drive (Suc n) ms (get_resolve d req b sess s) m = Some (reply 200 p, s, m)
    \<and> payload_json p = Some (hint_for fl (mgmt m))"
proof -
  let ?lk = "mkkey (fl_service fl) (fl_customer fl) (fl_rlid fl)"
  let ?q = "parser (join ''&'' (map form_pair
      [(''service_name'', fl_service fl), (''customer_id'', fl_customer fl), (''rate_limit_id'', fl_rlid fl)]))"
  have keys: "get_prop ?q ''service_name'' = Inr (JStr (fl_service fl))" "get_prop ?q ''customer_id'' = Inr (JStr (fl_customer fl))"
    "get_prop ?q ''rate_limit_id'' = Inr (JStr (fl_rlid fl))"
    unfolding get_prop_Inr using parsed_pairs [OF assms(1), of "[(''service_name'', fl_service fl), (''customer_id'', fl_customer fl), (''rate_limit_id'', fl_rlid fl)]"]
    by simp_all
  have v: "validateKey (query req) = Inr (Valid ?lk)"
    unfolding validateKey_def assms(2) using keys assms(3,4,6)
    by (simp add: require_def isNonEmptyString_def mkkey_def)
  have lk: "service_name ?lk = fl_service fl" "customer_id ?lk = fl_customer fl" by (simp_all add: mkkey_def)
  show ?thesis unfolding get_resolve_def with_valid_def v using assms(3-7)
    by (auto simp: guard_def lk drive_call_or handle_read mock_get_def view_of_raw grpc_error_def grpcToHttp_def
        hint_for_def Let_def split: option.split)
qed

text \<open>What is read is what was sent: the numbers are finite and every field is there.\<close>

lemma limit_json_received:
  assumes "num_isFinite (st_limit_value l)"
  shows "received (JObj (limit_json (limit_view b l))) = JObj (limit_json (limit_view b l))"
    "received (JObj ((''configured'', JBool c) # limit_json (limit_view b l))) = JObj ((''configured'', JBool c) # limit_json (limit_view b l))"
  using assms by (simp_all add: limit_json_def limit_view_def key_json_def or_null_def num_isFinite_def)

section \<open>The page\<close>

lemma asked_routed:
  assumes "endpoint c = Inr (''GET'', p, None)" "well_named c" "session_get (own ck SESSION_COOKIE) (sessions s) = Some sess"
    and "csrfToken sess \<noteq> []" "f = req_fetch [] ''GET'' p None"
  shows "asked parser pl d ck ms s m f = map_option (\<lambda>(resp, _, _). fetched resp)
    (drive 3 ms (route_of pl c d (deliver ck (parser (query_text_of f)) JUndefined f) JUndefined sess s) m)"
proof -
  have f: "f = req_fetch (csrfToken sess) ''GET'' p None" unfolding assms(5) by (simp add: req_fetch_def)
  have "attachSession (deliver ck (parser (query_text_of f)) JUndefined f) s = Some sess"
    using assms(3) by (simp add: attachSession_def deliver_def)
  then show ?thesis
    unfolding asked_def using client_call_routed [OF assms(1,2) _ refl assms(4), folded f] by simp
qed

lemma kinds_listed:
  "filter (\<lambda>l. fl_kind fl = K_overrides \<longrightarrow> customer_id (st_key l) \<noteq> ''*'') (listed fl g)
     = filter (wanted fl) (map snd (limits g))"
  unfolding listed_def filter_filter
  by (rule filter_cong) (auto simp: wanted_def customer_filter_def split: Kind.splits)

lemma rows_shown:
  assumes "\<forall>l \<in> set ls. num_isFinite (st_limit_value l)"
  shows "received (the (payload_json (P_limits (map (\<lambda>l. limit_view (customer_id (st_key l) = ''*'') l) ls) None)))
    = JObj [(''limits'', JArr (map row_for ls)), (''next_page_token'', JNull)]"
  using assms limit_json_received(1) by (auto simp: row_for_def or_null_def)

lemma listed_rows_shown:
  "listed_rows (fl_kind fl) (JObj [(''limits'', JArr (map row_for ls)), (''next_page_token'', JNull)])
     = Inr (JArr (map row_for (filter (\<lambda>l. fl_kind fl = K_overrides \<longrightarrow> customer_id (st_key l) \<noteq> ''*'') ls)))"
proof -
  have d: "get_prop (row_for l) ''is_default'' = Inr (JBool (customer_id (st_key l) = ''*''))" for l
    by (simp add: row_for_def limit_json_def limit_view_def key_json_def)
  have "map_throw (\<lambda>l. then_do (get_prop l ''is_default'') (\<lambda>b. Inr (l, \<not> truthy b))) (map row_for ls)
      = Inr (map (\<lambda>l. (row_for l, customer_id (st_key l) \<noteq> ''*'')) ls)"
    by (induction ls) (simp_all add: d)
  then show ?thesis by (auto simp: listed_rows_def filter_map comp_def)
qed

lemma fetched_ok: "payload_json p = Some v \<Longrightarrow> req_result (fetched (reply 200 p)) = Inr (received v)"
  by (simp add: req_result_def fetched_def)

lemma asked_list:
  assumes "reads_queries parser" "fl_service fl \<noteq> []"
    and "session_get (own ck SESSION_COOKIE) (sessions s) = Some sess" "csrfToken sess \<noteq> []"
    and "authorize (session_user s sess) Limits_read (Some (fl_service fl)) (policy d) = Authz_ok"
    and "\<forall>l \<in> set (map snd (limits (mgmt m))). num_isFinite (st_limit_value l)"
  shows "\<exists>p r. endpoint (A_listLimits (search_params fl)) = Inr (''GET'', p, None)
    \<and> asked parser pl d ck ms s m (req_fetch [] ''GET'' p None) = Some r
    \<and> req_result r = Inr (JObj [(''limits'', JArr (map row_for (listed fl (mgmt m)))), (''next_page_token'', JNull)])"
proof -
  define u where "u = join ''&'' (map form_pair (search_pairs fl))"
  let ?f = "req_fetch [] ''GET'' (''/limits'' @ CHR ''?'' # u) None"
  let ?ps = "P_limits (map (\<lambda>l. limit_view (customer_id (st_key l) = ''*'') l) (listed fl (mgmt m))) None"
  have e: "endpoint (A_listLimits (search_params fl)) = Inr (''GET'', ''/limits'' @ CHR ''?'' # u, None)"
    using search_query [OF assms(2)] by (simp add: with_query_def u_def)
  have q: "query (deliver ck (parser (query_text_of ?f)) JUndefined ?f) = parser u"
    using query_text_fetch [of "''/limits''"] by (simp add: deliver_def)
  have "asked parser pl d ck ms s m ?f = Some (fetched (reply 200 ?ps))"
    using asked_routed [OF e _ assms(3,4) refl] list_served [OF assms(1,2) q [unfolded u_def] assms(5), where n = 2]
    by (simp add: numeral_3_eq_3 numeral_2_eq_2 u_def)
  moreover have "req_result (fetched (reply 200 ?ps))
      = Inr (JObj [(''limits'', JArr (map row_for (listed fl (mgmt m)))), (''next_page_token'', JNull)])"
    using fetched_ok [of ?ps] rows_shown [of "listed fl (mgmt m)"] assms(6) by (auto simp: listed_def)
  ultimately show ?thesis using e by blast
qed

lemma hint_received:
  assumes "\<forall>l \<in> set (map snd (limits g)). num_isFinite (st_limit_value l)"
  shows "received (hint_for fl g) = hint_for fl g"
proof -
  have "num_isFinite (st_limit_value l)" if "map_get (limits g) k = Some l" for k l
    using assms map_of_SomeD [OF that] by force
  then show ?thesis
    by (auto simp: hint_for_def limit_json_received(2) key_json_def Let_def simp del: received.simps(3) split: option.splits)
       (simp add: key_json_def)
qed

lemma asked_resolve:
  assumes "reads_queries parser" "fl_service fl \<noteq> []"
    and "session_get (own ck SESSION_COOKIE) (sessions s) = Some sess" "csrfToken sess \<noteq> []"
    and "authorize (session_user s sess) Limits_read (Some (fl_service fl)) (policy d) = Authz_ok"
    and "\<forall>l \<in> set (map snd (limits (mgmt m))). num_isFinite (st_limit_value l)"
    and "fl_customer fl \<noteq> []" "fl_customer fl \<noteq> ''*''" "fl_rlid fl \<noteq> []"
    and "k = \<lparr>k_service_name = fl_service fl, k_customer_id = fl_customer fl, k_rate_limit_id = fl_rlid fl\<rparr>"
  shows "\<exists>p r. endpoint (A_resolveLimit k) = Inr (''GET'', p, None)
    \<and> asked parser pl d ck ms s m (req_fetch [] ''GET'' p None) = Some r
    \<and> req_result r = Inr (hint_for fl (mgmt m))"
proof -
  define u where "u = join ''&'' (map form_pair
    [(''service_name'', fl_service fl), (''customer_id'', fl_customer fl), (''rate_limit_id'', fl_rlid fl)])"
  let ?f = "req_fetch [] ''GET'' (''/limits/resolve'' @ CHR ''?'' # u) None"
  have e: "endpoint (A_resolveLimit k) = Inr (''GET'', ''/limits/resolve'' @ CHR ''?'' # u, None)"
    using key_query [of k] assms(2,7,9,10) by (simp add: with_query_def u_def)
  define rq where "rq = deliver ck (parser (query_text_of ?f)) JUndefined ?f"
  have q: "query rq = parser u"
    using query_text_fetch [of "''/limits/resolve''"] by (simp add: rq_def deliver_def)
  obtain p where p: "drive (Suc 2) ms (get_resolve d rq JUndefined sess s) m = Some (reply 200 p, s, m)"
      "payload_json p = Some (hint_for fl (mgmt m))"
    using resolve_served [OF assms(1) q [unfolded u_def] assms(2,7,8,9,5)] by blast
  have "asked parser pl d ck ms s m ?f = Some (fetched (reply 200 p))"
    using asked_routed [OF e _ assms(3,4) refl] p(1) by (simp add: rq_def)
  then show ?thesis using e fetched_ok [OF p(2)] hint_received [OF assms(6)] by auto
qed

text \<open>A stored limit as a line of the table on the screen.\<close>

definition stored_line :: "SessionState \<Rightarrow> StoredLimit \<Rightarrow> string list" where
  "stored_line ss l =
     [service_name (st_key l), customer_id (st_key l), rate_limit_id (st_key l), num_to_string (st_limit_value l), st_time_unit l,
      KindBadge (customer_id (st_key l) = ''*''),
      if offers ss Limit_write (JStr (service_name (st_key l))) then ''Edit'' else ''read-only'']"

lemma row_line: "limit_line ss (row_for l) = stored_line ss l"
  by (simp add: limit_line_def stored_line_def said_def row_for_def limit_json_def limit_view_def key_json_def)

lemma hint_for_drawn: "isl (effective_hint (hint_for fl g)) = False"
  by (auto simp: effective_hint_def isl_then_do hint_for_def limit_json_def limit_view_def key_json_def Let_def prop_opt_def
      split: option.splits)

lemma found_on_screen:
  assumes "lp_limits st = JArr (map row_for ls)" "lp_effective st = hint_for fl g" "lp_editing st = None"
  shows "grid_of (LimitsBrowser_view ss st)
    = Some (if ls = [] then [[''no limits - search a service'']] else map (stored_line ss) ls)"
proof -
  have "grid_of (LimitsBrowser_view ss st) = Some (lines ''no limits - search a service'' (limit_line ss) (map row_for ls))"
    by (rule limits_on_screen [OF assms(1) _ _ assms(3)])
       (auto simp: assms(2) hint_for_drawn row_for_def limit_json_def limit_view_def key_json_def)
  then show ?thesis by (simp add: lines_def comp_def row_line)
qed

section \<open>Properties\<close>

text \<open>
  C13. A search shows the registry: when a user who may read the limits of a service clicks Search, the page sends its
  filters, and after the responses of the server in front of the stand-ins the table holds exactly the
  limits stored for that service that match the filters, in their order, with their keys, values and units, and the
  hint tells the limit that applies to the customer: the own one, the default, or that there is none. While no editor
  is open, the cells on the screen are the texts of these limits, each line ending with its badge and its
  button or the remark that it is read-only, or there is one line that says that there are none.
\<close>

theorem search_shows_registry:
  assumes "reads_queries parser" "fl_service (lp_filters st) \<noteq> []"
    and "session_get (own ck SESSION_COOKIE) (sessions s) = Some sess" "csrfToken sess \<noteq> []"
    and "authorize (session_user s sess) Limits_read (Some (fl_service (lp_filters st))) (policy d) = Authz_ok"
    and "\<forall>l \<in> set (map snd (limits (mgmt m))). num_isFinite (st_limit_value l)"
  shows "\<exists>st'. browse 2 (asked parser pl d ck ms s m) (limits_serve ss Click_search st) = Some st'
    \<and> lp_limits st' = JArr (map row_for (filter (wanted (lp_filters st)) (map snd (limits (mgmt m)))))
    \<and> lp_effective st' = hint_for (lp_filters st) (mgmt m) \<and> lp_error st' = None
    \<and> (lp_editing st = None \<longrightarrow> grid_of (LimitsBrowser_view ss st')
         = Some (let ls = filter (wanted (lp_filters st)) (map snd (limits (mgmt m)))
                 in if ls = [] then [[''no limits - search a service'']] else map (stored_line ss) ls))"
proof -
  let ?fl = "lp_filters st" and ?net = "asked parser pl d ck ms s m"
  define rows where "rows = JArr (map row_for (filter (wanted ?fl) (map snd (limits (mgmt m)))))"
  define k where "k = \<lparr>k_service_name = fl_service ?fl, k_customer_id = fl_customer ?fl, k_rate_limit_id = fl_rlid ?fl\<rparr>"
  obtain p r where 1: "endpoint (A_listLimits (search_params ?fl)) = Inr (''GET'', p, None)"
      "?net (req_fetch [] ''GET'' p None) = Some r"
      "req_result r = Inr (JObj [(''limits'', JArr (map row_for (listed ?fl (mgmt m)))), (''next_page_token'', JNull)])"
    using asked_list [OF assms] by blast
  have rows: "listed_rows (fl_kind ?fl) (JObj [(''limits'', JArr (map row_for (listed ?fl (mgmt m)))), (''next_page_token'', JNull)])
      = Inr rows"
    unfolding rows_def listed_rows_shown kinds_listed ..
  let ?st = "st\<lparr>lp_error := None, lp_limits := rows\<rparr>"
  have start: "browse 2 ?net (limits_serve ss Click_search st)
      = browse 1 ?net (if fl_customer ?fl \<noteq> [] \<and> fl_customer ?fl \<noteq> ''*'' \<and> fl_rlid ?fl \<noteq> []
          then ask [] (A_resolveLimit k) (\<lambda>v st. settled (st\<lparr>lp_effective := v\<rparr>)) limits_failed ?st
          else settled (?st\<lparr>lp_effective := JNull\<rparr>))"
    using 1 assms(2) rows unfolding search_params_def k_def
    by (simp add: limits_serve_def limits_offered_def limits_search_def ask_def attempt_def numeral_2_eq_2 Let_def)
  define found where "found = ?st\<lparr>lp_effective := hint_for ?fl (mgmt m)\<rparr>"
  have "browse 2 ?net (limits_serve ss Click_search st) = Some found"
  proof (cases "fl_customer ?fl \<noteq> [] \<and> fl_customer ?fl \<noteq> ''*'' \<and> fl_rlid ?fl \<noteq> []")
    case True
    obtain p r where "endpoint (A_resolveLimit k) = Inr (''GET'', p, None)" "?net (req_fetch [] ''GET'' p None) = Some r"
      "req_result r = Inr (hint_for ?fl (mgmt m))"
      using asked_resolve [OF assms _ _ _ k_def] True by blast
    then show ?thesis unfolding start found_def using True by (simp add: ask_def settled_def)
  next
    case False
    then have "hint_for ?fl (mgmt m) = JNull" by (auto simp: hint_for_def)
    then show ?thesis unfolding start found_def using False by (auto simp: settled_def)
  qed
  moreover have "lp_limits found = rows" "lp_effective found = hint_for ?fl (mgmt m)" "lp_error found = None"
    "lp_editing found = lp_editing st" by (simp_all add: found_def)
  ultimately show ?thesis
    using found_on_screen [of found _ ?fl "mgmt m" ss] unfolding rows_def Let_def by metis
qed

text \<open>The parser of the standard is one to rely on.\<close>

definition form_parser :: "string \<Rightarrow> jsv" where
  "form_parser u = JObj (map (\<lambda>(k, v). (k, JStr v)) (parse_query u))"

lemma form_parser_reads: "reads_queries form_parser"
proof -
  have "own (map (\<lambda>(k, v). (k, JStr v)) kvs) k = (case map_of kvs k of None \<Rightarrow> JUndefined | Some v \<Rightarrow> JStr v)" for kvs k
    by (induction kvs) auto
  then show ?thesis by (auto simp: reads_queries_def form_parser_def parse_query_pairs)
qed

theorem search_shows_registry_witness:
  "\<exists>st'. browse 2 (asked form_parser demo_platform demo_deps [(SESSION_COOKIE, JStr ''d0'')] 0 demo_state2 (seeded_mocks 0))
       (limits_serve (granted ''operator'') Click_search (new_limits_page\<lparr>lp_filters :=
          \<lparr>fl_service = ''search-svc'', fl_customer = ''cust_42'', fl_rlid = ''default'', fl_kind = K_overrides\<rparr>\<rparr>)) = Some st'
     \<and> grid_of (LimitsBrowser_view (granted ''operator'') st')
       = Some [[''search-svc'', ''cust_42'', ''default'', ''1000'', ''MINUTE'', ''OVERRIDE'', ''Edit'']]
     \<and> prop_opt (lp_effective st') ''limit_value'' = JNum (Fin 1000)"
proof -
  let ?fl = "\<lparr>fl_service = ''search-svc'', fl_customer = ''cust_42'', fl_rlid = ''default'', fl_kind = K_overrides\<rparr>"
  let ?st = "new_limits_page\<lparr>lp_filters := ?fl\<rparr>" and ?sess = "demo_session 0 ''d0'' ''d1''"
  have s: "session_get (own [(SESSION_COOKIE, JStr ''d0'')] SESSION_COOKIE) (sessions demo_state2) = Some ?sess" "csrfToken ?sess \<noteq> []"
    by (simp_all add: session_get_def demo_states demo_session_def)
  have "authorize (MOCK_USERS ! 0) Limits_read (Some ''search-svc'') DEFAULT_POLICY = Authz_ok"
    by (simp add: MOCK_USERS_def user_def authorize_def rbac_simps)
  then have a: "authorize (session_user demo_state2 ?sess) Limits_read (Some (fl_service (lp_filters ?st))) (policy demo_deps) = Authz_ok"
    by (simp add: session_user_def user_at_def demo_eval)
  define l where "l = \<lparr>st_config_id = 2, st_key = mkkey ''search-svc'' ''cust_42'' ''default'', st_limit_value = Fin 1000,
    st_time_unit = ''MINUTE''\<rparr>"
  have w: "filter (wanted ?fl) (map snd (limits (mgmt (seeded_mocks 0)))) = [l]"
    "map_get (limits (mgmt (seeded_mocks 0))) (k_of (mkkey ''search-svc'' ''cust_42'' ''default'')) = Some l"
    unfolding l_def by code_simp+
  have "list_all (\<lambda>l. num_isFinite (st_limit_value l)) (map snd (limits (mgmt (seeded_mocks 0))))" by code_simp
  then have n: "\<forall>l \<in> set (map snd (limits (mgmt (seeded_mocks 0)))). num_isFinite (st_limit_value l)"
    by (simp add: list_all_iff)
  have "fl_service (lp_filters ?st) \<noteq> []" "lp_filters ?st = ?fl" by simp_all
  moreover have "lp_editing ?st = None" by (simp add: new_limits_page_def)
  ultimately obtain st'
    where st': "browse 2 (asked form_parser demo_platform demo_deps [(SESSION_COOKIE, JStr ''d0'')] 0 demo_state2 (seeded_mocks 0))
        (limits_serve (granted ''operator'') Click_search ?st) = Some st'" "lp_limits st' = JArr (map row_for [l])"
      "lp_effective st' = hint_for ?fl (mgmt (seeded_mocks 0))"
      "grid_of (LimitsBrowser_view (granted ''operator'') st') = Some (map (stored_line (granted ''operator'')) [l])"
    using search_shows_registry [OF form_parser_reads _ s a n, where pl = demo_platform and ms = 0 and ss = "granted ''operator''"]
    by (auto simp: w(1))
  have "stored_line (granted ''operator'') l = [''search-svc'', ''cust_42'', ''default'', ''1000'', ''MINUTE'', ''OVERRIDE'', ''Edit'']"
    unfolding l_def by code_simp
  then have t: "grid_of (LimitsBrowser_view (granted ''operator'') st')
      = Some [[''search-svc'', ''cust_42'', ''default'', ''1000'', ''MINUTE'', ''OVERRIDE'', ''Edit'']]"
    by (simp add: st'(4))
  have h: "prop_opt (lp_effective st') ''limit_value'' = JNum (Fin 1000)"
    using w(2) by (simp add: st'(3) hint_for_def limit_json_def limit_view_def key_json_def l_def Let_def)
  show ?thesis by (rule exI [of _ st']) (intro conjI st'(1) t h)
qed

end
