(* ===== verification/Console_Clicks.thy ===== *)
theory Console_Clicks
  imports Console_App
begin

text \<open>
  Changes and clicks: the console sends a change only at the moment its user asks for it, with the token of the
  session it holds then; what it sends on its own, after a response, are reads. This holds for all responses.
\<close>

section \<open>Actions\<close>

lemma act_induct [case_names Respond Throw Await]:
  assumes "\<And>v. P (Respond v)" "\<And>e. P (Throw e)" "\<And>c k. (\<And>r s. P (snd (k r s))) \<Longrightarrow> P (Await c k)"
  shows "P a"
proof (induction a)
  case (Await c k)
  have "P (snd (k r s))" for r s
    by (rule Await [of "k r" "k r s"]) (auto simp: snds.simps intro: surjective_pairing)
  then show ?case by (rule assms(3))
qed (rule assms)+

lemma conforms_weaken:
  assumes "conforms may pre guar a" "\<And>s. pre' s \<Longrightarrow> pre s" "\<And>c r s s'. pre' s \<Longrightarrow> guar c r s s' \<Longrightarrow> guar' c r s s'"
  shows "conforms may pre' guar' a"
  using assms by (induction rule: conforms.induct) (auto simp: conforms_Await)

text \<open>A function of a page that was left changes nothing.\<close>

lemma left_page_is_deaf:
  "conforms (\<lambda>_. True) (\<lambda>_. True) (\<lambda>_ _ s s'. \<not> alive i s \<longrightarrow> s' = s) (zoom get (\<lambda>t. put_content i (g t)) a)"
  by (induction a rule: act_induct) (auto simp: conforms_Await put_content_def split: option.splits)

section \<open>The invariant of the console\<close>

definition console_inv :: "Console \<Rightarrow> bool" where
  "console_inv st \<longleftrightarrow> token_ok (sh_session (co_shell st)) \<and> mounted_right st"

lemma co_shell_put [simp]: "co_shell (put_shell sh st) = sh"
  by (simp add: put_shell_def reconcile_def split: Screen.splits)

interpretation shell_part: part co_shell put_shell
  by unfold_locales simp

lemma put_shell_mounted [simp]: "mounted_right (put_shell sh st)"
  by (auto simp: put_shell_def reconcile_def mounted_right_def split: Screen.splits)

lemma put_shell_inv: "token_ok (sh_session sh) \<Longrightarrow> console_inv (put_shell sh st)"
  by (simp add: console_inv_def)

lemma put_content_inv: "console_inv st \<Longrightarrow> console_inv (put_content i x st)"
  by (auto simp: console_inv_def put_content_def mounted_right_def split: option.splits)

abbreviation keeps_inv :: "Console \<times> Console ui_act \<Rightarrow> bool" where
  "keeps_inv \<equiv> page_ok (\<lambda>_. True) console_inv"

lemma zoom_inv: "(\<And>t s. console_inv s \<Longrightarrow> console_inv (put t s)) \<Longrightarrow>
    conforms (\<lambda>_. True) console_inv (\<lambda>_ _ _ s'. console_inv s') (zoom get put a)"
  by (induction a rule: act_induct) (auto simp: conforms_Await)

lemma zoomed_inv: "console_inv st \<Longrightarrow> (\<And>t s. console_inv s \<Longrightarrow> console_inv (put t s)) \<Longrightarrow> keeps_inv (zoomed get put f st)"
  by (auto simp: page_ok_def zoomed_def zoom_inv)

lemma in_pages_inv:
  assumes "console_inv st"
  shows "keeps_inv (in_limits f1 st)" "keeps_inv (in_services f2 st)" "keeps_inv (in_usage f3 st)"
    "keeps_inv (in_audit f4 st)" "keeps_inv (in_reviews f5 st)"
  unfolding in_limits_def in_services_def in_usage_def in_audit_def in_reviews_def
  using assms by (auto intro!: zoomed_inv put_content_inv)

lemma in_shell_inv: "console_inv st \<Longrightarrow> keeps_inv (zoomed co_shell put_shell (shell_serve ev) st)"
proof -
  assume st: "console_inv st"
  have "conforms (\<lambda>_. True) console_inv (\<lambda>_ _ _ s'. console_inv s') (zoom co_shell put_shell (snd (shell_serve ev (co_shell st))))"
    using shell_part.conforms_zoom [OF shell_serve_conforms [THEN conjunct2, of ev "co_shell st"]]
    by (rule conforms_weaken) (auto simp: console_inv_def)
  moreover have "console_inv (put_shell (fst (shell_serve ev (co_shell st))) st)"
    using st shell_serve_conforms [of ev "co_shell st"] by (intro put_shell_inv) (simp add: console_inv_def)
  ultimately show ?thesis by (simp add: page_ok_def zoomed_def)
qed

lemma effect_inv: "console_inv (st\<lparr>co_effect := b\<rparr>) = console_inv st"
  by (simp add: console_inv_def mounted_right_def)

interpretation console_contract: page console_serve console_inv "\<lambda>_. True"
proof (unfold_locales, goal_cases)
  case (1 st ev)
  then show ?case
    by (cases ev) (auto simp: Let_def effect_inv intro!: page_settled in_pages_inv in_shell_inv
        split: option.splits Content.splits)
qed

section \<open>Reads after a response\<close>

definition reads_on :: "'s ui_act \<Rightarrow> bool" where
  "reads_on a \<longleftrightarrow> conforms (\<lambda>c. f_method c = ''GET'') (\<lambda>_. True) (\<lambda>_ _ _ _. True) a"

definition one_change :: "string \<Rightarrow> 's \<times> 's ui_act \<Rightarrow> bool" where
  \<comment> \<open>a change is the first request, and has the token\<close>
  "one_change token x \<longleftrightarrow>
     (case snd x of
        Await c k \<Rightarrow> (f_method c = ''GET'' \<or> (''x-csrf-token'', token) \<in> set (f_headers c)) \<and> (\<forall>r s. reads_on (snd (k r s)))
      | _ \<Rightarrow> True)"

lemma reads_on_simps [simp]:
  "reads_on (Respond u)" "reads_on (Throw e)"
  "reads_on (Await c k) \<longleftrightarrow> f_method c = ''GET'' \<and> (\<forall>r s. reads_on (snd (k r s)))"
  by (simp_all add: reads_on_def conforms_Await)

named_theorems click_rules

lemma reads_settled [click_rules]: "reads_on (snd (settled s))"
  by (simp add: settled_def)

lemma reads_attempt [click_rules]:
  "(\<And>a. reads_on (snd (k a s))) \<Longrightarrow> (\<And>e. reads_on (snd (h e s))) \<Longrightarrow> reads_on (snd (attempt x k h s))"
  by (auto simp: attempt_def split: sum.splits)

lemma reads_ask [click_rules]:
  "(\<And>m p b. endpoint c = Inr (m, p, b) \<Longrightarrow> m = ''GET'') \<Longrightarrow> (\<And>v s. reads_on (snd (k v s))) \<Longrightarrow> (\<And>e s. reads_on (snd (h e s)))
     \<Longrightarrow> reads_on (snd (ask token c k h s))"
  by (auto simp: ask_def req_fetch_def split: sum.splits)

lemma one_settled [click_rules]: "one_change token (settled s)"
  by (simp add: one_change_def settled_def)

lemma one_read: "reads_on (snd x) \<Longrightarrow> one_change token x"
  by (cases "snd x") (simp_all add: one_change_def)

lemma one_ask [click_rules]:
  "(\<And>v s. reads_on (snd (k v s))) \<Longrightarrow> (\<And>e s. reads_on (snd (h e s))) \<Longrightarrow> one_change token (ask token c k h s)"
proof (cases "endpoint c")
  case (Inl e)
  assume "\<And>e s. reads_on (snd (h e s))"
  then show ?thesis by (simp add: ask_def Inl one_read)
qed (auto simp: one_change_def ask_def req_fetch_def split: sum.splits)

lemma one_attempt [click_rules]:
  "(\<And>a. one_change token (k a s)) \<Longrightarrow> (\<And>e. one_change token (h e s)) \<Longrightarrow> one_change token (attempt x k h s)"
  by (auto simp: attempt_def split: sum.splits)

lemma reads_zoom: "reads_on a \<Longrightarrow> reads_on (zoom get put a)"
  by (induction a rule: act_induct) auto

lemma one_zoomed: "one_change token (f (get s)) \<Longrightarrow> one_change token (zoomed get put f s)"
  by (cases "snd (f (get s))") (auto simp: one_change_def zoomed_def reads_zoom)

text \<open>The pages.\<close>

lemma limits_search_reads: "reads_on (snd (limits_search fl st))"
  unfolding limits_search_def limits_failed_def Let_def
  by (auto intro!: reads_settled reads_ask reads_attempt simp: with_query_get)

lemma saved_reads: "reads_on (snd (saved fl st))" "reads_on (snd (done_or_pending i fl what v st))"
  "reads_on (snd (editor_failed i e st))"
  unfolding done_or_pending_def saved_def editor_failed_def
  by (auto intro!: limits_search_reads reads_attempt reads_settled)

lemma limits_one: "one_change (ui_csrf ss) (limits_serve ss ev st)"
proof -
  have "one_change token (editor_handle token initial e st)" for token initial e
    by (cases e) (auto simp: save_def del_def Let_def editor_failed_def
        intro!: one_settled one_ask one_attempt saved_reads saved_reads(3) [unfolded editor_failed_def])
  then show ?thesis
    by (cases ev) (auto simp: limits_serve_def intro!: one_settled one_read [OF limits_search_reads] split: option.splits jsv.splits)
qed

lemma lookup_reads: "reads_on (snd (lookup k st))"
  unfolding lookup_def by (auto intro!: reads_settled reads_ask simp: with_query_get)

lemma usage_one: "one_change (ui_csrf ss) (usage_serve ss ev st)"
  by (cases ev)
     (auto simp: usage_serve_def doRefund_def doReset_def pending_notice_def usage_failed_def Let_def
       intro!: one_settled one_ask one_read [OF lookup_reads] lookup_reads reads_attempt reads_settled split: option.splits list.splits)

lemma audit_one: "one_change token (audit_serve ev st)"
proof -
  have "reads_on (snd (audit_search st))"
    unfolding audit_search_def Let_def by (auto intro!: reads_settled reads_ask reads_attempt simp: with_query_get)
  then show ?thesis by (cases ev) (auto intro!: one_settled one_read split: option.splits)
qed

lemma load_services_reads: "reads_on (snd (load_services st))"
  unfolding load_services_def services_failed_def by (auto intro!: reads_settled reads_ask reads_attempt)

lemma services_one: "one_change (ui_csrf ss) (services_serve ss ev st)"
  by (cases ev)
     (auto simp: services_serve_def submit_def services_failed_def Let_def
       intro!: one_settled one_ask one_read [OF load_services_reads] load_services_reads reads_settled split: option.splits)

lemma load_reviews_reads: "reads_on (snd (load_reviews st))"
  unfolding load_reviews_def reviews_failed_def by (auto intro!: reads_settled reads_ask reads_attempt)

lemma reviews_one: "one_change (ui_csrf ss) (reviews_serve ss ev st)"
  by (cases ev)
     (auto simp: decide_def reviews_failed_def intro!: one_settled one_ask one_read [OF load_reviews_reads] load_reviews_reads reads_settled
       split: option.splits jsv.splits)

lemma shell_one: "one_change (ui_csrf (sh_session sh)) (shell_serve ev sh)"
proof -
  have l: "reads_on (snd (load_session ss))" for ss
    unfolding load_session_def by (intro reads_ask) (auto intro!: reads_settled)
  have "one_change (ui_csrf ss) (session_serve e ss)" for e ss
    by (cases e) (auto simp: ui_login_def ui_logout_def intro!: one_ask reads_settled intro: one_read l)
  then have "one_change (ui_csrf (sh_session sh)) (zoomed sh_session put_session (session_serve e) sh)" for e
    by (rule one_zoomed)
  from this [of Mounted] this [of "Clicked_login (sh_devUser sh)"] this [of Clicked_logout] show ?thesis
    by (cases ev) (auto simp: shell_serve_def intro!: one_settled)
qed

lemma console_one: "one_change (ui_csrf (sh_session (co_shell st))) (console_serve ev st)"
proof -
  have "one_change (ui_csrf ss) (in_limits (limits_serve ss e1) st)" "one_change (ui_csrf ss) (in_services (services_serve ss e2) st)"
    "one_change (ui_csrf ss) (in_usage (usage_serve ss e3) st)" "one_change (ui_csrf ss) (in_audit (audit_serve e4) st)"
    "one_change (ui_csrf ss) (in_reviews (reviews_serve ss e5) st)" for ss e1 e2 e3 e4 e5 st
    unfolding in_limits_def in_services_def in_usage_def in_audit_def in_reviews_def
    by (intro one_zoomed limits_one services_one usage_one audit_one reviews_one)+
  note this [simp]
  show ?thesis
    by (cases ev) (auto simp: Let_def intro!: one_settled one_zoomed shell_one split: option.splits Content.splits)
qed

locale clicking_machine =
  fixes serve :: "'q \<Rightarrow> 's \<Rightarrow> 's \<times> 's ui_act" and token :: "'s \<Rightarrow> string"
  assumes serve_once: "one_change (token s) (serve q s)"
begin

definition waits :: "'s ui_act \<Rightarrow> bool" where
  "waits a \<longleftrightarrow> (case a of Await c k \<Rightarrow> \<forall>r s. reads_on (snd (k r s)) | _ \<Rightarrow> True)"

lemma reads_wait: "reads_on a \<Longrightarrow> waits a"
  by (cases a) (simp_all add: waits_def)

lemma threads_wait: "reachable serve (\<lambda>_ _. False) s0 w \<Longrightarrow> \<forall>a \<in> set (threads w). waits a"
proof (induction rule: reachable.induct)
  case (more w w')
  from more.hyps(2) show ?case
  proof cases
    case (arrive q s a)
    then have "waits a" using serve_once [of "store w" q] by (auto simp: one_change_def waits_def split: act.splits)
    then show ?thesis using more.IH arrive by auto
  next
    case (settle t c k r s a)
    then have "waits (Await c k)" using more.IH nth_mem [OF settle(2)] by metis
    then have "reads_on (snd (k r (store w)))" by (simp add: waits_def)
    then have "waits a" using settle(4) reads_wait by simp
    then show ?thesis using more.IH settle set_update_subset_insert [of "threads w" t a] by auto
  qed simp
qed (simp add: boot_def)

lemma only_reads_later:
  assumes "reachable serve (\<lambda>_ _. False) s0 w" "t < length (threads w)" "threads w ! t = Await c k"
    and "k r s = (s', Await c' k')"
  shows "f_method c' = ''GET''"
proof -
  have "waits (Await c k)" using threads_wait [OF assms(1)] nth_mem [OF assms(2)] assms(3) by metis
  then have "reads_on (snd (k r s))" by (simp add: waits_def)
  then show ?thesis by (simp add: assms(4))
qed

end

interpretation console_clicks: clicking_machine console_serve "\<lambda>st. ui_csrf (sh_session (co_shell st))"
  by unfold_locales (rule console_one)

section \<open>Properties\<close>


text \<open>An operator signs in, opens the editor for a new limit, and is about to save it.\<close>

definition about_to_save :: "(ConsoleEvent, fetch_result) cue list" where
  "about_to_save = [Input (Co_shell Sh_mounted), Reply 0 (signed_in ''operator''), Input (Co_limits Click_new)]"


end
