(* ===== verification/Console_Progress.thy ===== *)
theory Console_Progress
  imports Console_Clicks
begin

text \<open>
  Every action of the console comes to an end: whatever the responses, it awaits a fixed number of them at most, and
  an action of a page never ends in an error nobody catches.
\<close>

section \<open>Bounded actions\<close>

fun settles :: "nat \<Rightarrow> 's ui_act \<Rightarrow> bool" where
  "settles n (Respond u) = True"
| "settles n (Throw e) = False"
| "settles 0 (Await c k) = False"
| "settles (Suc n) (Await c k) = (\<forall>r s. settles n (snd (k r s)))"

lemma settles_Suc: "settles n a \<Longrightarrow> settles (Suc n) a"
  by (induction n a rule: settles.induct) auto

lemma settles_mono: "settles m a \<Longrightarrow> m \<le> n \<Longrightarrow> settles n a"
  by (induction n rule: nat_induct) (auto simp: le_Suc_eq settles_Suc)

named_theorems settle_rules

lemma settles_settled [settle_rules]: "settles n (snd (settled s))"
  by (simp add: settled_def)

lemma settles_attempt [settle_rules]:
  "(\<And>a. settles n (snd (k a s))) \<Longrightarrow> (\<And>e. settles n (snd (h e s))) \<Longrightarrow> settles n (snd (attempt x k h s))"
  by (auto simp: attempt_def split: sum.splits)

lemma settles_ask [settle_rules]:
  "(\<And>v s. settles n (snd (k v s))) \<Longrightarrow> (\<And>e s. settles n (snd (h e s))) \<Longrightarrow> settles (Suc n) (snd (ask token c k h s))"
  by (auto simp: ask_def settles_Suc split: sum.splits)

text \<open>The responses an action has received so far.\<close>

definition replies :: "nat \<Rightarrow> ('q, 'c, 'r) event list \<Rightarrow> nat" where
  "replies t tr = length (filter (\<lambda>e. case e of Settled t' c r \<Rightarrow> t' = t | _ \<Rightarrow> False) tr)"

lemma replies_simps [simp]:
  "replies t [] = 0" "replies t (tr @ tr') = replies t tr + replies t tr'"
  "replies t (Arrived i q # tr) = replies t tr" "replies t (Issued i c # tr) = replies t tr"
  "replies t (Settled i c r # tr) = (if i = t then Suc (replies t tr) else replies t tr)" "replies t (issues i a) = 0"
  by (simp_all add: replies_def issues_def split: act.split)

text \<open>No action has received more than \<open>n\<close> responses, and one that has received as many is done.\<close>

definition done_within :: "nat \<Rightarrow> ('q, Fetch, fetch_result, 's, unit) server \<Rightarrow> bool" where
  "done_within n w \<longleftrightarrow>
     (\<forall>t < length (threads w). replies t (trace w) \<le> n
        \<and> (threads w ! t = Respond () \<or> replies t (trace w) < n \<and> (\<exists>c k. threads w ! t = Await c k)))"

text \<open>
  A machine whose actions have a measure: \<open>left q m a\<close> says that \<open>a\<close>, started by the event \<open>q\<close>, awaits \<open>m\<close> responses at
  most.
\<close>

locale scheduled_machine =
  fixes serve :: "'q \<Rightarrow> 's \<Rightarrow> 's \<times> 's ui_act" and left :: "'q \<Rightarrow> nat \<Rightarrow> 's ui_act \<Rightarrow> bool" and n :: nat
  assumes serve_left: "left q n (snd (serve q s))"
    and left_Await: "left q m (Await c k) \<Longrightarrow> \<exists>m'. m = Suc m' \<and> (\<forall>r s. left q m' (snd (k r s)))"
begin

lemma on_schedule:
  assumes "reachable serve (\<lambda>_ _. False) s0 w"
  shows "(\<forall>t < length (threads w). replies t (trace w) \<le> n
      \<and> (\<exists>q. Arrived t q \<in> set (trace w) \<and> left q (n - replies t (trace w)) (threads w ! t)))
    \<and> (\<forall>t \<ge> length (threads w). replies t (trace w) = 0)"
  using assms
proof (induction rule: reachable.induct)
  case init
  then show ?case by (simp add: boot_def)
next
  case (more w w')
  from more.hyps(2) show ?case
  proof cases
    case (arrive q s a)
    then have "left q n a" using serve_left [of q "store w"] by simp
    then show ?thesis using more.IH arrive by (auto simp: nth_append less_Suc_eq)
  next
    case (settle t c k r s a)
    then obtain q where q: "Arrived t q \<in> set (trace w)" "left q (n - replies t (trace w)) (Await c k)"
      using more.IH by metis
    then obtain m where m: "n - replies t (trace w) = Suc m" "\<forall>r s. left q m (snd (k r s))" using left_Await by blast
    from m(2) have "left q m a" using settle(4) by (metis snd_conv)
    moreover have "n - Suc (replies t (trace w)) = m" using m(1) by linarith
    ultimately show ?thesis using more.IH settle m(1) q(1) by (auto simp: nth_list_update)
  qed simp
qed

end

locale settling_machine =
  fixes serve :: "'q \<Rightarrow> 's \<Rightarrow> 's \<times> 's ui_act" and n :: nat
  assumes serve_settles: "settles n (snd (serve q s))"
begin

lemma settles_left: "settles m (Await c k) \<Longrightarrow> \<exists>m'. m = Suc m' \<and> (\<forall>r s. settles m' (snd (k r s)))"
  by (cases m) auto

end

sublocale settling_machine \<subseteq> scheduled: scheduled_machine serve "\<lambda>_. settles" n
  by unfold_locales (rule serve_settles, rule settles_left)

context settling_machine
begin

lemma ends: "reachable serve (\<lambda>_ _. False) s0 w \<Longrightarrow> done_within n w"
  unfolding done_within_def
proof (intro allI impI)
  fix t
  assume "reachable serve (\<lambda>_ _. False) s0 w" "t < length (threads w)"
  then show "replies t (trace w) \<le> n
      \<and> (threads w ! t = Respond () \<or> replies t (trace w) < n \<and> (\<exists>c k. threads w ! t = Await c k))"
    using scheduled.on_schedule [of s0 w] by (cases "threads w ! t"; cases "n - replies t (trace w)") auto
qed

end

section \<open>The pages\<close>

lemma limits_search_settles: "settles 2 (snd (limits_search fl st))"
  unfolding limits_search_def limits_failed_def numeral_2_eq_2 Let_def
  by (auto intro!: settle_rules)

lemma saved_settles: "settles 2 (snd (saved fl st))"
  unfolding saved_def by (rule limits_search_settles)

lemma done_or_pending_settles: "settles 2 (snd (done_or_pending i fl what v st))"
  unfolding done_or_pending_def editor_failed_def by (auto intro!: settle_rules saved_settles)

interpretation limits_settle: settling_machine "limits_serve ss" 3
proof (unfold_locales, goal_cases)
  case (1 ev st)
  have 3: "settles 3 (snd (ask token c k h s))"
    if "\<And>v s. settles 2 (snd (k v s))" "\<And>e s. settles 2 (snd (h e s))" for token c h s and k :: "(jsv, LimitsPage) ui_cont"
    using settles_ask [of 2 k h] that by (simp add: numeral_3_eq_3 numeral_2_eq_2)
  have "settles 3 (snd (save token initial st))" "settles 3 (snd (del token st))" for token initial
    unfolding save_def del_def editor_failed_def Let_def
    by (auto intro!: settles_attempt 3 settles_settled saved_settles done_or_pending_settles)
  moreover have "settles 3 (snd (limits_search fl st))" for fl
    using limits_search_settles by (rule settles_mono) simp
  moreover from calculation have "settles 3 (snd (editor_handle token initial e st))" for token initial e
    by (cases e) (auto intro!: settles_settled)
  ultimately show ?case
    by (cases ev) (auto simp: limits_serve_def intro!: settles_settled split: option.splits jsv.splits)
qed

lemma lookup_settles: "settles 1 (snd (lookup k st))"
  unfolding lookup_def One_nat_def by (intro settle_rules)

interpretation usage_settle: settling_machine "usage_serve ss" 2
proof (unfold_locales, goal_cases)
  case (1 ev st)
  have "settles 2 (snd (doRefund token answer st))" "settles 2 (snd (doReset token b st))" for token answer b
    using lookup_settles unfolding doRefund_def doReset_def pending_notice_def usage_failed_def numeral_2_eq_2 Let_def
    by (auto intro!: settle_rules split: option.splits list.splits)
  moreover have "settles 2 (snd (lookup k st))" for k using lookup_settles by (rule settles_mono) simp
  ultimately show ?case by (cases ev) (auto simp: usage_serve_def intro!: settles_settled)
qed

interpretation audit_settle: settling_machine audit_serve 1
proof (unfold_locales, goal_cases)
  case (1 ev st)
  have "settles 1 (snd (audit_search st))"
    unfolding audit_search_def One_nat_def Let_def by (intro settle_rules)
  then show ?case by (cases ev) (auto intro!: settles_settled split: option.splits)
qed

lemma load_services_settles: "settles 1 (snd (load_services st))"
  unfolding load_services_def services_failed_def One_nat_def by (intro settle_rules)

interpretation services_settle: settling_machine "services_serve ss" 2
proof (unfold_locales, goal_cases)
  case (1 ev st)
  have "settles 2 (snd (submit token st))" for token
    using load_services_settles unfolding submit_def services_failed_def numeral_2_eq_2 Let_def
    by (auto intro!: settle_rules)
  moreover have "settles 2 (snd (load_services st))" using load_services_settles by (rule settles_mono) simp
  ultimately show ?case by (cases ev) (auto simp: services_serve_def intro!: settles_settled split: option.splits)
qed

lemma load_reviews_settles: "settles 1 (snd (load_reviews st))"
  unfolding load_reviews_def reviews_failed_def One_nat_def by (intro settle_rules)

interpretation reviews_settle: settling_machine "reviews_serve ss" 2
proof (unfold_locales, goal_cases)
  case (1 ev st)
  have "settles 2 (snd (decide token i b st))" for token i b
    using load_reviews_settles unfolding decide_def reviews_failed_def numeral_2_eq_2
    by (auto intro!: settle_rules)
  moreover have "settles 2 (snd (load_reviews st))" using load_reviews_settles by (rule settles_mono) simp
  ultimately show ?case by (cases ev) (auto intro!: settles_settled split: option.splits jsv.splits)
qed

text \<open>The bounds of the single pages: three responses, two on the usage, services and reviews page, one on the audit page.\<close>

lemma page_bounds:
  "runs_from (limits_serve ss) s1 w1 \<Longrightarrow> done_within 3 w1" "runs_from (usage_serve ss) s2 w2 \<Longrightarrow> done_within 2 w2"
  "runs_from audit_serve s3 w3 \<Longrightarrow> done_within 1 w3" "runs_from (services_serve ss) s4 w4 \<Longrightarrow> done_within 2 w4"
  "runs_from (reviews_serve ss) s5 w5 \<Longrightarrow> done_within 2 w5"
  by (erule limits_settle.ends usage_settle.ends audit_settle.ends services_settle.ends reviews_settle.ends)+

section \<open>The whole console\<close>

text \<open>Signing in and out are the only actions whose errors nothing catches.\<close>

fun returns :: "nat \<Rightarrow> 's ui_act \<Rightarrow> bool" where
  "returns n (Respond u) = True"
| "returns n (Throw e) = True"
| "returns 0 (Await c k) = False"
| "returns (Suc n) (Await c k) = (\<forall>r s. returns n (snd (k r s)))"

fun catches :: "ConsoleEvent \<Rightarrow> bool" where
  "catches (Co_shell Sh_sign_in) = False"
| "catches (Co_shell Sh_sign_out) = False"
| "catches ev = True"

definition console_left :: "ConsoleEvent \<Rightarrow> nat \<Rightarrow> Console ui_act \<Rightarrow> bool" where
  "console_left ev m a \<longleftrightarrow> returns m a \<and> (catches ev \<longrightarrow> settles m a)"

lemma settles_returns: "settles n a \<Longrightarrow> returns n a"
  by (induction n a rule: settles.induct) auto

lemma settles_zoom: "settles n a \<Longrightarrow> settles n (zoom get put a)"
  by (induction n a rule: settles.induct) auto

lemma returns_zoom: "returns n a \<Longrightarrow> returns n (zoom get put a)"
  by (induction n a rule: returns.induct) auto

lemma returns_mono: "returns m a \<Longrightarrow> m \<le> n \<Longrightarrow> returns n a"
proof (induction m a arbitrary: n rule: returns.induct)
  case (4 m c k)
  then show ?case by (cases n) auto
qed auto

lemma in_pages_settle:
  "settles 3 (snd (in_limits (limits_serve ss e1) st))" "settles 3 (snd (in_services (services_serve ss e2) st))"
  "settles 3 (snd (in_usage (usage_serve ss e3) st))" "settles 3 (snd (in_audit (audit_serve e4) st))"
  "settles 3 (snd (in_reviews (reviews_serve ss e5) st))"
  unfolding in_limits_def in_services_def in_usage_def in_audit_def in_reviews_def zoomed_def snd_map_prod
  by (rule settles_zoom, rule settles_mono,
      rule limits_settle.serve_settles services_settle.serve_settles usage_settle.serve_settles audit_settle.serve_settles
        reviews_settle.serve_settles, simp)+

lemma session_serve_ends:
  "returns 3 (snd (session_serve ev ss))" "settles 3 (snd (load_session ss))"
proof -
  have "settles 1 (snd (load_session ss))" for ss unfolding load_session_def One_nat_def by (intro settle_rules)
  then show s: "settles 3 (snd (load_session ss))" for ss by (rule settles_mono) simp
  show "returns 3 (snd (session_serve ev ss))"
    using settles_returns [OF s]
    by (cases ev) (auto simp: ui_login_def ui_logout_def ask_def settled_def numeral_3_eq_3 split: sum.splits)
qed

lemma shell_ends:
  "returns 3 (snd (zoomed co_shell put_shell (shell_serve ev) st))"
  "ev \<noteq> Sh_sign_in \<Longrightarrow> ev \<noteq> Sh_sign_out \<Longrightarrow> settles 3 (snd (zoomed co_shell put_shell (shell_serve ev) st))"
proof -
  have "returns 3 (snd (zoomed sh_session put_session (session_serve e) sh))" for e sh
    unfolding zoomed_def snd_map_prod by (intro returns_zoom session_serve_ends)
  from this [of Mounted] this [of "Clicked_login (sh_devUser (co_shell st))"] this [of Clicked_logout]
  have "returns 3 (snd (shell_serve ev (co_shell st)))"
    by (cases ev) (auto simp: shell_serve_def settled_def)
  then show "returns 3 (snd (zoomed co_shell put_shell (shell_serve ev) st))"
    unfolding zoomed_def snd_map_prod by (rule returns_zoom)
  have "settles 3 (snd (zoomed sh_session put_session load_session sh))" for sh
    unfolding zoomed_def snd_map_prod by (intro settles_zoom session_serve_ends)
  then have "settles 3 (snd (shell_serve ev (co_shell st)))" if "ev \<noteq> Sh_sign_in" "ev \<noteq> Sh_sign_out"
    using that by (cases ev) (auto simp: shell_serve_def settled_def)
  then show "ev \<noteq> Sh_sign_in \<Longrightarrow> ev \<noteq> Sh_sign_out \<Longrightarrow> settles 3 (snd (zoomed co_shell put_shell (shell_serve ev) st))"
    unfolding zoomed_def snd_map_prod by (auto intro: settles_zoom)
qed

lemma console_serve_ends: "console_left ev 3 (snd (console_serve ev st))"
proof -
  have "catches ev \<Longrightarrow> settles 3 (snd (console_serve ev st))"
    by (cases ev rule: catches.cases)
       (auto simp: Let_def intro!: in_pages_settle settles_settled shell_ends(2) split: option.splits Content.splits)
  moreover have "\<not> catches ev \<Longrightarrow> returns 3 (snd (console_serve ev st))"
    by (cases ev rule: catches.cases) (auto intro: shell_ends(1))
  ultimately show ?thesis by (cases "catches ev") (auto simp: console_left_def settles_returns)
qed

interpretation console_schedule: scheduled_machine console_serve console_left 3
proof (unfold_locales, goal_cases)
  case (2 ev m c k)
  then show ?case by (cases m) (auto simp: console_left_def)
qed (rule console_serve_ends)

section \<open>Properties\<close>

text \<open>
  C18. Every action of a user comes to an end: in every run of the whole console, whatever the responses are and in which order
  they arrive, no action receives more than three of them (a save followed by a search with its hint); an action that
  has received as many is done, and one that ended in an error that nothing catches was signing in or signing out, whose
  failure the console does not show. No page asks again by itself.
\<close>

theorem actions_end:
  assumes "runs_from console_serve new_console w" "t < length (threads w)"
  shows "replies t (trace w) \<le> 3
    \<and> (case threads w ! t of
         Respond u \<Rightarrow> True
       | Throw e \<Rightarrow> Arrived t (Co_shell Sh_sign_in) \<in> set (trace w) \<or> Arrived t (Co_shell Sh_sign_out) \<in> set (trace w)
       | Await c k \<Rightarrow> replies t (trace w) < 3)"
proof -
  obtain ev where ev: "replies t (trace w) \<le> 3" "Arrived t ev \<in> set (trace w)"
      "console_left ev (3 - replies t (trace w)) (threads w ! t)"
    using console_schedule.on_schedule [OF assms(1)] assms(2) by blast
  show ?thesis
  proof (cases "threads w ! t")
    case (Throw e)
    then have "\<not> catches ev" using ev(3) by (cases "3 - replies t (trace w)") (auto simp: console_left_def)
    then show ?thesis using ev(1,2) Throw by (cases ev rule: catches.cases) auto
  next
    case (Await c k)
    then show ?thesis using ev(1,3) by (cases "3 - replies t (trace w)") (auto simp: console_left_def)
  qed (use ev(1) in simp)
qed

text \<open>The user signs in with a name the server does not know.\<close>

definition unknown_user :: "(ConsoleEvent, fetch_result) cue list" where
  "unknown_user =
     [Input (Co_shell Sh_mounted), Reply 0 (Inr \<lparr>fr_status = 401, fr_parsed = Inr JNull\<rparr>), Input (Co_shell Sh_sign_in),
      Reply 1 (Inr \<lparr>fr_status = 401, fr_parsed = Inr (JObj [(''error'', JStr ''unknown user'')])\<rparr>)]"

theorem actions_end_witness:
  "let w = fold (play console_serve) unknown_user (boot new_console)
   in runs_from console_serve new_console w \<and> threads w ! 1 = Throw (OtherError ''unknown user'') \<and> replies 1 (trace w) \<le> 3
     \<and> Arrived 1 (Co_shell Sh_sign_in) \<in> set (trace w)"
proof -
  define w where "w = fold (play console_serve) unknown_user (boot new_console)"
  have run: "runs_from console_serve new_console w" unfolding w_def by (rule reachable_script [OF reachable.init])
  have e: "case threads w ! 1 of Throw e \<Rightarrow> e = OtherError ''unknown user'' | _ \<Rightarrow> False" and n: "1 < length (threads w)"
    and t: "Arrived 1 (Co_shell Sh_sign_out) \<notin> set (trace w)"
    unfolding w_def by code_simp+
  from e have thrown: "threads w ! 1 = Throw (OtherError ''unknown user'')" by (simp split: act.splits)
  from actions_end [OF run n] thrown t run show ?thesis unfolding w_def [symmetric] Let_def by simp
qed

end
