(* ===== verification/Console_Isolation.thy ===== *)
theory Console_Isolation
  imports Console_Clicks
begin

text \<open>
  Isolation between the users of one browser: what a page shows comes from responses to requests that were sent since
  the console last showed no page. Functions of earlier pages may still be waiting then, and their responses may arrive
  at any time later; they do not reach a page mounted since.
\<close>

section \<open>A machine that is observed from some moment on\<close>

context careful_machine
begin

text \<open>Of the handlers that wait at that moment nothing is known but that they keep the invariant whatever they receive.\<close>

lemma kept_from:
  assumes "keeps (store w0)" "\<forall>a \<in> set (threads w0). careful (\<lambda>_ _. True) keeps a"
    and "(step serve (\<lambda>_ _. False))\<^sup>*\<^sup>* w0 w"
    and "\<forall>t c r. length (threads w0) \<le> t \<and> Settled t c r \<in> set (trace w) \<longrightarrow> ok c r"
  shows "keeps (store w) \<and> length (threads w0) \<le> length (threads w)
    \<and> (\<forall>t < length (threads w). careful (if t < length (threads w0) then \<lambda>_ _. True else ok) keeps (threads w ! t))"
  using assms(3,4)
proof (induction rule: rtranclp_induct)
  case base
  then show ?case using assms(1,2) by auto
next
  case (step w w')
  from step.hyps(2) have "set (trace w) \<subseteq> set (trace w')" by cases auto
  then have old: "keeps (store w)" "length (threads w0) \<le> length (threads w)"
    "\<And>t. t < length (threads w) \<Longrightarrow> careful (if t < length (threads w0) then \<lambda>_ _. True else ok) keeps (threads w ! t)"
    using step.IH step.prems by blast+
  from step.hyps(2) show ?case
  proof cases
    case (arrive q s a)
    then show ?thesis using serve_careful [OF old(1), of q] old(2,3)
      by (auto simp: nth_append less_Suc_eq_le)
  next
    case (settle t c k r s a)
    let ?ok = "if t < length (threads w0) then \<lambda>_ _. True else ok"
    have "Settled t c r \<in> set (trace w')" using settle by simp
    then have "ok c r" if "length (threads w0) \<le> t" using step.prems that by blast
    then have "?ok c r" by (simp add: not_less)
    moreover have "careful ?ok keeps (Await c k)" using old(3) [OF settle(2)] settle(3) by simp
    ultimately have "keeps s \<and> careful ?ok keeps a"
      using old(1) settle(4) unfolding careful_Await by (metis fst_conv snd_conv)
    then show ?thesis using old(2,3) settle by (auto simp: nth_list_update)
  qed simp
qed

end

section \<open>What waiting functions can touch\<close>

text \<open>The shell, and pages mounted so far.\<close>

definition touches :: "nat \<Rightarrow> Console \<Rightarrow> Console \<Rightarrow> bool" where
  "touches g s s' \<longleftrightarrow> (\<exists>sh. s' = put_shell sh s) \<or> (\<exists>i x. i \<le> g \<and> s' = put_content i x s)"

abbreviation pages_upto :: "nat \<Rightarrow> Console ui_act \<Rightarrow> bool" where
  "pages_upto g a \<equiv> conforms (\<lambda>_. True) (\<lambda>_. True) (\<lambda>_ _. touches g) a"

lemma mounts_put [simp]: "co_mounts (put_content i x st) = co_mounts st" "co_mounts st \<le> co_mounts (put_shell sh st)"
  by (auto simp: put_content_def put_shell_def reconcile_def split: option.splits Screen.splits)

lemma touches_mounts: "touches g s s' \<Longrightarrow> co_mounts s \<le> co_mounts s'"
  by (auto simp: touches_def)

lemma upto_mono: "pages_upto g a \<Longrightarrow> g \<le> g' \<Longrightarrow> pages_upto g' a"
  by (erule conforms_weaken) (auto simp: touches_def intro: le_trans)

lemma upto_zoom:
  "pages_upto g (zoom co_shell put_shell a)" "i \<le> g \<Longrightarrow> pages_upto g (zoom get (\<lambda>t. put_content i (f t)) b)"
proof -
  show "pages_upto g (zoom co_shell put_shell a)"
    by (induction a rule: act_induct) (auto simp: conforms_Await touches_def)
  show "i \<le> g \<Longrightarrow> pages_upto g (zoom get (\<lambda>t. put_content i (f t)) b)"
    by (induction b rule: act_induct) (auto simp: conforms_Await touches_def)
qed

abbreviation steady :: "Console \<Rightarrow> Console \<times> Console ui_act \<Rightarrow> bool" where
  "steady st x \<equiv> co_mounts st \<le> co_mounts (fst x) \<and> pages_upto (co_mounts (fst x)) (snd x)"

lemma steady_pages:
  "steady st (in_limits f1 st)" "steady st (in_services f2 st)" "steady st (in_usage f3 st)" "steady st (in_audit f4 st)"
  "steady st (in_reviews f5 st)" "steady st (settled st)" "steady st (zoomed co_shell put_shell f st)"
  unfolding in_limits_def in_services_def in_usage_def in_audit_def in_reviews_def zoomed_def settled_def
  by (simp_all add: upto_zoom)

lemma serve_upto: "steady st (console_serve ev st)"
proof (cases ev)
  case Co_effect
  let ?st = "st\<lparr>co_effect := False\<rparr>"
  have "co_mounts ?st = co_mounts st" by simp
  then show ?thesis
    using steady_pages [where st = st] steady_pages [where st = ?st]
    by (auto simp: Co_effect Let_def split: option.splits Content.splits)
qed (use steady_pages [where st = st] in \<open>auto split: option.splits Content.splits\<close>)

lemma threads_upto:
  "runs_from console_serve s0 w \<Longrightarrow> \<forall>a \<in> set (threads w). pages_upto (co_mounts (store w)) a"
proof (induction rule: reachable.induct)
  case (more w w')
  from more.hyps(2) show ?case
  proof cases
    case (arrive q s a)
    then show ?thesis using serve_upto [of "store w" q] more.IH by (auto intro: upto_mono)
  next
    case (settle t c k r s a)
    then have "pages_upto (co_mounts (store w)) (Await c k)" using more.IH nth_mem [OF settle(2)] by metis
    then have "touches (co_mounts (store w)) (store w) s" "pages_upto (co_mounts (store w)) a"
      using settle(4) unfolding conforms_Await by (metis fst_conv snd_conv)+
    then show ?thesis
      using settle more.IH set_update_subset_insert [of "threads w" t a] by (auto dest!: touches_mounts intro: upto_mono)
  qed simp
qed (simp add: boot_def)

section \<open>Pages mounted since\<close>

definition fresh_since :: "nat \<Rightarrow> (Content \<Rightarrow> bool) \<Rightarrow> Console \<Rightarrow> bool" where
  "fresh_since g P st \<longleftrightarrow> g \<le> co_mounts st \<and> (\<forall>x. co_content st = Some x \<longrightarrow> g < co_mounts st \<and> P x)"

definition stays :: "('c \<Rightarrow> 'r \<Rightarrow> bool) \<Rightarrow> ('s \<Rightarrow> bool) \<Rightarrow> 's \<times> ('c, 'r, 's, 'v) act \<Rightarrow> bool" where
  "stays ok keeps x \<longleftrightarrow> keeps (fst x) \<and> careful ok keeps (snd x)"

lemma careful_any: "careful ok (\<lambda>_. True) a"
  by (induction a rule: act_induct) (auto simp: careful_Await)

text \<open>
  An invariant of the pages: every page starts with it, and keeps it when its user does something and when it
  receives a response that \<open>ok\<close> allows.
\<close>

locale page_invariant =
  fixes ok :: "Fetch \<Rightarrow> fetch_result \<Rightarrow> bool" and P :: "Content \<Rightarrow> bool"
  assumes new: "P (new_content t)"
    and limits: "P (On_limits p1) \<Longrightarrow> stays ok (\<lambda>p. P (On_limits p)) (limits_serve ss e1 p1)"
    and services: "P (On_services p2) \<Longrightarrow> stays ok (\<lambda>p. P (On_services p)) (services_serve ss e2 p2)"
    and usage: "P (On_usage p3) \<Longrightarrow> stays ok (\<lambda>p. P (On_usage p)) (usage_serve ss e3 p3)"
    and audit: "P (On_audit p4) \<Longrightarrow> stays ok (\<lambda>p. P (On_audit p)) (audit_serve e4 p4)"
    and reviews: "P (On_reviews p5) \<Longrightarrow> stays ok (\<lambda>p. P (On_reviews p)) (reviews_serve ss e5 p5)"
begin

lemma new_pages_keep: "P (On_limits new_limits_page)" "P (On_services new_services_page)" "P (On_usage new_usage_page)"
  "P (On_audit new_audit_page)" "P (On_reviews new_reviews_page)"
  using new [of T_limits] new [of T_services] new [of T_usage] new [of T_audit] new [of T_reviews] by simp_all

lemma fresh_put_shell: "fresh_since g P st \<Longrightarrow> fresh_since g P (put_shell sh st)"
  by (auto simp: fresh_since_def put_shell_def reconcile_def new split: Screen.splits)

lemma fresh_put_content: "fresh_since g P st \<Longrightarrow> P x \<Longrightarrow> fresh_since g P (put_content i x st)"
  by (auto simp: fresh_since_def put_content_def split: option.splits)

lemma fresh_get_content: "fresh_since g P st \<Longrightarrow> P (get_content t i st)"
  by (auto simp: fresh_since_def get_content_def new split: option.splits)

lemma fresh_touches: "fresh_since g P st \<Longrightarrow> touches g st st' \<Longrightarrow> fresh_since g P st'"
  by (auto simp: touches_def fresh_put_shell) (auto simp: fresh_since_def put_content_def alive_def split: option.splits if_splits)

lemma upto_careful: "pages_upto g a \<Longrightarrow> careful (\<lambda>_ _. True) (fresh_since g P) a"
  by (induction a rule: act_induct) (auto simp: conforms_Await careful_Await fresh_touches)

lemma fresh_parts:
  assumes "fresh_since g P st"
  shows "P (On_limits (limits_of (get_content T_limits i st)))" "P (On_services (services_of (get_content T_services i st)))"
    "P (On_usage (usage_of (get_content T_usage i st)))" "P (On_audit (audit_of (get_content T_audit i st)))"
    "P (On_reviews (reviews_of (get_content T_reviews i st)))"
  using fresh_get_content [OF assms, of _ i]
  by (metis limits_of.simps services_of.simps usage_of.simps audit_of.simps reviews_of.simps Content.exhaust new_pages_keep)+

lemma stays_zoomed:
  assumes "\<And>st. fresh_since g P st \<Longrightarrow> Q (get st)" "\<And>st p. fresh_since g P st \<Longrightarrow> Q p \<Longrightarrow> fresh_since g P (put p st)"
    and "fresh_since g P st" "stays ok Q (f (get st))"
  shows "stays ok (fresh_since g P) (zoomed get put f st)"
proof -
  have "component get put Q (fresh_since g P)" using assms(1,2) by unfold_locales
  then show ?thesis using assms(2-4) by (auto simp: stays_def zoomed_def intro: component.careful_zoom)
qed

lemma stays_part:
  assumes "\<And>st. fresh_since g P st \<Longrightarrow> P (wrap (get st))" "\<And>p. P (wrap p) \<Longrightarrow> stays ok (\<lambda>p. P (wrap p)) (f p)"
    and "fresh_since g P st"
  shows "stays ok (fresh_since g P) (zoomed get (\<lambda>p. put_content i (wrap p)) f st)"
  by (rule stays_zoomed [where Q = "\<lambda>p. P (wrap p)"]) (use assms fresh_put_content in auto)

lemma stays_in_pages:
  assumes "fresh_since g P st"
  shows "stays ok (fresh_since g P) (in_limits (limits_serve ss e1) st)"
    "stays ok (fresh_since g P) (in_services (services_serve ss e2) st)"
    "stays ok (fresh_since g P) (in_usage (usage_serve ss e3) st)" "stays ok (fresh_since g P) (in_audit (audit_serve e4) st)"
    "stays ok (fresh_since g P) (in_reviews (reviews_serve ss e5) st)"
  unfolding in_limits_def in_services_def in_usage_def in_audit_def in_reviews_def
  by (rule stays_part; (rule assms | erule fresh_parts limits services usage audit reviews))+

lemma stays_shell: "fresh_since g P st \<Longrightarrow> stays ok (fresh_since g P) (zoomed co_shell put_shell f st)"
  by (rule stays_zoomed [where Q = "\<lambda>_. True"]) (auto simp: fresh_put_shell stays_def careful_any)

lemma console_kept: "fresh_since g P st \<Longrightarrow> stays ok (fresh_since g P) (console_serve ev st)"
proof -
  assume st: "fresh_since g P st"
  have e: "fresh_since g P (st\<lparr>co_effect := b\<rparr>)" for b using st by (simp add: fresh_since_def)
  have s: "stays ok (fresh_since g P) (settled st)" if "fresh_since g P st" for st using that by (simp add: stays_def settled_def)
  show ?thesis
    by (cases ev) (auto simp: Let_def intro!: s st e stays_in_pages stays_shell split: option.splits Content.splits)
qed

text \<open>Whatever earlier pages still wait for, a page mounted since keeps the invariant.\<close>

lemma isolated:
  assumes "runs_from console_serve s0 w0" "co_content (store w0) = None"
    and "(step console_serve (\<lambda>_ _. False))\<^sup>*\<^sup>* w0 w"
    and "\<forall>t c r. length (threads w0) \<le> t \<and> Settled t c r \<in> set (trace w) \<longrightarrow> ok c r" "co_content (store w) = Some x"
  shows "P x"
proof -
  let ?g = "co_mounts (store w0)"
  have "careful_machine console_serve (fresh_since ?g P) ok" using console_kept by unfold_locales (simp add: stays_def)
  moreover have "fresh_since ?g P (store w0)" using assms(2) by (simp add: fresh_since_def)
  moreover have "\<forall>a \<in> set (threads w0). careful (\<lambda>_ _. True) (fresh_since ?g P) a"
    using threads_upto [OF assms(1)] upto_careful by blast
  ultimately have "fresh_since ?g P (store w)" using careful_machine.kept_from assms(3,4) by blast
  then show ?thesis using assms(5) by (simp add: fresh_since_def)
qed

end

section \<open>What a page shows\<close>

definition elements :: "jsv \<Rightarrow> jsv set" where
  "elements v = (case v of JArr ls \<Rightarrow> set ls | _ \<Rightarrow> {v})"

definition present :: "jsv \<Rightarrow> jsv set" where
  "present v = (if v = JNull then {} else {v})"

text \<open>
  The data of the server on a page: the rows of its table, the effective limit, the row that is edited, the usage. A
  new limit is not from the server.
\<close>

fun content_data :: "Content \<Rightarrow> jsv set" where
  "content_data (On_limits p) = elements (lp_limits p) \<union> present (lp_effective p)
     \<union> (case lp_editing p of None \<Rightarrow> {} | Some l \<Rightarrow> if isNew l then {} else {JObj l})"
| "content_data (On_services p) = elements (sp_services p)"
| "content_data (On_usage p) = present (up_usage p)"
| "content_data (On_audit p) = elements (ap_entries p)"
| "content_data (On_reviews p) = elements (rp_reviews p)"

text \<open>The data in the bodies of some responses.\<close>

definition sources :: "jsv set \<Rightarrow> jsv set" where
  "sources V = V \<union> (\<Union>v \<in> V. \<Union>k \<in> {''limits'', ''services'', ''entries'', ''reviews''}. elements (prop_opt v k))"

definition bodies_in :: "jsv set \<Rightarrow> Fetch \<Rightarrow> fetch_result \<Rightarrow> bool" where
  "bodies_in V c r \<longleftrightarrow> (\<forall>v. req_result r = Inr v \<longrightarrow> v \<in> V)"

definition content_from :: "jsv set \<Rightarrow> Content \<Rightarrow> bool" where
  "content_from V x \<longleftrightarrow> content_data x \<subseteq> sources V"

definition rows_from :: "jsv set \<Rightarrow> jsv \<Rightarrow> bool" where
  "rows_from V rows \<longleftrightarrow> elements rows \<subseteq> sources V"

lemma sources_body: "v \<in> V \<Longrightarrow> v \<in> sources V"
  and sources_rows: "v \<in> V \<Longrightarrow> get_prop v k = Inr rows \<Longrightarrow> k \<in> {''limits'', ''services'', ''entries'', ''reviews''}
    \<Longrightarrow> rows_from V rows"
  by (auto simp: sources_def rows_from_def get_prop_Inr)

lemma rows_from_Nil [simp]: "rows_from V (JArr [])"
  by (simp add: rows_from_def elements_def)

lemma stays_settled: "keeps s \<Longrightarrow> stays ok keeps (settled s)"
  by (simp add: stays_def settled_def)

lemma stays_attempt:
  "(\<And>a. x = Inr a \<Longrightarrow> stays ok keeps (k a s)) \<Longrightarrow> (\<And>e. stays ok keeps (h e s)) \<Longrightarrow> stays ok keeps (attempt x k h s)"
  by (auto simp: attempt_def split: sum.splits)

lemma stays_ask:
  assumes "keeps s" "\<And>v s. keeps s \<Longrightarrow> v \<in> V \<Longrightarrow> stays (bodies_in V) keeps (k v s)"
    and "\<And>e s. keeps s \<Longrightarrow> stays (bodies_in V) keeps (h e s)"
  shows "stays (bodies_in V) keeps (ask token c k h s)"
proof -
  have "stays (bodies_in V) keeps (case req_result r of Inl e \<Rightarrow> h e s | Inr v \<Rightarrow> k v s)"
    if "keeps s" "bodies_in V f r" for f r s
    using that assms(2,3) by (auto simp: bodies_in_def split: sum.splits)
  then show ?thesis using assms(1,3) by (auto simp: stays_def ask_def careful_Await split: sum.splits)
qed

text \<open>The limits page.\<close>

abbreviation limits_from :: "jsv set \<Rightarrow> LimitsPage \<Rightarrow> bool" where
  "limits_from V p \<equiv> content_from V (On_limits p)"

lemma map_throw_fst: "map_throw f xs = Inr ps \<Longrightarrow> (\<And>x p. f x = Inr p \<Longrightarrow> fst p = x) \<Longrightarrow> map fst ps = xs"
  by (induction xs arbitrary: ps) (auto simp: then_do_eq_Inr)

lemma listed_rows_from: "v \<in> V \<Longrightarrow> listed_rows kind v = Inr rows \<Longrightarrow> rows_from V rows"
proof -
  assume v: "v \<in> V" and r: "listed_rows kind v = Inr rows"
  then obtain all where all: "get_prop v ''limits'' = Inr all" by (auto simp: listed_rows_def then_do_eq_Inr)
  have sub: "rows_from V all" by (rule sources_rows [OF v all]) simp
  have "elements rows \<subseteq> elements all"
  proof (cases "kind = K_overrides")
    case True
    with r all obtain ls lbs where "all = JArr ls" "rows = JArr (map fst (filter snd lbs))"
      "map_throw (\<lambda>l. then_do (get_prop l ''is_default'') (\<lambda>b. Inr (l, \<not> truthy b))) ls = Inr lbs"
      by (auto simp: listed_rows_def then_do_eq_Inr split: jsv.splits)
    moreover from this(3) have "map fst lbs = ls" by (rule map_throw_fst) (auto simp: then_do_eq_Inr)
    then have "set ls = fst ` set lbs" by (metis set_map)
    ultimately show ?thesis by (auto simp: elements_def)
  qed (use r all in \<open>simp add: listed_rows_def\<close>)
  with sub show ?thesis by (auto simp: rows_from_def)
qed

lemma limits_from_simps [simp]:
  "limits_from V (st\<lparr>lp_filters := f\<rparr>) = limits_from V st" "limits_from V (st\<lparr>lp_error := e\<rparr>) = limits_from V st"
  "limits_from V (in_editor i g st) = limits_from V st"
  "limits_from V st \<Longrightarrow> limits_from V (setEditing None st)"
  "limits_from V st \<Longrightarrow> rows_from V rows \<Longrightarrow> limits_from V (st\<lparr>lp_limits := rows\<rparr>)"
  "limits_from V st \<Longrightarrow> v = JNull \<or> v \<in> sources V \<Longrightarrow> limits_from V (st\<lparr>lp_effective := v\<rparr>)"
  "limits_from V st \<Longrightarrow> isNew l \<or> JObj l \<in> sources V \<Longrightarrow> limits_from V (setEditing (Some l) st)"
  by (auto simp: content_from_def rows_from_def present_def in_editor_def setEditing_def split: option.splits)

lemma limits_failed_from: "limits_from V st \<Longrightarrow> stays ok (limits_from V) (limits_failed e st)"
  unfolding limits_failed_def by (rule stays_settled) auto

lemma limits_search_from: "limits_from V st \<Longrightarrow> stays (bodies_in V) (limits_from V) (limits_search fl st)"
  unfolding limits_search_def Let_def
  by (auto simp: sources_body intro!: stays_ask stays_settled stays_attempt limits_failed_from limits_from_simps intro: listed_rows_from)

lemma saved_from:
  "limits_from V st \<Longrightarrow> stays (bodies_in V) (limits_from V) (saved fl st)"
  "limits_from V st \<Longrightarrow> stays ok (limits_from V) (editor_failed i e st)"
  "limits_from V st \<Longrightarrow> stays (bodies_in V) (limits_from V) (done_or_pending i fl what v st)"
  unfolding done_or_pending_def saved_def editor_failed_def
  by (auto intro!: limits_search_from stays_settled stays_attempt)

lemma editor_from: "limits_from V st \<Longrightarrow> stays (bodies_in V) (limits_from V) (editor_handle token initial e st)"
  by (cases e) (auto simp: save_def del_def set_field_def Let_def
      intro!: stays_settled stays_ask stays_attempt saved_from)

lemma limits_serve_from:
  assumes "limits_from V st" shows "stays (bodies_in V) (limits_from V) (limits_serve ss ev st)"
proof -
  have "isNew (map_set ''service_name'' v EMPTY)" for v by (simp add: isNew_def EMPTY_def own_set)
  moreover have "JObj l \<in> sources V" if row: "row_at (lp_limits st) i = Some (JObj l)" for i l
  proof -
    obtain ls where ls: "lp_limits st = JArr ls" "i < length ls" "ls ! i = JObj l"
      using row by (auto simp: row_at_def split: jsv.splits if_splits)
    then have "JObj l \<in> elements (lp_limits st)" using nth_mem [of i ls] by (simp add: elements_def)
    then show ?thesis using assms by (auto simp: content_from_def)
  qed
  ultimately show ?thesis using assms
    by (cases ev) (auto simp: limits_serve_def
        intro!: stays_settled limits_search_from editor_from split: option.splits jsv.splits)
qed

text \<open>The other pages.\<close>

lemma other_pages_from [simp]:
  "content_from V (On_services p1) = rows_from V (sp_services p1)"
  "content_from V (On_usage p2) \<longleftrightarrow> up_usage p2 = JNull \<or> up_usage p2 \<in> sources V"
  "content_from V (On_audit p3) = rows_from V (ap_entries p3)"
  "content_from V (On_reviews p4) = rows_from V (rp_reviews p4)"
  by (auto simp: content_from_def rows_from_def present_def)

lemmas from_rules = stays_settled stays_ask stays_attempt
lemmas from_simps = sources_body sources_rows clear_usage_def pending_notice_def usage_failed_def services_failed_def
  reviews_failed_def edit_service_def cancel_edit_def toggle_def

lemma load_from:
  "rows_from V (sp_services p1) \<Longrightarrow> stays (bodies_in V) (\<lambda>p. rows_from V (sp_services p)) (load_services p1)"
  "rows_from V (rp_reviews p2) \<Longrightarrow> stays (bodies_in V) (\<lambda>p. rows_from V (rp_reviews p)) (load_reviews p2)"
  unfolding load_services_def load_reviews_def by (auto simp: from_simps intro!: from_rules)

lemma services_serve_from:
  "rows_from V (sp_services p) \<Longrightarrow> stays (bodies_in V) (\<lambda>p. rows_from V (sp_services p)) (services_serve ss ev p)"
  by (cases ev) (auto simp: services_serve_def submit_def Let_def from_simps intro!: from_rules load_from split: option.splits)

lemma reviews_serve_from:
  "rows_from V (rp_reviews p) \<Longrightarrow> stays (bodies_in V) (\<lambda>p. rows_from V (rp_reviews p)) (reviews_serve ss ev p)"
  by (cases ev) (auto simp: decide_def from_simps intro!: from_rules load_from split: option.splits jsv.splits)

lemma audit_serve_from:
  "rows_from V (ap_entries p) \<Longrightarrow> stays (bodies_in V) (\<lambda>p. rows_from V (ap_entries p)) (audit_serve ev p)"
  by (cases ev) (auto simp: audit_search_def Let_def from_simps intro!: from_rules split: option.splits)

abbreviation usage_from :: "jsv set \<Rightarrow> UsagePage \<Rightarrow> bool" where
  "usage_from V p \<equiv> up_usage p = JNull \<or> up_usage p \<in> sources V"

lemma lookup_from: "usage_from V p \<Longrightarrow> stays (bodies_in V) (usage_from V) (lookup k p)"
  unfolding lookup_def by (auto simp: from_simps intro!: from_rules)

lemma usage_serve_from:
  "usage_from V p \<Longrightarrow> stays (bodies_in V) (usage_from V) (usage_serve ss ev p)"
  by (cases ev) (auto simp: usage_serve_def doRefund_def doReset_def Let_def from_simps intro!: from_rules lookup_from
      split: option.splits list.splits)

interpretation page_data: page_invariant "bodies_in V" "content_from V"
proof (unfold_locales, goal_cases)
  case (1 t)
  then show ?case
    by (cases t) (simp_all add: content_from_def new_limits_page_def new_services_page_def new_usage_page_def new_audit_page_def
        new_reviews_page_def elements_def present_def)
qed (use limits_serve_from services_serve_from usage_serve_from audit_serve_from reviews_serve_from in simp_all)

section \<open>Properties\<close>

text \<open>
  C16. Nothing of an earlier session is shown: take any moment at which the console shows no page, because nobody is
  signed in or the session is being loaded. From then on, whoever signs in and whatever is done, the data on a page (its
  rows, the effective limit, the row that is edited, the usage) is in the bodies of responses to actions started after
  that moment. Requests of an earlier user that are still under way then may be answered with anything at any
  time later, and nothing of it reaches a page.
\<close>

theorem nothing_of_an_earlier_session:
  assumes "runs_from console_serve new_console w0" "co_content (store w0) = None"
    and "(step console_serve (\<lambda>_ _. False))\<^sup>*\<^sup>* w0 w" "co_content (store w) = Some x"
  shows "content_data x
    \<subseteq> sources {v. \<exists>t c r. length (threads w0) \<le> t \<and> Settled t c r \<in> set (trace w) \<and> req_result r = Inr v}"
  using page_data.isolated [OF assms(1-3) _ assms(4),
      where V = "{v. \<exists>t c r. length (threads w0) \<le> t \<and> Settled t c r \<in> set (trace w) \<and> req_result r = Inr v}"]
  by (auto simp: content_from_def bodies_in_def)

lemma script_steps: "(step f outside)\<^sup>*\<^sup>* w (fold (play f) cs w)"
proof (induction cs arbitrary: w)
  case (Cons c cs)
  have "(step f outside)\<^sup>*\<^sup>* w (play f c w)"
  proof (cases c)
    case (Input q)
    then show ?thesis by (auto intro!: r_into_rtranclp step.arrive split: prod.split)
  next
    case (Reply t r)
    then show ?thesis by (auto intro!: r_into_rtranclp step.settle split: act.split prod.split)
  qed
  then show ?case using Cons.IH [of "play f c w"] by (simp add: rtranclp_trans)
qed simp

text \<open>
  An operator searches and signs out before the response is there. A viewer signs in and searches; the response to the
  operator's search arrives last.
\<close>

definition one_row :: "string \<Rightarrow> fetch_result" where
  "one_row c = Inr \<lparr>fr_status = 200, fr_parsed = Inr (JObj [(''limits'', JArr [JObj [(''customer_id'', JStr c)]])])\<rparr>"

definition operator_leaves :: "(ConsoleEvent, fetch_result) cue list" where
  "operator_leaves =
     [Input (Co_shell Sh_mounted), Reply 0 (signed_in ''operator''), Input (Co_limits (In_service ''s'')),
      Input (Co_limits Click_search), Input (Co_shell Sh_sign_out), Reply 3 (Inr \<lparr>fr_status = 200, fr_parsed = Inr JNull\<rparr>)]"

definition viewer_searches :: "(ConsoleEvent, fetch_result) cue list" where
  "viewer_searches =
     [Input (Co_shell Sh_sign_in), Reply 4 (signed_in ''viewer''), Input (Co_limits (In_service ''s'')),
      Input (Co_limits Click_search), Reply 6 (one_row ''mine''), Reply 2 (one_row ''theirs'')]"

theorem nothing_of_an_earlier_session_witness:
  "let w0 = fold (play console_serve) operator_leaves (boot new_console); w = fold (play console_serve) viewer_searches w0
   in length (threads w0) = 4
     \<and> map_option content_data (co_content (store w)) = Some {JObj [(''customer_id'', JStr ''mine'')]}
     \<and> JObj [(''customer_id'', JStr ''mine'')]
       \<in> sources {v. \<exists>t c r. 4 \<le> t \<and> Settled t c r \<in> set (trace w) \<and> req_result r = Inr v}"
proof -
  define w0 where "w0 = fold (play console_serve) operator_leaves (boot new_console)"
  define w where "w = fold (play console_serve) viewer_searches w0"
  have run: "runs_from console_serve new_console w0" unfolding w0_def by (rule reachable_script [OF reachable.init])
  have steps: "(step console_serve (\<lambda>_ _. False))\<^sup>*\<^sup>* w0 w" unfolding w_def by (rule script_steps)
  have none: "co_content (store w0) = None" and n: "length (threads w0) = 4" unfolding w0_def by code_simp+
  obtain p where p: "co_content (store w) = Some (On_limits p)" "lp_limits p = JArr [JObj [(''customer_id'', JStr ''mine'')]]"
    "lp_effective p = JNull" "lp_editing p = None"
  proof -
    have "case co_content (store w) of Some (On_limits p) \<Rightarrow> lp_limits p = JArr [JObj [(''customer_id'', JStr ''mine'')]]
        \<and> lp_effective p = JNull \<and> lp_editing p = None | _ \<Rightarrow> False"
      unfolding w_def w0_def by code_simp
    then show thesis using that by (auto split: option.splits Content.splits)
  qed
  then have "content_data (On_limits p) = {JObj [(''customer_id'', JStr ''mine'')]}"
    by (simp add: elements_def present_def)
  with nothing_of_an_earlier_session [OF run none steps p(1)] n p(1) show ?thesis
    unfolding w0_def [symmetric] w_def [symmetric] Let_def by (simp del: content_data.simps)
qed

end
