(* ===== verification/Startup.thy ===== *)
theory Startup
  imports Dev_Server Url Json
begin

text \<open>
  What happens before the server listens: the constructors of the clients are looked up in the loaded protocol
  (\<^verbatim>\<open>bff/src/grpc.ts\<close>), the stand-ins are started (\<^verbatim>\<open>startBackends\<close> of \<^verbatim>\<open>bff/dev/mocks.ts\<close>), the clients of the mock dev
  server are created for their addresses (\<^verbatim>\<open>bff/dev/server.ts\<close>), and the settings are read (\<^verbatim>\<open>bff/src/index.ts\<close>). The
  libraries behind it are parameters: the loader of protocol files, the resolution of paths, and the binding of a port.
\<close>

section \<open>The constructors of the clients\<close>

text \<open>What the loader returns for a file: namespaces with members, among them constructors, which are functions.\<close>

datatype grpc_object = G_undefined | G_namespace "(string \<times> grpc_object) list" | G_ctor string "(string \<times> grpc_object) list"

record Loader =
  resolve_path :: "string \<Rightarrow> string \<Rightarrow> string"
  load_file :: "string \<Rightarrow> grpc_object js"
  module_dir :: string
  PROTO_ROOT_var :: "string option"

definition PROTO_ROOT :: "Loader \<Rightarrow> string" where
  "PROTO_ROOT ld = (case PROTO_ROOT_var ld of Some p \<Rightarrow> p | None \<Rightarrow> resolve_path ld (module_dir ld) ''../../../proto'')"

definition member_of :: "grpc_object \<Rightarrow> string \<Rightarrow> grpc_object js" where
  "member_of g part =
     (let own_part = (\<lambda>ms. case map_of ms part of None \<Rightarrow> G_undefined | Some x \<Rightarrow> x) in
      case g of
        G_undefined \<Rightarrow> Inl (OtherError (''Cannot read properties of undefined (reading '' @ part @ '')''))
      | G_namespace ms \<Rightarrow> Inr (own_part ms)
      | G_ctor c ms \<Rightarrow> Inr (own_part ms))"

fun walk :: "string list \<Rightarrow> grpc_object \<Rightarrow> grpc_object js" where
  "walk [] g = Inr g"
| "walk (p # ps) g = then_do (member_of g p) (walk ps)"

definition loadCtor :: "Loader \<Rightarrow> string \<Rightarrow> string \<Rightarrow> string js" where
  "loadCtor ld protoFile servicePath =
     then_do (load_file ld (resolve_path ld (PROTO_ROOT ld) protoFile)) (\<lambda>grpcObj.
     then_do (walk (split_at (CHR ''.'') servicePath) grpcObj) (\<lambda>ctor.
       case ctor of
         G_ctor c ms \<Rightarrow> Inr c
       | _ \<Rightarrow> Inl (OtherError (''service '' @ servicePath @ '' not found in '' @ protoFile))))"

definition service_ctor :: "Loader \<Rightarrow> Backend \<Rightarrow> string js" where
  "service_ctor ld b =
     (case b of
        Quotamgmt \<Rightarrow> loadCtor ld ''quotamgmt/v1/limit_admin.proto'' ''quotamgmt.v1.LimitAdmin''
      | Quotaenforcer \<Rightarrow> loadCtor ld ''quotaenforcer/v1/rate_limiter.proto'' ''quotaenforcer.v1.RateLimiter'')"

section \<open>Starting the stand-ins\<close>

text \<open>
  A bound server is the service it offers and the port it listens at. The library is told the address, and says the port
  it bound or why it could not.
\<close>

record Harness =
  hn_mocks :: mocks
  hn_quotamgmtAddr :: string
  hn_quotaenforcerAddr :: string
  hn_servers :: "(Backend \<times> int) list"

definition address :: "int \<Rightarrow> string" where
  "address port = ''127.0.0.1:'' @ int_str port"

definition bind_port :: "(Backend \<Rightarrow> string \<Rightarrow> int js) \<Rightarrow> Backend \<Rightarrow> int \<Rightarrow> int js" where
  "bind_port bindAsync b port =
     (case bindAsync b (address port) of Inl err \<Rightarrow> Inl err | Inr boundPort \<Rightarrow> Inr boundPort)"

definition startBackends :: "(Backend \<Rightarrow> string \<Rightarrow> int js) \<Rightarrow> int option \<Rightarrow> int option \<Rightarrow> Harness js" where
  "startBackends bindAsync mgmtPort enforcerPort =
     (let or_zero = (\<lambda>p. case p of None \<Rightarrow> 0 | Some n \<Rightarrow> n) in
      then_do (bind_port bindAsync Quotamgmt (or_zero mgmtPort)) (\<lambda>m.
      then_do (bind_port bindAsync Quotaenforcer (or_zero enforcerPort)) (\<lambda>e.
        Inr \<lparr>hn_mocks = \<lparr>mgmt = new_mgmt, enforcer = new_enforcer\<rparr>, hn_quotamgmtAddr = address m,
             hn_quotaenforcerAddr = address e, hn_servers = [(Quotamgmt, m), (Quotaenforcer, e)]\<rparr>)))"

definition harness_close :: "Harness \<Rightarrow> Harness" where
  "harness_close h = h\<lparr>hn_servers := []\<rparr>"

text \<open>Who answers at an address.\<close>

definition answers_at :: "Harness \<Rightarrow> string \<Rightarrow> Backend option" where
  "answers_at h a = map_of (map (\<lambda>(b, p). (address p, b)) (hn_servers h)) a"

text \<open>\<^verbatim>\<open>FakeQuotaenforcer.get\<close>, by which a test reads a counter.\<close>

definition enforcer_get :: "FakeQuotaenforcer \<Rightarrow> limit_key \<Rightarrow> Counter option" where
  "enforcer_get e lk = map_get (counters e) (k_of lk)"

section \<open>The two programs\<close>

definition dev_clients :: "Harness \<Rightarrow> BackendEnv \<Rightarrow> Backend \<Rightarrow> Client" where
  "dev_clients h env =
     createBackends \<lparr>quotamgmtAddr = Some (hn_quotamgmtAddr h), quotaenforcerAddr = Some (hn_quotaenforcerAddr h),
                     quotamgmtToken = None\<rparr> env"

definition listen_port :: "string option \<Rightarrow> jsnum" where
  "listen_port port_var = (case port_var of None \<Rightarrow> Fin 8080 | Some t \<Rightarrow> string_to_number t)"

text \<open>
  The mock dev server: the harness with the seeded data, the clients, the settings and the state it starts with. \<open>base\<close> has
  what the platform provides.
\<close>

definition dev_main ::
  "(Backend \<Rightarrow> string \<Rightarrow> int js) \<Rightarrow> int \<Rightarrow> string option \<Rightarrow> BackendEnv \<Rightarrow> Deps \<Rightarrow> (Harness \<times> (Backend \<Rightarrow> Client) \<times> Deps \<times> bff) js" where
  "dev_main bindAsync ms auth_mode_var env base =
     then_do (startBackends bindAsync None None) (\<lambda>h.
       let h = h\<lparr>hn_mocks := seeded_mocks ms\<rparr> in
       Inr (h, dev_clients h env, makeDeps None auth_mode_var None None base, new_state (new_grants MOCK_USERS)))"

definition main :: "string option \<Rightarrow> BackendEnv \<Rightarrow> Deps \<Rightarrow> (Backend \<Rightarrow> Client) \<times> Deps \<times> bff" where
  "main auth_mode_var env base =
     (createBackends \<lparr>quotamgmtAddr = None, quotaenforcerAddr = None, quotamgmtToken = None\<rparr> env,
      makeDeps None auth_mode_var None None base, new_state (main_grants auth_mode_var))"

section \<open>What they set up\<close>

lemma address_inject: "0 \<le> i \<Longrightarrow> i < 65536 \<Longrightarrow> 0 \<le> j \<Longrightarrow> j < 65536 \<Longrightarrow> address i = address j \<longleftrightarrow> i = j"
  using int_str_inject [of i j] by (auto simp: address_def)

text \<open>The clients follow the addresses they are given, whatever the environment says.\<close>

lemma dev_clients_addr:
  "client_addr (dev_clients h env Quotamgmt) = hn_quotamgmtAddr h"
  "client_addr (dev_clients h env Quotaenforcer) = hn_quotaenforcerAddr h"
  by (simp_all add: dev_clients_def createBackends_def or_else_def)

text \<open>The lookup of a constructor: found exactly when the path leads to one.\<close>

lemma loadCtor_Inr_iff:
  "loadCtor ld f p = Inr c \<longleftrightarrow>
     (\<exists>g ms. load_file ld (resolve_path ld (PROTO_ROOT ld) f) = Inr g \<and> walk (split_at (CHR ''.'') p) g = Inr (G_ctor c ms))"
proof -
  have "(case g of G_ctor c ms \<Rightarrow> Inr c | _ \<Rightarrow> Inl e) = Inr c \<longleftrightarrow> (\<exists>ms. g = G_ctor c ms)" for g and e :: js_error
    by (cases g) auto
  then show ?thesis by (auto simp: loadCtor_def then_do_eq_Inr)
qed

section \<open>Properties\<close>


definition demo_bind :: "Backend \<Rightarrow> string \<Rightarrow> int js" where
  "demo_bind b a = Inr (case b of Quotamgmt \<Rightarrow> 50061 | Quotaenforcer \<Rightarrow> 50062)"


end
