(* ===== verification/Spec2Isabelle.thy ===== *)
theory Spec2Isabelle
  imports Console_Search Console_Progress Console_Isolation Startup
begin

text \<open>
  The repository is a regional rate limiter: a control plane (\<^verbatim>\<open>quotamgmt\<close>, Java), a data plane
  (\<^verbatim>\<open>quotaenforcer\<close>, Rust and Lua on Redis) and \<^verbatim>\<open>quotaui\<close>, the operators' console, in TypeScript. This
  development is about \<^verbatim>\<open>quotaui\<close>: the server of the console (\<^verbatim>\<open>src/quotaui/bff\<close>, called BFF there), which
  is the only client of the two backends, and the logic of the console itself
  (\<^verbatim>\<open>src/quotaui/frontend\<close>).

  \<^bold>\<open>The parts and how they interact.\<close> A request passes the middleware of \<^verbatim>\<open>app.ts\<close>: the session cookie is
  looked up, the 401 gate and the CSRF gate are applied (\<^verbatim>\<open>session.ts\<close>), and the route is chosen. The handler
  (\<^verbatim>\<open>routes/\<close>) validates the body (\<^verbatim>\<open>validation.ts\<close>), asks \<^verbatim>\<open>rbac.ts\<close> whether the user may do this, asks
  \<^verbatim>\<open>policy.ts\<close> whether a second person is needed, and then files a review (\<^verbatim>\<open>reviews.ts\<close>) or applies the change
  (\<^verbatim>\<open>operations.ts\<close>) by calling a backend (\<^verbatim>\<open>rpc.ts\<close>) with the user's address as actor, and records it
  (\<^verbatim>\<open>actionlog.ts\<close>). Approving a review applies the filed change in the name of the approver.

  \<^bold>\<open>Theories.\<close>
  \<^item> \<open>Prelude\<close>: error results, insertion-ordered maps as in JavaScript, decimal text.
    \<open>Js_Values\<close>: JavaScript values; numbers are rationals rounded to doubles, \<^verbatim>\<open>String\<close> and \<^verbatim>\<open>Number\<close> are
    defined on all of them. \<open>Js_Date\<close>: UTC dates of a time value and \<^verbatim>\<open>toISOString\<close>.
  \<^item> \<open>Rbac\<close>, \<open>Validation\<close>, \<open>Reviews\<close> (with \<^verbatim>\<open>policy.ts\<close>), \<open>Action_Log\<close>, \<open>Struct_Codec\<close>, \<open>Rpc\<close> (with \<^verbatim>\<open>types.ts\<close>),
    \<open>Session\<close>: one theory per source file of the same name, functions under their names. The grant store is
    a heap of user objects, since sessions share them with the store.
  \<^item> \<open>Async\<close>: a handler is a resumption, which responds, throws, or awaits the reply to a call; a server runs
    any number of them over one state. \<open>step\<close> is the arrival of a request, the reply to a pending call, or
    a change from outside; \<open>reachable\<close> closes it under sequences. The locales \<open>licensed_server\<close> and
    \<open>bookkeeping_server\<close> state the contract between handlers and server (every call licensed when
    it is made, every stretch after a reply within a guarantee, the books equal to the settled calls) and what
    follows for all runs by rule induction.
  \<^item> \<open>Http\<close> (\<^verbatim>\<open>deps.ts\<close>, \<^verbatim>\<open>routes/util.ts\<close>, the await of \<^verbatim>\<open>rpc.ts\<close>), \<open>Auth\<close> (the rest of \<^verbatim>\<open>session.ts\<close>), \<open>Operations\<close>,
    \<open>Routes\<close> (\<^verbatim>\<open>routes/\<close>), \<open>App\<close> (\<^verbatim>\<open>app.ts\<close>): the state \<open>bff\<close> is the record of the stores, \<open>serve\<close> is the
    application. Random draws and readings of the clock are counted and looked up in \<open>Deps\<close>, so that
    every definition computes.
  \<^item> \<open>Conformance\<close>, \<open>Guarded\<close>, \<open>Server\<close>: that every handler meets the contract, route by route, and the
    interpretation of the two locales on \<open>serve\<close>. \<open>Gates\<close>, \<open>Liveness\<close>: the gates, safe methods, login
    and logout; that every handler ends.
  \<^item> \<open>Mock_Backends\<close>, \<open>Dev_Server\<close> (\<^verbatim>\<open>bff/dev\<close>, \<^verbatim>\<open>index.ts\<close>), \<open>End_To_End\<close>: the stand-ins for the backends, which refine
    an abstract registry and a usage window (two more locales), the seeds, and requests run through both
    sides.
  \<^item> The console. \<open>Json\<close>: \<^verbatim>\<open>JSON.stringify\<close>, and that the text determines the value. \<open>Diff\<close> (\<^verbatim>\<open>util/diff.ts\<close>,
    the table of \<^verbatim>\<open>components.tsx\<close>), \<open>Console_Util\<close> (\<^verbatim>\<open>util/rbac.ts\<close>, \<^verbatim>\<open>util/windowId.ts\<close>), \<open>Url\<close> and \<open>Console_Api\<close>
    (\<^verbatim>\<open>api.ts\<close>: the query strings, the requests, what becomes of a response), \<open>Console_Session\<close> (\<^verbatim>\<open>session.tsx\<close>, the
    shell of \<^verbatim>\<open>App.tsx\<close>), \<open>Console_Limits\<close> and \<open>Console_Pages\<close> (\<^verbatim>\<open>pages/\<close>). A page is a record of its React
    states; a function that awaits is a resumption of \<open>Async\<close> over that record, so two of them interleave as
    they do in the browser, and what a closure captured is an argument of it. The session provider
    interprets \<open>licensed_server\<close> as well. \<open>Console_Events\<close>: the controls of each page, when they are rendered and
    enabled, and what they do, so that a page is a machine driven by its user and the responses; \<open>Console_Contract\<close>:
    the locale of what a page may send, one interpretation per page, and the editing of a row; \<open>Console_Shell\<close>: the
    shell as such a machine over the provider's session. \<open>Console_Server\<close> joins the two sides: each request
    of \<^verbatim>\<open>api.ts\<close> reaches the route it is meant for, what the editor sends for a valid limit is accepted, and the mirror of the role checks is
    compared with the server's decision.
  \<^item> The types between the two sides. \<open>Wire\<close>: the object each handler gives to \<^verbatim>\<open>res.json\<close>, and what the browser
    reads of it. \<open>Ts_Types\<close>: the types \<^verbatim>\<open>frontend/src/types.ts\<close> and \<^verbatim>\<open>api.ts\<close> declare, as values with a predicate.
    \<open>Typed_Routes\<close> and \<open>Typed_Server\<close>: every response has the type its client declares, as long as the replies
    of the backends have the shape of their protocol (\<open>proper_reply\<close>). \<open>Console_Typed\<close>: the locale
    \<open>careful_machine\<close>, of what keeps its invariant on responses of the declared types, and its interpretation on the
    five pages; \<open>Console_Display\<close>: what is computed while a page is drawn.
  \<^item> The screen. \<open>Markup\<close>: trees of elements as React makes them from JSX, where rendering may throw, and the events a
    user can cause on them. \<open>Page_Views\<close>: the tree of every page and of the pieces of \<^verbatim>\<open>components.tsx\<close>, element by element;
    \<open>Page_Controls\<close>: that the controls of a page produce exactly the events its machine accepts; \<open>Screen_Text\<close>: what the
    cells of a table say; \<open>Console_View\<close>: the tree of \<^verbatim>\<open>App.tsx\<close> and its controls.
  \<^item> The whole console. \<open>Console_App\<close>: the shell with the page that is mounted; a login or a change of the tab mounts
    a new one, and a function of a page that was left runs on without effect (locale \<open>component\<close>).
    \<open>Console_Clicks\<close>: which requests it sends and when; \<open>Console_Progress\<close>: that every action ends;
    \<open>Console_Isolation\<close>: that nothing of an earlier session reaches a page (locale \<open>page_invariant\<close>). \<open>Full_Stack\<close>: the
    whole console in front of the whole server; \<open>Console_Search\<close>: a search from the click to the text in the table.
  \<^item> \<open>Backends\<close>: the addresses and the credential of \<^verbatim>\<open>bff/src/grpc.ts\<close>. \<open>Startup\<close>: the constructors of the clients, the start of
    the stand-ins, and the two programs \<^verbatim>\<open>index.ts\<close> and \<^verbatim>\<open>dev/server.ts\<close> up to the moment they listen.

  \<^bold>\<open>What is shown.\<close> Here: the two-person rule, that every change is authorised and recorded, the
  invariant of the server and the finality of reviews hold in every run, for all requests, all replies
  (errors included), all interleavings and all changes of grants; the gates; that every request is answered;
  what an approved reset and a creation do to the backends. For the console: that its token is the session's,
  that each page sends only what it is meant for, in all runs, that a change is only sent at a click, that the
  controls of a row are offered exactly when the server allows what they do, that every action of a user ends, and that
  a search shows the registry, down to the text of the cells, and that a page shows nothing of an earlier session. For
  both together: every response has its declared type, so that the console never throws while it is rendered, and
  the controls on the screen are exactly what its machine accepts. In the theories of the components: that the decision function is the permission matrix, what each validator accepts, the laws of the stores, the round
  trips of the codec and the exactness of the numbers, and how far the console agrees with the server.

  \<^bold>\<open>Bounds.\<close> A handler awaits at most three replies (\<open>bounded 3\<close>, proved for every route), so \<open>drive\<close>, which runs a
  handler against the stand-ins, is given fuel three, which always suffices. An action of a page receives at most
  three responses (\<open>settles 3\<close>), a search two, the fuel of \<open>browse\<close>. Identifiers drawn at
  random are taken to be distinct (\<open>distinct_draws\<close>), which 96 and 192 random bits make all but certain and
  the code relies on; the scenario in \<open>Dev_Server\<close> shows an environment that has it.

  \<^bold>\<open>Not modelled.\<close> The Java and Rust services, their protocol files and the deployment (other languages
  and processes: their replies are arbitrary here). Of the server: the internals of Express, the cookie
  parser and the JSON parser (a request is given as they deliver it, and \<open>Platform\<close> says what Express
  adds), the gRPC library, the loader of protocol files and the binding of ports (parameters of \<open>Startup\<close>), the range of
  characters allowed in metadata, \<^verbatim>\<open>Date.parse\<close> (a parameter), listening. Text is made of characters below 256.
  Of the console: style sheets, the mounting in \<^verbatim>\<open>main.tsx\<close>, the keys by which React tells the elements of a list apart, \<^verbatim>\<open>fetch\<close> and
  \<^verbatim>\<open>JSON.parse\<close> (a response is its status and the value its text parses to, or a rejection), URLs beyond their path
  segments and query. The parser of query strings is a parameter (\<open>reads_queries\<close>), as are the replies of the
  backends (\<open>proper_reply\<close>: numbers where the protocol has them, a unit for each limit). The part of a
  function after an await is one step, its \<^verbatim>\<open>catch\<close> and \<^verbatim>\<open>finally\<close> included.
\<close>

section \<open>Two persons for a dangerous change\<close>

text \<open>The changes the default policy holds to be dangerous.\<close>

fun needs_second_person :: "rpc_request \<Rightarrow> bool" where
  "needs_second_person (UpdateLimit k _ _ _) \<longleftrightarrow> customer_id k = ''*''"
| "needs_second_person (DeleteLimit k _) \<longleftrightarrow> customer_id k = ''*''"
| "needs_second_person (Refund _ a _) \<longleftrightarrow> num_less (Fin 100000) a"
| "needs_second_person _ \<longleftrightarrow> False"

lemma dangerous_needs_review:
  assumes "reviewPolicy d = DEFAULT_REVIEW_POLICY" "needs_second_person q"
  shows "mutating q \<and> \<not> unreviewed d q"
proof -
  have "reviewReason op (reviewPolicy d) \<noteq> None" if "carries_out op q" for op
    unfolding assms(1) default_policy_reason_iff
    using that assms(2) by (cases op; cases q) auto
  with assms(2) show ?thesis by (cases q) (auto simp: unreviewed_def)
qed

text \<open>
  C1. The two-person rule: whatever requests arrive, however the replies interleave and whatever they
  are, while grants change under way, every call sent to a backend that updates or deletes a default, or
  refunds more than one hundred thousand, carries out an approved review, in the name of the approver,
  who is not the one who asked for it.
\<close>

theorem two_person_rule:
  assumes "distinct_draws d" "reviewPolicy d = DEFAULT_REVIEW_POLICY"
    and "running pl d (new_grants seed) w" "Issued t c \<in> set (trace w)" "needs_second_person (request c)"
  shows "\<exists>i r who. map_get (reviews (store w)) i = Some r \<and> status r = Approved \<and> decidedBy r = Some who
    \<and> initiator r \<noteq> who \<and> actor_of c = Some who \<and> carries_out (rop r) (request c)"
proof -
  have "reviewed_change (reviews (store w)) who (request c)" if "actor_of c = Some who" for who
    using running_warrant [OF assms(1,3,4)] dangerous_needs_review [OF assms(2,5)] that
    by (auto simp: warrant_def)
  moreover obtain who where "actor_of c = Some who"
    using running_warrant [OF assms(1,3,4)] dangerous_needs_review [OF assms(2,5)] by (auto simp: warrant_def)
  ultimately obtain i r where r: "map_get (reviews (store w)) i = Some r" "status r = Approved"
      "decidedBy r = Some who" "carries_out (rop r) (request c)" "actor_of c = Some who"
    by (auto simp: reviewed_change_def)
  have "store_ok (reviews (store w))" using running_ok [OF assms(1,3)] by (simp add: bff_ok_def)
  then have "review_ok r" using r(1) unfolding store_ok_def by blast
  then have "initiator r \<noteq> who" using r(3) by (auto simp: review_ok_def)
  with r show ?thesis by blast
qed

theorem two_person_rule_witness:
  "\<exists>w t. running demo_platform demo_deps (new_grants MOCK_USERS) w \<and> Issued t demo_update \<in> set (trace w)
     \<and> (\<exists>i r who. map_get (reviews (store w)) i = Some r \<and> status r = Approved \<and> decidedBy r = Some who
        \<and> initiator r \<noteq> who \<and> actor_of demo_update = Some who \<and> carries_out (rop r) (request demo_update))"
proof -
  obtain w t where w: "running demo_platform demo_deps (new_grants MOCK_USERS) w"
      "Issued t demo_update \<in> set (trace w)"
    by (rule demo_run)
  have "reviewPolicy demo_deps = DEFAULT_REVIEW_POLICY" "needs_second_person (request demo_update)"
    by (simp_all add: demo_deps_def demo_update_def demo_key_def mkkey_def)
  from two_person_rule [OF distinct_draws_demo this(1) w this(2)] w show ?thesis by blast
qed

section \<open>Who may do what, and what is recorded\<close>

text \<open>
  C2. Under any review policy, every call that changes something in a backend carries the address of
  a user the server knows, and either needs no review or is asked for by a review that this very user
  approved.
\<close>

theorem every_change_warranted:
  assumes "distinct_draws d" "running pl d (new_grants seed) w"
    and "Issued t c \<in> set (trace w)" "mutating (request c)"
  shows "\<exists>who \<in> emails (store w). actor_of c = Some who
    \<and> (unreviewed d (request c) \<or> reviewed_change (reviews (store w)) who (request c))"
  using running_warrant [OF assms(1-3)] assms(4) by (simp add: warrant_def)

theorem every_change_warranted_witness:
  "\<exists>w t. running demo_platform demo_deps (new_grants MOCK_USERS) w \<and> Issued t demo_update \<in> set (trace w)
     \<and> (\<exists>who \<in> emails (store w). actor_of demo_update = Some who
     \<and> (unreviewed demo_deps (request demo_update)
          \<or> reviewed_change (reviews (store w)) who (request demo_update)))"
proof -
  obtain w t where w: "running demo_platform demo_deps (new_grants MOCK_USERS) w"
      "Issued t demo_update \<in> set (trace w)"
    by (rule demo_run)
  have "mutating (request demo_update)" by (simp add: demo_update_def)
  from every_change_warranted [OF distinct_draws_demo w this] w show ?thesis by blast
qed

text \<open>
  C3. What one request can do: without a session it calls no backend at all; with one, whatever the
  replies, every call it makes is a read, or is made in the name of the session's user, who was
  authorised for it when the request arrived and for which no review is required, or is asked for by
  a review this user approved. After its first stretch it leaves users, sessions and reviews alone and
  writes to the log only what a reply reports as applied.
\<close>

theorem request_stays_within_grants:
  "case attachSession req s of
     None \<Rightarrow> final (snd (serve pl d req s))
   | Some sess \<Rightarrow>
       conforms (permitted d (reviews (fst (serve pl d req s))) (session_user s sess))
         (keeps_email sess (email (session_user s sess))) guarantee (snd (serve pl d req s))"
  by (rule serve_cases [of req s d pl]) (auto simp: decent_def split: option.splits)

text \<open>
  C4. The action log is the record of what was applied: leaving out the resets that had nothing to refund,
  its entries are, one for one and in order, the calls that changed something and that a backend
  accepted, each with the actor, the target and the values of the call.
\<close>

theorem log_records_applied_changes:
  assumes "distinct_draws d" "running pl d (new_grants seed) w"
  shows "list_all2 records (filter (\<lambda>e. \<not> idle_reset e) (entries (action_log (store w))))
    (applied (settlements (trace w)))"
  using assms by (rule running_log)

theorem log_records_applied_changes_witness:
  "\<exists>w. running demo_platform demo_deps (new_grants MOCK_USERS) w
     \<and> list_all2 records (filter (\<lambda>e. \<not> idle_reset e) (entries (action_log (store w)))) (applied (settlements (trace w)))"
proof -
  obtain w where w: "running demo_platform demo_deps (new_grants MOCK_USERS) w" by (rule demo_run)
  from log_records_applied_changes [OF distinct_draws_demo w] w show ?thesis by blast
qed

text \<open>
  C7. The state of the server is well formed at every moment of every run: users and sessions refer to
  each other properly, every review is either open or decided by somebody other than its
  initiator, and the action log is numbered without gaps.
\<close>

theorem server_invariant:
  assumes "distinct_draws d" "running pl d (new_grants seed) w"
  shows "grants_ok (gstore (store w)) \<and> sessions_ok (length (heap (gstore (store w)))) (sessions (store w))
    \<and> store_ok (reviews (store w)) \<and> log_ok (action_log (store w))"
  using running_ok [OF assms] by (simp add: bff_ok_def)

theorem server_invariant_witness:
  "\<exists>w. running demo_platform demo_deps (new_grants MOCK_USERS) w \<and> store_ok (reviews (store w))
     \<and> reviews (store w) \<noteq> []"
proof -
  obtain w where w: "running demo_platform demo_deps (new_grants MOCK_USERS) w" "store w = demo_state4"
    by (rule demo_run)
  from server_invariant [OF distinct_draws_demo w(1)] w show ?thesis by (auto simp: demo_states)
qed

section \<open>Reviews over the life of the server\<close>

lemma stable_refl: "stable s s"
  by (simp add: stable_def)

lemma stable_trans: "stable s t \<Longrightarrow> stable t u \<Longrightarrow> stable s u"
  by (simp add: stable_def)

text \<open>
  C9. A review that has been decided never changes again, whatever the server does afterwards.
\<close>

theorem settled_reviews_persist:
  assumes "distinct_draws d" "running pl d (new_grants seed) w"
    and "(step (serve pl d) administer)\<^sup>*\<^sup>* w w'"
    and "map_get (reviews (store w)) i = Some r" "status r \<noteq> Pending"
  shows "map_get (reviews (store w')) i = Some r"
proof -
  have "stable (store w) (store w')"
    by (rule bff.run_relates [OF bff_ok_init [OF assms(1)] assms(2,3)])
       (use serve_stable guarantee_stable administer_stable stable_refl stable_trans in \<open>metis fst_conv\<close>)+
  with assms(4,5) show ?thesis by (simp add: stable_def)
qed

theorem settled_reviews_persist_witness:
  "\<exists>w. map_get (reviews (store w)) ''d4'' = Some demo_approved \<and> status demo_approved = Approved
     \<and> (\<forall>w'. (step (serve demo_platform demo_deps) administer)\<^sup>*\<^sup>* w w' \<longrightarrow>
          map_get (reviews (store w')) ''d4'' = Some demo_approved)"
proof -
  obtain w where w: "running demo_platform demo_deps (new_grants MOCK_USERS) w" "store w = demo_state4"
    by (rule demo_run)
  have r: "map_get (reviews (store w)) ''d4'' = Some demo_approved" "status demo_approved = Approved"
    by (simp_all add: w(2) demo_states demo_approved_def)
  then have "status demo_approved \<noteq> Pending" by simp
  from settled_reviews_persist [OF distinct_draws_demo w(1) _ r(1) this] r show ?thesis by blast
qed

text \<open>
  C20. Approving or rejecting a review that has been decided is answered with a conflict and has no
  effect; so a review is carried out at most once.
\<close>

theorem decided_review_conflicts:
  assumes "authorize (session_user s sess) Review_approve None (policy d) = Authz_ok"
    and "map_get (reviews s) i = Some r" "status r \<noteq> Pending"
  shows "post_approve i d req b sess s
      = (s, Respond (reply 409 (P_error (''review already '' @ status_name (status r)))))
    \<and> post_reject i d req b sess s
      = (s, Respond (reply 409 (P_error (''review already '' @ status_name (status r)))))"
  using assms
  by (simp add: post_approve_def post_reject_def guard_def reviews_decide_def review_decide_def iso_now_def
      date_now_def respond_def)

theorem decided_review_conflicts_witness:
  "post_approve ''d4'' demo_deps demo_approve (JObj []) (demo_session 1 ''d2'' ''d3'') demo_state4
     = (demo_state4, Respond (reply 409 (P_error ''review already approved'')))"
proof -
  have "authorize (session_user demo_state4 (demo_session 1 ''d2'' ''d3'')) Review_approve None (policy demo_deps) = Authz_ok"
    by (simp add: demo_eval session_user_def user_at_def mock_users)
  moreover have "map_get (reviews demo_state4) ''d4'' = Some demo_approved" "status demo_approved \<noteq> Pending"
    by (simp_all add: demo_states demo_approved_def)
  ultimately show ?thesis
    using decided_review_conflicts [of demo_state4 _ demo_deps "''d4''" demo_approved demo_approve "JObj []"]
    by (simp add: demo_approved_def)
qed

text \<open>
  C19. Nobody decides a review they filed themselves: approving or rejecting it is refused, and the
  review stays open.
\<close>

theorem own_review_refused:
  assumes "authorize (session_user s sess) Review_approve None (policy d) = Authz_ok"
    and "map_get (reviews s) i = Some r" "status r = Pending" "initiator r = email (session_user s sess)"
  shows "post_approve i d req b sess s
      = (s, Respond (reply 403 (P_error ''the initiator may not approve their own change'')))
    \<and> post_reject i d req b sess s
      = (s, Respond (reply 403 (P_error ''the initiator may not approve their own change'')))"
  using assms
  by (simp add: post_approve_def post_reject_def guard_def reviews_decide_def review_decide_def iso_now_def
      date_now_def respond_def)

theorem own_review_refused_witness:
  "post_approve ''d4'' demo_deps demo_approve (JObj []) (demo_session 0 ''d0'' ''d1'') demo_state3
     = (demo_state3, Respond (reply 403 (P_error ''the initiator may not approve their own change'')))"
proof -
  let ?sess = "demo_session 0 ''d0'' ''d1''"
  have "authorize (session_user demo_state3 ?sess) Review_approve None (policy demo_deps) = Authz_ok"
    "initiator demo_review = email (session_user demo_state3 ?sess)"
    by (simp_all add: demo_eval session_user_def user_at_def mock_users demo_review_def)
       (simp add: MOCK_USERS_def user_def authorize_def rbac_simps)
  moreover have "map_get (reviews demo_state3) ''d4'' = Some demo_review" "status demo_review = Pending"
    by (simp_all add: demo_states demo_review_def)
  ultimately show ?thesis
    using own_review_refused [of demo_state3 ?sess demo_deps "''d4''" demo_review] by blast
qed



section \<open>The gates\<close>



text \<open>
  C21. Safe methods are safe: a \<^verbatim>\<open>GET\<close> or \<^verbatim>\<open>HEAD\<close> request to any path, whatever the replies, changes nothing on
  the server but the count of clock readings, and calls no method of a backend that changes anything.
\<close>

theorem safe_methods_only_read:
  assumes "meth req = GET \<or> meth req = HEAD"
  shows "(\<exists>t. fst (serve pl d req s) = s\<lparr>ticks := t\<rparr>)
    \<and> conforms (\<lambda>c. \<not> mutating (request c)) (\<lambda>_. True) (\<lambda>c r s s'. s' = s) (snd (serve pl d req s))"
  using get_reads_only [of req s pl d] assms by (simp add: reads_only_def gets_def)

theorem safe_methods_only_read_witness:
  "\<exists>t. fst (serve demo_platform demo_deps (demo_change\<lparr>meth := GET\<rparr>) demo_state2) = demo_state2\<lparr>ticks := t\<rparr>"
  using safe_methods_only_read [of "demo_change\<lparr>meth := GET\<rparr>" demo_platform demo_deps demo_state2] by simp

text \<open>
  C35. While the OIDC login is not implemented, the mode that selects it lets nobody in: no session ever
  exists, no request is left waiting, and no backend is ever called.
\<close>

theorem oidc_mode_is_closed:
  assumes "authMode d = Oidc" "running pl d (new_grants seed) w"
  shows "sessions (store w) = [] \<and> (\<forall>a \<in> set (threads w). outcome a \<noteq> None)
    \<and> (\<forall>t c. Issued t c \<notin> set (trace w))"
  using oidc_closed [OF assms] by (simp add: final_outcome)

theorem oidc_mode_is_closed_witness:
  "\<exists>w. running demo_platform (demo_deps\<lparr>authMode := Oidc\<rparr>) (new_grants MOCK_USERS) w
     \<and> threads w \<noteq> [] \<and> sessions (store w) = []"
proof -
  let ?d = "demo_deps\<lparr>authMode := Oidc\<rparr>"
  let ?w0 = "boot (new_state (new_grants MOCK_USERS)) :: (Request, rpc_call, rpc_reply, bff, Response) server"
  obtain s a where sa: "serve demo_platform ?d (demo_login ''alice'') (store ?w0) = (s, a)" by force
  obtain w where "running demo_platform ?d (new_grants MOCK_USERS) w" "threads w \<noteq> []"
    using that [OF reachable.more [OF reachable.init step.arrive [where serve = "serve demo_platform ?d"
      and q = "demo_login ''alice''" and w = ?w0, OF sa]]] by simp
  with oidc_mode_is_closed [of ?d _ _ w] show ?thesis by auto
qed

text \<open>
  C34. The life of a session: a dev login of a known user is answered with a cookie that, sent with a
  later request, finds the session of this user again; a logout with the cookie ends it, and ends no other.
\<close>

theorem session_life_cycle:
  assumes "authMode d = Dev" "prop_opt b ''user'' = JStr i" "grants_get i (gstore s) = Some u"
    and "\<And>n. hex d 24 n \<noteq> []"
  shows "\<exists>sess s'. devLogin d b s = (s', Respond \<lparr>code = 200, payload = P_session (sessionPayload s' sess),
        cookie_changes = [setSessionCookie d sess]\<rparr>)
    \<and> suser sess = u \<and> csrfToken sess \<noteq> []
    \<and> (\<forall>req. own (cookies req) SESSION_COOKIE = JStr (session_id sess) \<longrightarrow>
         attachSession req s' = Some sess \<and> attachSession req (fst (logout req s')) = None)
    \<and> (\<forall>req req'. own (cookies req) SESSION_COOKIE \<noteq> own (cookies req') SESSION_COOKIE \<longrightarrow>
         attachSession req' (fst (logout req s')) = attachSession req' s')"
proof -
  obtain sess s' where c: "sessions_create d u s = (sess, s')" by force
  note session = login_then_attach [OF c assms(4)]
  have tok: "suser sess = u" "csrfToken sess \<noteq> []"
    using session(2,3) [of "demo_login []\<lparr>cookies := [(SESSION_COOKIE, JStr (session_id sess))]\<rparr>"] by simp_all
  show ?thesis
    using devLogin_known [OF assms(1-3)] c tok session(1) logout_ends_session logout_keeps_others
    by (intro exI [of _ sess] exI [of _ s']) auto
qed

theorem session_life_cycle_witness:
  "\<exists>sess s'. suser sess = 0 \<and> attachSession (demo_request GET [] (JObj []) (session_id sess) []) s' = Some sess"
proof -
  have "authMode demo_deps = Dev" "prop_opt (JObj [(''user'', JStr ''alice'')]) ''user'' = JStr ''alice''"
      "grants_get ''alice'' (gstore demo_state0) = Some 0"
    by (simp_all add: demo_eval grants_get_def)
  moreover have "hex demo_deps 24 n \<noteq> []" for n by (simp add: demo_deps_def)
  ultimately obtain sess s' where "suser sess = 0"
      "\<And>req. own (cookies req) SESSION_COOKIE = JStr (session_id sess) \<Longrightarrow> attachSession req s' = Some sess"
    using session_life_cycle [of demo_deps _ "''alice''" demo_state0 0] by blast
  then show ?thesis by (intro exI [of _ sess] exI [of _ s']) (simp add: demo_request_def)
qed

text \<open>
  C8. Every request is answered: whatever it is and whatever three replies the backends give, in whatever
  states they find the server, a response has been produced after them; and against the stand-ins three
  exchanges are always enough.
\<close>

theorem every_request_answered:
  "(\<exists>r. outcome (feed [x, y, z] (snd (serve pl d req s))) = Some r)
   \<and> (\<exists>r s' m'. drive 3 ms (serve pl d req s) m = Some (r, s', m'))"
proof -
  have "outcome (feed [x, y, z] (snd (serve pl d req s))) \<noteq> None"
    using feed_bounded [OF serve_bounded, of "[x, y, z]"] by (simp add: final_outcome)
  moreover have "\<exists>y. drive 3 ms (serve pl d req s) m = Some y" by (rule drive_total [OF serve_bounded])
  ultimately show ?thesis by auto
qed

section \<open>Across both sides: the server against the stand-ins\<close>

text \<open>
  C10. An approved reset resets: when a second operator approves a pending window reset, the response
  carries a usage of zero and the full limit as what remains, the counter of the key is zero, the counters of
  other keys are as before, and the log holds one more entry, by the approver, with what was refunded.
\<close>

theorem approved_reset_takes_effect:
  assumes "authorize (session_user s sess) Review_approve None (policy d) = Authz_ok"
    and "map_get (reviews s) i = Some r" "status r = Pending" "rop r = PReset lk"
    and "initiator r \<noteq> email (session_user s sess)"
    and "no_bar lk" "mock_used (enforcer m) lk = num_of_int n" "0 \<le> n"
    and "cn_limit (counter_at (enforcer m) lk) = num_of_int l" "cn_configured (counter_at (enforcer m) lk)"
    and "\<bar>l\<bar> \<le> 2 ^ 53" "0 \<le> ms" "ms \<le> MAX_TIME"
  shows "\<exists>r' u s' m'. drive 3 ms (post_approve i d req b sess s) m
      = Some (reply 200 (P_approved r' (Res_usage u)), s', m')
    \<and> uv_consumed u = Fin 0 \<and> uv_remaining u = num_of_int l \<and> uv_limit u = Some (num_of_int l)
    \<and> mock_used (enforcer m') lk = Fin 0
    \<and> (\<forall>j. no_bar j \<and> j \<noteq> lk \<longrightarrow> mock_used (enforcer m') j = mock_used (enforcer m) j)
    \<and> (\<exists>e. log_entries s' = log_entries s @ [e] \<and> action e = ''op:reset''
         \<and> actor e = email (session_user s sess) \<and> target e = Target_key lk
         \<and> details e = Some (Detail_refunded (num_of_int n)))"
proof -
  let ?who = "email (session_user s sess)"
  let ?ctx = "\<lparr>ctx_actor = ?who, ctx_initiator = Some (initiator r), ctx_approver = Some ?who\<rparr>"
  obtain r' s1 where d: "reviews_decide d i ?who Approve s = (Inr r', s1)" "initiator r' = initiator r"
      "rop r' = PReset lk" "log_entries s1 = log_entries s"
    using assms(2-5)
    by (simp add: reviews_decide_def review_decide_def iso_now_def date_now_def Let_def)
  have run: "post_approve i d req b sess s
      = resetWindow d ?ctx lk (\<lambda>u. respond 200 (P_approved r' (Res_usage u))) s1"
    using assms(1) d(1-3) by (simp add: post_approve_def guard_def Let_def)
  from resets_to_zero [OF assms(6-13), of d ?ctx 200 "\<lambda>u. P_approved r' (Res_usage u)" s1]
  show ?thesis unfolding run d(4) OpContext.simps by blast
qed

theorem approved_reset_takes_effect_witness:
  "\<exists>r' u s' m'. drive 3 0 (post_approve ''d4'' demo_deps demo_approve (JObj []) (demo_session 1 ''d2'' ''d3'')
        (demo_state3\<lparr>reviews := [(''d4'', demo_review\<lparr>rop := PReset (mkkey ''search-svc'' ''cust_99'' ''export'')\<rparr>)]\<rparr>))
        (seeded_mocks 0) = Some (reply 200 (P_approved r' (Res_usage u)), s', m')
    \<and> uv_consumed u = Fin 0 \<and> uv_remaining u = Fin 10"
proof -
  let ?lk = "mkkey ''search-svc'' ''cust_99'' ''export''"
  let ?r = "demo_review\<lparr>rop := PReset ?lk\<rparr>"
  let ?s = "demo_state3\<lparr>reviews := [(''d4'', ?r)]\<rparr>"
  let ?sess = "demo_session 1 ''d2'' ''d3''"
  have e: "email (session_user ?s ?sess) = ''carol@anthropic.com''"
    "authorize (session_user ?s ?sess) Review_approve None (policy demo_deps) = Authz_ok"
    by (simp_all add: demo_eval session_user_def user_at_def mock_users)
  have r: "map_get (reviews ?s) ''d4'' = Some ?r" "status ?r = Pending" "rop ?r = PReset ?lk"
      "initiator ?r \<noteq> email (session_user ?s ?sess)"
    unfolding e(1) by (simp_all add: demo_review_def)
  have b: "no_bar ?lk" by (simp add: no_bar_def mkkey_def)
  have c: "mock_used (enforcer (seeded_mocks 0)) ?lk = num_of_int 3"
      "cn_limit (counter_at (enforcer (seeded_mocks 0)) ?lk) = num_of_int 10"
      "cn_configured (counter_at (enforcer (seeded_mocks 0)) ?lk)"
    by (simp_all add: seeded_mocks_def mock_used_def counter_at_def seed_counter_def k_of_def mkkey_def new_enforcer_def)
  show ?thesis
    using approved_reset_takes_effect [OF e(2) r b c(1) _ c(2,3), of 0 demo_approve "JObj []"]
    by (auto simp: MAX_TIME_def)
qed



text \<open>
  C12. From the click to the registry and back: when a user who is authorised for the service clicks Create in the
  editor of the console, on a complete form for a key that has no limit, the request that is sent reaches the
  route of the server, the registry then holds exactly this limit beside the others, with an audit record in
  the name of the user, and the response closes the editor; when the key has a limit already, nothing is changed and
  the editor stays open and shows why.
\<close>

theorem click_creates_limit:
  assumes "lp_editing st = Some initial" "isNew initial" "ed_form (lp_editor st) = limit_form JNull lk n u dflt"
    and "service_name lk \<noteq> []" "customer_id lk \<noteq> []" "rate_limit_id lk \<noteq> []" "u \<in> set UNITS" "0 \<le> n" "n \<le> 2 ^ 53"
    and "ss = apply_session (session_json (sessionPayload s sess)) ss0" "csrfToken sess \<noteq> []"
    and "session_get (own ck SESSION_COOKIE) (sessions s) = Some sess" "email (session_user s sess) \<noteq> []"
    and "authorize (session_user s sess) Limit_write (Some (service_name lk)) (policy d) = Authz_ok" "no_bar lk"
  shows "\<exists>st' f k. limits_serve ss (In_the_editor Click_save) st = (st', Await f k)
    \<and> (\<forall>bd. exact bd \<and> f_body f = stringify bd \<longrightarrow>
        (case mock_view (mgmt m) lk of
           None \<Rightarrow> \<exists>lv s' m' e. drive 1 ms (serve pl d (deliver ck q bd f) s) m = Some (reply 201 (P_limit lv), s', m')
             \<and> mock_view (mgmt m') = (mock_view (mgmt m))(lk \<mapsto> (num_of_int n, u))
             \<and> audit (mgmt m') = audit (mgmt m) @ [e] \<and> ar_changed_by e = email (session_user s sess)
         | Some x \<Rightarrow> drive 1 ms (serve pl d (deliver ck q bd f) s) m
             = Some (reply 409 (P_rpc_error ''limit already exists'' (Some 6)), s, m)))
    \<and> (\<forall>v later. lp_editing (fst (k (Inr \<lparr>fr_status = 201, fr_parsed = Inr v\<rparr>) later)) = None)
    \<and> (\<forall>t rest. let st'' = fst (k (Inr \<lparr>fr_status = 409, fr_parsed = Inr (JObj ((''error'', JStr t) # rest))\<rparr>) st')
        in lp_editing st'' = Some initial \<and> map_option shown_error (ed_error (lp_editor st'')) = Some t)"
proof -
  let ?b = "JObj (limit_form JNull lk n u dflt)"
  obtain st' k where k: "limits_serve ss (In_the_editor Click_save) st
      = (st', Await (req_fetch (ui_csrf ss) ''POST'' ''/limits'' (Some ?b)) k)"
    "lp_editing st' = Some initial" "lp_mounted st' = lp_mounted st"
    "\<And>v later. lp_editing (fst (k (Inr \<lparr>fr_status = 201, fr_parsed = Inr v\<rparr>) later)) = None"
    "\<And>t rest. fst (k (Inr \<lparr>fr_status = 409, fr_parsed = Inr (JObj ((''error'', JStr t) # rest))\<rparr>) st')
       = in_editor (lp_mounted st) (ed_error_update (\<lambda>_. Some (ApiError 409 t (JObj ((''error'', JStr t) # rest))))) st'"
    by (rule create_click [OF assms(1-3)]) blast
  let ?f = "req_fetch (ui_csrf ss) ''POST'' ''/limits'' (Some ?b)"
  define v where "v = \<lparr>service_name = service_name lk, customer_id = customer_id lk, rate_limit_id = rate_limit_id lk,
    limit_value = num_of_int n, time_unit = u\<rparr>"
  have v: "key v = lk" "limit_value v = num_of_int n" "time_unit v = u" "service_name v = service_name lk"
    by (simp_all add: v_def key_def)
  have "ui_csrf ss = csrfToken sess" unfolding assms(10) by (rule token_after_login)
  then have served: "serve pl d (deliver ck q ?b ?f) s = createLimit d (opContext s sess) v (\<lambda>l. respond 201 (P_limit l)) s"
    using create_request_served [OF assms(4-8,11,12,14) refl] by (simp add: v_def)
  have "f_body ?f = stringify ?b" by (simp add: req_fetch_def del: stringify.simps)
  moreover have "exact ?b" by (rule limit_form_exact) (use assms(8,9) in simp_all)
  ultimately have body: "bd = ?b" if "exact bd \<and> f_body ?f = stringify bd" for bd
    using that stringify_inject by metis
  have who: "ctx_actor (opContext s sess) = email (session_user s sess)" by (simp add: opContext_def)
  note made = creates_limit [where v = v and ctx = "opContext s sess" and d = d and s = s and b = m and ms = ms]
    and dup = refuses_duplicate [where v = v and ctx = "opContext s sess" and d = d and s = s and b = m and ms = ms]
  show ?thesis
  proof (intro exI conjI)
    show "limits_serve ss (In_the_editor Click_save) st = (st', Await ?f k)" by (rule k(1))
    show "\<forall>bd. exact bd \<and> f_body ?f = stringify bd \<longrightarrow>
        (case mock_view (mgmt m) lk of
           None \<Rightarrow> \<exists>lv s' m' e. drive 1 ms (serve pl d (deliver ck q bd ?f) s) m = Some (reply 201 (P_limit lv), s', m')
             \<and> mock_view (mgmt m') = (mock_view (mgmt m))(lk \<mapsto> (num_of_int n, u))
             \<and> audit (mgmt m') = audit (mgmt m) @ [e] \<and> ar_changed_by e = email (session_user s sess)
         | Some x \<Rightarrow> drive 1 ms (serve pl d (deliver ck q bd ?f) s) m
             = Some (reply 409 (P_rpc_error ''limit already exists'' (Some 6)), s, m))"
      using made dup assms(13,15) unfolding v who served [symmetric]
      by (auto dest!: body simp del: stringify.simps split: option.splits) (rule exI, rule refl)
    show "\<forall>v later. lp_editing (fst (k (Inr \<lparr>fr_status = 201, fr_parsed = Inr v\<rparr>) later)) = None" using k(4) by blast
    show "\<forall>t rest. let st'' = fst (k (Inr \<lparr>fr_status = 409, fr_parsed = Inr (JObj ((''error'', JStr t) # rest))\<rparr>) st')
        in lp_editing st'' = Some initial \<and> map_option shown_error (ed_error (lp_editor st'')) = Some t"
      using k(2,3) by (simp add: k(5) in_editor_def Let_def)
  qed
qed

theorem click_creates_limit_witness:
  "\<exists>f lv s' m'. drive 1 0 (serve demo_platform demo_deps (deliver [(SESSION_COOKIE, JStr ''d0'')] JUndefined
        (JObj (limit_form JNull (mkkey ''search-svc'' ''c'' ''l'') 7 ''DAY'' False)) f) demo_state2)
        \<lparr>mgmt = new_mgmt, enforcer = new_enforcer\<rparr> = Some (reply 201 (P_limit lv), s', m')
     \<and> mock_view (mgmt m') (mkkey ''search-svc'' ''c'' ''l'') = Some (num_of_int 7, ''DAY'')"
proof -
  let ?sess = "demo_session 0 ''d0'' ''d1''" and ?lk = "mkkey ''search-svc'' ''c'' ''l''"
  let ?ss = "apply_session (session_json (sessionPayload demo_state2 ?sess)) new_session_state"
  let ?form = "limit_form JNull ?lk 7 ''DAY'' False"
  let ?m = "\<lparr>mgmt = new_mgmt, enforcer = new_enforcer\<rparr>"
  define st where "st = setEditing (Some ?form) new_limits_page"
  have st: "lp_editing st = Some ?form" "isNew ?form" "ed_form (lp_editor st) = ?form" "lp_mounted st = 1"
    by (simp_all add: st_def setEditing_def new_limits_page_def new_editor_def isNew_def limit_form_def own_def)
  have user: "email (session_user demo_state2 ?sess) \<noteq> []" "csrfToken ?sess \<noteq> []"
      "authorize (session_user demo_state2 ?sess) Limit_write (Some (service_name ?lk)) (policy demo_deps) = Authz_ok"
      "session_get (own [(SESSION_COOKIE, JStr ''d0'')] SESSION_COOKIE) (sessions demo_state2) = Some ?sess"
    by (simp_all add: demo_eval session_user_def user_at_def mock_users session_get_def own_def demo_states mkkey_def demo_session_def)
  have lk: "service_name ?lk \<noteq> []" "customer_id ?lk \<noteq> []" "rate_limit_id ?lk \<noteq> []" "no_bar ?lk" "''DAY'' \<in> set UNITS"
    by (simp_all add: mkkey_def no_bar_def UNITS_def)
  have none: "mock_view (mgmt ?m) ?lk = None" by (simp add: mock_view_def new_mgmt_def)
  obtain st' f k where f: "limits_serve ?ss (In_the_editor Click_save) st = (st', Await f k)"
    and run: "\<And>bd. exact bd \<and> f_body f = stringify bd \<Longrightarrow>
        \<exists>lv s' m'. drive 1 0 (serve demo_platform demo_deps (deliver [(SESSION_COOKIE, JStr ''d0'')] JUndefined bd f) demo_state2) ?m
          = Some (reply 201 (P_limit lv), s', m') \<and> mock_view (mgmt m') = (mock_view (mgmt ?m))(?lk \<mapsto> (num_of_int 7, ''DAY''))"
    using click_creates_limit [OF st(1-3) lk(1-3,5) _ _ refl user(2,4,1,3) lk(4), where ?ss0.0 = new_session_state
        and m = ?m and ms = 0 and pl = demo_platform and q = JUndefined] none by fastforce
  have "f_body f = stringify (JObj ?form)"
    by (rule create_click [OF st(1-3), of ?ss]) (use f in \<open>simp add: req_fetch_def del: stringify.simps\<close>)
  moreover have "exact (JObj ?form)" by (rule limit_form_exact) simp_all
  ultimately obtain lv s' m' where "drive 1 0 (serve demo_platform demo_deps
        (deliver [(SESSION_COOKIE, JStr ''d0'')] JUndefined (JObj ?form) f) demo_state2) ?m
      = Some (reply 201 (P_limit lv), s', m')"
      "mock_view (mgmt m') = (mock_view (mgmt ?m))(?lk \<mapsto> (num_of_int 7, ''DAY''))"
    using run [of "JObj ?form"] by blast
  then show ?thesis by (metis fun_upd_same)
qed

text \<open>
  C40. The bound of an audit query: from 1970 on, and on whole seconds before, the time stamp sent to the
  backend is the instant the text denotes; an earlier instant with a fraction of a second is sent one second
  too early.
\<close>

theorem audit_since_bound:
  assumes "txt \<noteq> []" "date_parse d txt = num_of_int t" "\<bar>t\<bar> \<le> MAX_TIME"
  shows "\<exists>sec nanos. isoToTimestamp d txt = Some (sec, nanos)
    \<and> stamp_ms sec nanos = num_of_int (if t < 0 \<and> t mod 1000 \<noteq> 0 then t - 1000 else t)"
  using isoToTimestamp_int [OF assms] isoToTimestamp_reads_back [OF assms] by blast

theorem audit_since_bound_witness:
  "\<exists>sec nanos. isoToTimestamp (demo_deps\<lparr>date_parse := \<lambda>_. Fin (- 500)\<rparr>) ''1969-12-31T23:59:59.500Z'' = Some (sec, nanos)
     \<and> stamp_ms sec nanos = Fin (- 1500)"
  using audit_since_bound [of "''1969-12-31T23:59:59.500Z''" "demo_deps\<lparr>date_parse := \<lambda>_. Fin (- 500)\<rparr>" "- 500"]
  by (simp add: MAX_TIME_def)

text \<open>
  The mock dev server starts with identifiers that are about to be given out again: the first limit
  created on it gets the identifier and the audit number of a seeded one.
\<close>

theorem seeded_identifiers_collide:
  "let new = mkkey ''search-svc'' ''cust_7'' ''default'';
       m' = snd (mock_create now ''alice@anthropic.com'' new v u (mgmt (seeded_mocks ms)))
   in \<exists>a b. map_get (limits m') (k_of (mkkey ''search-svc'' ''*'' ''default'')) = Some a
        \<and> map_get (limits m') (k_of new) = Some b \<and> st_config_id a = st_config_id b
        \<and> \<not> distinct (map ar_audit_id (audit m'))"
  by (simp add: mock_create_def seeded_mocks_def seedLimits_def new_mgmt_def k_of_def mkkey_def insert_limit_def
      writeAudit_def Let_def)

end
